(* ===== verification/Lura_Prelude.thy ===== *)
theory Lura_Prelude
  imports Main "HOL-Library.AList" "HOL-Library.Multiset" "HOL-Library.Sublist"
    "HOL-Library.Char_ord" "HOL-Library.List_Lexorder" "HOL-Library.Word"
begin

text \<open>
  Shared ground of the development: the model of Go's maps, of the functions of Go's package
  \<open>strings\<close> the code calls, and the generic lemmas and fact collections the component
  theories use.

  A Go map is an association list with distinct keys (\<open>gmap\<close>); the order of the list is one
  iteration order of \<open>range\<close>. Go does not specify that order, so a result that must not
  depend on it is stated through \<^const>\<open>map_of\<close>, for every list. Writing a key keeps
  its place (\<^const>\<open>AList.update\<close>), \<open>delete\<close> is \<^const>\<open>AList.delete\<close>.
  A Go string is a list of bytes (\<^typ>\<open>string\<close>).
\<close>

named_theorems gmap_simps \<open>lookups and key sets of the Go map operations\<close>
named_theorems gostr_simps \<open>evaluation of the Go string functions\<close>

section \<open>Go maps\<close>

type_synonym 'v gmap = "(string \<times> 'v) list"

abbreviation mput :: "string \<Rightarrow> 'v \<Rightarrow> 'v gmap \<Rightarrow> 'v gmap" where
  "mput \<equiv> AList.update"

abbreviation mdel :: "string \<Rightarrow> 'v gmap \<Rightarrow> 'v gmap" where
  "mdel \<equiv> AList.delete"

abbreviation keys :: "'v gmap \<Rightarrow> string list" where
  "keys m \<equiv> map fst m"

abbreviation has_key :: "'v gmap \<Rightarrow> string \<Rightarrow> bool" where
  "has_key m k \<equiv> map_of m k \<noteq> None"

lemma map_of_mput [gmap_simps]: "map_of (mput k v m) = (map_of m)(k \<mapsto> v)"
  by (rule update_conv')

lemma map_of_mdel [gmap_simps]: "map_of (mdel k m) = (map_of m)(k := None)"
  by (rule delete_conv')

lemma distinct_mput [simp]: "distinct (keys m) \<Longrightarrow> distinct (keys (mput k v m))"
  by (rule distinct_update)

lemma distinct_mdel [simp]: "distinct (keys m) \<Longrightarrow> distinct (keys (mdel k m))"
  by (rule distinct_delete)

lemma map_of_in_keys: "map_of m k = Some v \<Longrightarrow> k \<in> fst ` set m"
  by (rule map_of_SomeD [THEN imageI, of m k v fst, simplified])

lemma map_of_None_keys: "map_of m k = None \<longleftrightarrow> k \<notin> fst ` set m"
  by (rule map_of_eq_None_iff)

lemma map_of_perm:
  assumes "distinct (keys m)" and "mset m = mset m'"
  shows "map_of m' = map_of m"
proof -
  have "mset (keys m') = mset (keys m)"
    using assms(2) by (simp add: mset_map)
  then have "distinct (keys m')"
    using assms(1) mset_eq_imp_distinct_iff by blast
  moreover have "set m' = set m"
    using assms(2) mset_eq_setD by metis
  ultimately show ?thesis
    using assms(1) map_of_inject_set by blast
qed

lemma set_mput_subset: "set (mput k v m) \<subseteq> insert (k, v) (set m)"
  by (induction m) auto

lemma set_mdel_subset: "set (mdel k m) \<subseteq> set m"
  by (simp add: AList.delete_eq)

lemma mput_not_Nil [simp]: "mput k v m \<noteq> []"
  by (cases m) auto

text \<open>\<open>range\<close> over the entries of \<open>src\<close>, storing each one into \<open>dst\<close>.\<close>

definition mput_all :: "'v gmap \<Rightarrow> 'v gmap \<Rightarrow> 'v gmap" where
  "mput_all src dst = fold (\<lambda>(k, v) m. mput k v m) src dst"

lemma mput_all_simps [simp]:
  "mput_all [] dst = dst"
  "mput_all ((k, v) # src) dst = mput_all src (mput k v dst)"
  by (simp_all add: mput_all_def)

lemma map_of_mput_all [gmap_simps]:
  "distinct (keys src) \<Longrightarrow> map_of (mput_all src dst) = map_of dst ++ map_of src"
proof (induction src arbitrary: dst)
  case Nil
  then show ?case by simp
next
  case (Cons kv src)
  obtain k v where kv: "kv = (k, v)" by (cases kv)
  from Cons.prems have fresh: "k \<notin> dom (map_of src)" and d: "distinct (keys src)"
    by (auto simp: kv dom_map_of_conv_image_fst)
  have "map_of (mput_all (kv # src) dst) = map_of (mput k v dst) ++ map_of src"
    using Cons.IH [OF d] by (simp add: kv)
  also have "\<dots> = map_of dst ++ map_of (kv # src)"
    using fresh by (simp add: kv map_of_mput map_add_upd_left)
  finally show ?case .
qed

lemma distinct_mput_all [simp]:
  assumes "distinct (keys dst)"
  shows "distinct (keys (mput_all src dst))"
  using assms
proof (induction src arbitrary: dst)
  case Nil
  then show ?case by simp
next
  case (Cons kv src)
  then show ?case by (cases kv) simp
qed

section \<open>Go strings\<close>

text \<open>\<open>strings.Split(s, sep)\<close> for a separator of one byte.\<close>

fun split_on :: "char \<Rightarrow> string \<Rightarrow> string list" where
  "split_on sep [] = [[]]"
| "split_on sep (c # cs) =
     (if c = sep then [] # split_on sep cs
      else (case split_on sep cs of [] \<Rightarrow> [[c]] | w # ws \<Rightarrow> (c # w) # ws))"

text \<open>\<open>strings.Join(xs, sep)\<close>.\<close>

fun join :: "string \<Rightarrow> string list \<Rightarrow> string" where
  "join sep [] = []"
| "join sep [x] = x"
| "join sep (x # y # xs) = x @ sep @ join sep (y # xs)"

text \<open>
  \<open>strings.ReplaceAll(s, old, new)\<close>: non-overlapping occurrences, left to right. The code calls it
  with a non-empty \<open>old\<close> only (it always starts with a brace), so the empty one, which Go
  treats specially, leaves the string alone here.
\<close>

function replace_all :: "string \<Rightarrow> string \<Rightarrow> string \<Rightarrow> string" where
  "replace_all old new [] = []"
| "replace_all old new (c # cs) =
     (if old \<noteq> [] \<and> prefix old (c # cs)
      then new @ replace_all old new (drop (length old) (c # cs))
      else c # replace_all old new cs)"
  by pat_completeness auto
termination
  by (relation "measure (\<lambda>(old, new, s). length s)") auto

text \<open>\<open>strings.Contains(s, sub)\<close> and \<open>strings.TrimPrefix(s, p)\<close>.\<close>

fun contains :: "string \<Rightarrow> string \<Rightarrow> bool" where
  "contains [] sub = (sub = [])"
| "contains (c # cs) sub = (prefix sub (c # cs) \<or> contains cs sub)"

definition trim_prefix :: "string \<Rightarrow> string \<Rightarrow> string" where
  "trim_prefix s p = (if prefix p s then drop (length p) s else s)"

text \<open>
  Letters. Go's \<open>strings.ToUpper\<close>, \<open>ToTitle\<close> and \<open>ToLower\<close> act on Unicode letters; on the
  ASCII bytes the code applies them to (method names, strategy names, header names) they are these.
\<close>

definition is_lower :: "char \<Rightarrow> bool" where
  "is_lower c \<longleftrightarrow> CHR ''a'' \<le> c \<and> c \<le> CHR ''z''"

definition is_upper :: "char \<Rightarrow> bool" where
  "is_upper c \<longleftrightarrow> CHR ''A'' \<le> c \<and> c \<le> CHR ''Z''"

definition is_digit :: "char \<Rightarrow> bool" where
  "is_digit c \<longleftrightarrow> CHR ''0'' \<le> c \<and> c \<le> CHR ''9''"

definition upper_char :: "char \<Rightarrow> char" where
  "upper_char c = (if is_lower c then char_of (of_char c - 32 :: nat) else c)"

definition lower_char :: "char \<Rightarrow> char" where
  "lower_char c = (if is_upper c then char_of (of_char c + 32 :: nat) else c)"

definition to_upper :: "string \<Rightarrow> string" where
  "to_upper s = map upper_char s"

definition to_lower :: "string \<Rightarrow> string" where
  "to_lower s = map lower_char s"

text \<open>\<open>strconv.Itoa\<close> and the verb \<open>%d\<close> on an \<open>int\<close>.\<close>

fun digits_of :: "nat \<Rightarrow> string" where
  "digits_of n =
     (if n < 10 then [char_of (48 + n)] else digits_of (n div 10) @ [char_of (48 + n mod 10)])"

declare digits_of.simps [simp del]

definition itoa :: "int \<Rightarrow> string" where
  "itoa i = (if i < 0 then ''-'' @ digits_of (nat (- i)) else digits_of (nat i))"

text \<open>\<open>strconv.Atoi\<close> on a run of digits: an error when the number is not an int64.\<close>

definition digit_val :: "char \<Rightarrow> nat" where
  "digit_val c = of_char c - 48"

definition nat_of_digits :: "string \<Rightarrow> nat" where
  "nat_of_digits s = fold (\<lambda>c n. 10 * n + digit_val c) s 0"

definition Atoi_digits :: "string \<Rightarrow> nat option" where
  "Atoi_digits s = (let n = nat_of_digits s in if n < 2 ^ 63 then Some n else None)"

text \<open>\<open>strconv.Atoi\<close>: an optional sign and digits.\<close>

definition Atoi_nat :: "string \<Rightarrow> int \<Rightarrow> int option" where
  "Atoi_nat ds limit =
     (if ds \<noteq> [] \<and> list_all is_digit ds \<and> int (nat_of_digits ds) \<le> limit
      then Some (int (nat_of_digits ds)) else None)"

definition Atoi :: "string \<Rightarrow> int option" where
  "Atoi s =
     (case s of
        [] \<Rightarrow> None
      | c # ds \<Rightarrow>
          if c = CHR ''-'' then map_option uminus (Atoi_nat ds (2 ^ 63))
          else if c = CHR ''+'' then Atoi_nat ds (2 ^ 63 - 1)
          else Atoi_nat s (2 ^ 63 - 1))"

subsection \<open>Lemmas on the string functions\<close>

lemma split_on_not_Nil [simp]: "split_on sep s \<noteq> []"
  by (induction s) (auto split: list.splits)

lemma split_on_no_sep: "sep \<notin> set s \<Longrightarrow> split_on sep s = [s]"
  by (induction s) auto

lemma split_on_Cons_sep:
  "c \<noteq> sep \<Longrightarrow> split_on sep (c # cs) = (c # hd (split_on sep cs)) # tl (split_on sep cs)"
  by (cases "split_on sep cs") auto

lemma split_on_parts: "w \<in> set (split_on sep s) \<Longrightarrow> sep \<notin> set w"
proof (induction s arbitrary: w)
  case Nil
  then show ?case by simp
next
  case (Cons c cs)
  then show ?case
    by (cases "split_on sep cs") (auto split: if_splits)
qed

lemma join_Cons: "xs \<noteq> [] \<Longrightarrow> join sep (x # xs) = x @ sep @ join sep xs"
  by (cases xs) auto

lemma join_split_on: "join [sep] (split_on sep s) = s"
proof (induction s)
  case Nil
  then show ?case by simp
next
  case (Cons c cs)
  show ?case
  proof (cases "c = sep")
    case True
    then show ?thesis using Cons.IH by (simp add: join_Cons)
  next
    case False
    obtain w ws where sp: "split_on sep cs = w # ws"
      by (cases "split_on sep cs") auto
    have "join [sep] ((c # w) # ws) = c # join [sep] (w # ws)"
      by (cases ws) auto
    with False sp Cons.IH show ?thesis by simp
  qed
qed

lemma split_on_append_sep:
  "split_on sep (a @ sep # b) = split_on sep a @ split_on sep b"
proof (induction a)
  case Nil
  then show ?case by simp
next
  case (Cons c a)
  show ?case
  proof (cases "c = sep")
    case True
    then show ?thesis using Cons.IH by simp
  next
    case False
    obtain w ws where "split_on sep a = w # ws"
      by (cases "split_on sep a") auto
    with False Cons.IH show ?thesis by simp
  qed
qed

lemma split_on_join:
  "\<lbrakk>ws \<noteq> []; \<forall>w \<in> set ws. sep \<notin> set w\<rbrakk> \<Longrightarrow> split_on sep (join [sep] ws) = ws"
proof (induction ws)
  case Nil
  then show ?case by simp
next
  case (Cons x ws)
  show ?case
  proof (cases "ws = []")
    case True
    with Cons.prems show ?thesis by (simp add: split_on_no_sep)
  next
    case False
    with Cons.prems Cons.IH show ?thesis
      by (simp add: join_Cons split_on_append_sep split_on_no_sep)
  qed
qed

lemma trim_prefix_append [simp]: "trim_prefix (p @ s) p = s"
  by (simp add: trim_prefix_def)

lemma replace_all_absent:
  "\<not> contains s old \<Longrightarrow> old \<noteq> [] \<Longrightarrow> replace_all old new s = s"
  by (induction s) auto

lemma contains_appendI: "contains (a @ sub @ b) sub"
proof (induction a)
  case Nil
  have "prefix sub (sub @ b)" by simp
  then show ?case by (cases "sub @ b") (auto simp del: prefixI)
next
  case (Cons c a)
  then show ?case by simp
qed

lemma length_to_upper [simp]: "length (to_upper s) = length s"
  by (simp add: to_upper_def)

text \<open>Options: the shape of Go's \<open>v, ok := x.(T)\<close> chains.\<close>

definition obind :: "'a option \<Rightarrow> ('a \<Rightarrow> 'b option) \<Rightarrow> 'b option" where
  "obind x f = (case x of None \<Rightarrow> None | Some a \<Rightarrow> f a)"

lemma obind_simps [simp]: "obind None f = None" "obind (Some a) f = f a"
  by (simp_all add: obind_def)

lemma obind_eq_Some: "obind x f = Some b \<longleftrightarrow> (\<exists>a. x = Some a \<and> f a = Some b)"
  by (cases x) auto

text \<open>Results with errors: the shape of \<open>if err != nil { return err }\<close>, and a loop of such steps.\<close>

definition ebind :: "'e + 'a \<Rightarrow> ('a \<Rightarrow> 'e + 'b) \<Rightarrow> 'e + 'b" where
  "ebind x f = (case x of Inl e \<Rightarrow> Inl e | Inr a \<Rightarrow> f a)"

lemma ebind_simps [simp]: "ebind (Inl e) f = Inl e" "ebind (Inr a) f = f a"
  by (simp_all add: ebind_def)

lemma ebind_eq_Inr: "ebind x f = Inr b \<longleftrightarrow> (\<exists>a. x = Inr a \<and> f a = Inr b)"
  by (cases x) auto

fun emap :: "(nat \<Rightarrow> 'a \<Rightarrow> 'e + 'b) \<Rightarrow> nat \<Rightarrow> 'a list \<Rightarrow> 'e + 'b list" where
  "emap f i [] = Inr []"
| "emap f i (x # xs) = ebind (f i x) (\<lambda>y. ebind (emap f (Suc i) xs) (\<lambda>ys. Inr (y # ys)))"

lemma emap_Inr_set:
  "emap f i xs = Inr ys \<Longrightarrow> y \<in> set ys \<Longrightarrow> \<exists>j x. x \<in> set xs \<and> f j x = Inr y"
proof (induction f i xs arbitrary: ys rule: emap.induct)
  case (2 f i x xs)
  then obtain z zs where "f i x = Inr z" "emap f (Suc i) xs = Inr zs" "ys = z # zs"
    by (auto simp: ebind_eq_Inr)
  with 2 show ?case by (metis list.set_intros(1,2) set_ConsD)
qed simp

lemma emap_length: "emap f i xs = Inr ys \<Longrightarrow> length ys = length xs"
  by (induction f i xs arbitrary: ys rule: emap.induct) (auto simp: ebind_eq_Inr)

text \<open>
  \<open>textproto.CanonicalMIMEHeaderKey\<close>: the first letter and every letter after a hyphen in upper
  case, the others in lower case; a key with a byte that is not of a token stays as it is.
\<close>

definition header_byte :: "char \<Rightarrow> bool" where
  "header_byte c \<longleftrightarrow> is_lower c \<or> is_upper c \<or> is_digit c \<or> c \<in> set ''!#$%&*+-.^_`|~'' \<or> c = char_of (39 :: nat)"

fun canonical_from :: "bool \<Rightarrow> string \<Rightarrow> string" where
  "canonical_from upper [] = []"
| "canonical_from upper (c # cs) =
     (if upper then upper_char c else lower_char c) # canonical_from (c = CHR ''-'') cs"

definition CanonicalMIMEHeaderKey :: "string \<Rightarrow> string" where
  "CanonicalMIMEHeaderKey s = (if \<forall>c \<in> set s. header_byte c then canonical_from True s else s)"

end
