(* ===== verification/Go_Values.thy ===== *)
theory Go_Values
  imports Lura_Prelude
begin

text \<open>
  The data every component of Lura handles: dynamic values (Go's \<open>interface{}\<close> as the JSON
  decoder and the configuration parser produce it), the errors of the pipe, the proxy's
  \<open>Request\<close> and \<open>Response\<close> (\<open>proxy/request.go\<close>, \<open>proxy/proxy.go\<close>) and the type of a
  \<open>Proxy\<close> and of a \<open>Middleware\<close>.

  Conventions. A nil pointer or nil map whose nil-ness the code tests is \<^const>\<open>None\<close>. A Go panic
  is a value (\<open>Panic\<close>), and \<open>logger.Fatal\<close>, which ends the process, is \<open>BFatal\<close>. A context is
  the time from which its \<open>Done\<close> channel is closed, with the error it then has; the world
  holds the clock and, as a record extension, whatever the backends keep.
\<close>

section \<open>Dynamic values\<close>

record http_err =
  he_Code :: int
  he_Msg :: string
  he_Enc :: string

text \<open>
  A float64 is its 64 bits and a \<open>json.Number\<close> its literal. \<open>VIface\<close> is the
  \<open>map[interface{}]interface{}\<close> some configuration parsers produce; \<open>VNamedErr\<close> a
  \<open>NamedHTTPResponseError\<close> stored in the response data. A nil map inside a value is identified
  with an empty one.
\<close>

datatype "value" =
    VNil
  | VBool bool
  | VInt int
  | VFloat "64 word"
  | VNum string
  | VStr string
  | VArr "value list"
  | VObj "(string \<times> value) list"
  | VIface "(value \<times> value) list"
  | VNamedErr http_err string

lemmas go_val_split = "value.split" and go_val_splits = "value.splits" and go_val_cong = "value.case_cong"

fun as_obj :: "value \<Rightarrow> value gmap option" where
  "as_obj (VObj m) = Some m"
| "as_obj _ = None"

fun as_str :: "value \<Rightarrow> string option" where
  "as_str (VStr s) = Some s"
| "as_str _ = None"

fun as_bool :: "value \<Rightarrow> bool option" where
  "as_bool (VBool b) = Some b"
| "as_bool _ = None"

fun as_arr :: "value \<Rightarrow> value list option" where
  "as_arr (VArr xs) = Some xs"
| "as_arr _ = None"

lemma as_obj_Some [simp]: "as_obj v = Some m \<longleftrightarrow> v = VObj m"
  by (cases v) auto

lemma as_str_Some [simp]: "as_str v = Some s \<longleftrightarrow> v = VStr s"
  by (cases v) auto

lemma as_bool_Some [simp]: "as_bool v = Some b \<longleftrightarrow> v = VBool b"
  by (cases v) auto

lemma as_arr_Some [simp]: "as_arr v = Some xs \<longleftrightarrow> v = VArr xs"
  by (cases v) auto

lemma as_obj_None: "as_obj v = None \<longleftrightarrow> (\<forall>m. v \<noteq> VObj m)"
  by (cases v) auto

text \<open>Every object inside a value has distinct keys, as a Go map has.\<close>

fun wf_value :: "value \<Rightarrow> bool" and wf_obj :: "value gmap \<Rightarrow> bool"
  and wf_arr :: "value list \<Rightarrow> bool" where
  "wf_value (VObj m) = wf_obj m"
| "wf_value (VArr xs) = wf_arr xs"
| "wf_value _ = True"
| "wf_obj [] = True"
| "wf_obj ((k, v) # m) = (map_of m k = None \<and> wf_value v \<and> wf_obj m)"
| "wf_arr [] = True"
| "wf_arr (x # xs) = (wf_value x \<and> wf_arr xs)"

lemma wf_obj_iff: "wf_obj m \<longleftrightarrow> distinct (keys m) \<and> (\<forall>kv \<in> set m. wf_value (snd kv))"
proof (induction m)
  case Nil
  then show ?case by simp
next
  case (Cons kv m)
  then show ?case by (cases kv) (auto simp: map_of_eq_None_iff)
qed

lemma wf_objD: "wf_obj m \<Longrightarrow> distinct (keys m)"
  by (simp add: wf_obj_iff)

lemma wf_obj_lookup: "wf_obj m \<Longrightarrow> map_of m k = Some v \<Longrightarrow> wf_value v"
  using map_of_SomeD [of m k v] by (fastforce simp: wf_obj_iff)

lemma wf_obj_mput [simp]:
  assumes "wf_obj m" and "wf_value v"
  shows "wf_obj (mput k v m)"
proof -
  have "kv \<in> set (mput k v m) \<Longrightarrow> wf_value (snd kv)" for kv
    using set_mput_subset [of k v m] assms by (auto simp: wf_obj_iff)
  with assms show ?thesis by (simp add: wf_obj_iff)
qed

lemma wf_obj_mdel [simp]:
  assumes "wf_obj m"
  shows "wf_obj (mdel k m)"
proof -
  have "kv \<in> set (mdel k m) \<Longrightarrow> wf_value (snd kv)" for kv
    using set_mdel_subset [of k m] assms by (auto simp: wf_obj_iff)
  with assms show ?thesis by (simp add: wf_obj_iff)
qed

text \<open>The value at a path of object keys.\<close>

fun vlookup :: "value \<Rightarrow> string list \<Rightarrow> value option" where
  "vlookup v [] = Some v"
| "vlookup v (k # p) =
     (case v of
        VObj m \<Rightarrow> (case map_of m k of None \<Rightarrow> None | Some v' \<Rightarrow> vlookup v' p)
      | _ \<Rightarrow> None)"

definition is_leaf :: "value \<Rightarrow> bool" where
  "is_leaf v \<longleftrightarrow> as_obj v = None"

lemma is_leaf_simps [simp]:
  "\<not> is_leaf (VObj m)" "is_leaf VNil" "is_leaf (VBool b)" "is_leaf (VStr s)" "is_leaf (VInt i)"
  "is_leaf (VArr xs)" "is_leaf (VNum s)" "is_leaf (VFloat f)" "is_leaf (VIface l)"
  "is_leaf (VNamedErr e s)"
  by (simp_all add: is_leaf_def)

lemma is_leaf_path: "is_leaf v \<Longrightarrow> vlookup v p = Some w \<longleftrightarrow> p = [] \<and> w = v"
  by (cases p; cases v) auto

lemma vlookup_not_obj: "as_obj v = None \<Longrightarrow> vlookup v (k # p) = None"
  by (cases v) auto

section \<open>Errors\<close>

text \<open>
  Each constructor is one error type or value of the source; \<open>EOther\<close> is any error a backend, a
  plugin or a library returns.
\<close>

datatype go_err =
    EOther string
  | ENullResult
  | EMerge "go_err list"
  | ENoBackends
  | ENoHosts
  | ECanceled
  | EDeadlineExceeded
  | EInvalidStatusCode
  | EInvalidStatus int string string
  | EHTTP http_err
  | ENamedHTTP http_err string
  | EInternal

text \<open>\<open>Error()\<close> of each of them; a merge error is its parts, one per line.\<close>

fun err_text :: "go_err \<Rightarrow> string" where
  "err_text (EOther s) = s"
| "err_text ENullResult = ''invalid response''"
| "err_text (EMerge es) = join [CHR 0x0A] (map err_text es)"
| "err_text ENoBackends = ''all endpoints must have at least one backend''"
| "err_text ENoHosts = ''no hosts available''"
| "err_text ECanceled = ''context canceled''"
| "err_text EDeadlineExceeded = ''context deadline exceeded''"
| "err_text EInvalidStatusCode = ''invalid status code''"
| "err_text (EInvalidStatus c p u) =
     ''invalid status code '' @ itoa c @ '' '' @ p @ '' '' @ u"
| "err_text (EHTTP e) = he_Msg e"
| "err_text (ENamedHTTP e n) = he_Msg e"
| "err_text EInternal = ''internal server error''"

section \<open>Requests and responses\<close>

text \<open>
  A parsed URL is its query and all the rest of it; \<open>url.Parse\<close> itself is a parameter of the
  components that call it.
\<close>

record url =
  u_base :: string
  u_RawQuery :: string

definition url_string :: "url \<Rightarrow> string" where
  "url_string u = (if u_RawQuery u = [] then u_base u else u_base u @ ''?'' @ u_RawQuery u)"

text \<open>
  The body is what its reader still holds, \<^const>\<open>None\<close> for a nil reader. \<open>Params\<close> and
  \<open>Headers\<close> are made by the router and never nil; \<open>Query\<close> may be.
\<close>

record request =
  rq_Method :: string
  rq_URL :: "url option"
  rq_Query :: "string list gmap option"
  rq_Path :: string
  rq_Body :: "string option"
  rq_Params :: "string gmap"
  rq_Headers :: "string list gmap"

text \<open>A reader is the bytes it delivers and the error it ends with, \<^const>\<open>None\<close> for EOF.\<close>

type_synonym reader = "string \<times> go_err option"

definition ReadAll :: "reader \<Rightarrow> go_err + string" where
  "ReadAll r = (case snd r of None \<Rightarrow> Inr (fst r) | Some e \<Rightarrow> Inl e)"

record response =
  rs_Data :: "value gmap option"
  rs_IsComplete :: bool
  rs_Headers :: "string list gmap"
  rs_StatusCode :: int
  rs_Io :: "reader option"

definition new_response :: "value gmap option \<Rightarrow> bool \<Rightarrow> response" where
  "new_response d c =
     \<lparr>rs_Data = d, rs_IsComplete = c, rs_Headers = [], rs_StatusCode = 0, rs_Io = None\<rparr>"

lemma new_response_simps [simp]:
  "rs_Data (new_response d c) = d" "rs_IsComplete (new_response d c) = c"
  "rs_Headers (new_response d c) = []" "rs_StatusCode (new_response d c) = 0"
  "rs_Io (new_response d c) = None"
  by (simp_all add: new_response_def)

text \<open>\<open>len(response.Data)\<close> and reads of it: a nil map has no entry.\<close>

definition data_of :: "response \<Rightarrow> value gmap" where
  "data_of r = (case rs_Data r of None \<Rightarrow> [] | Some m \<Rightarrow> m)"

lemma data_of_simps [simp]:
  "rs_Data r = Some m \<Longrightarrow> data_of r = m" "rs_Data r = None \<Longrightarrow> data_of r = []"
  "data_of (r\<lparr>rs_Data := Some m\<rparr>) = m" "data_of (new_response (Some m) c) = m"
  "data_of (r\<lparr>rs_IsComplete := c\<rparr>) = data_of r"
  by (simp_all add: data_of_def)

section \<open>Proxies and middlewares\<close>

record world =
  now :: int

type_synonym ctx = "(int \<times> go_err) option"

text \<open>\<open>ctx.Err()\<close>: nil until the context is done.\<close>

definition ctx_err :: "ctx \<Rightarrow> 'a world_scheme \<Rightarrow> go_err option" where
  "ctx_err c w = (case c of None \<Rightarrow> None | Some (d, e) \<Rightarrow> if d \<le> now w then Some e else None)"

text \<open>\<open>context.WithTimeout(parent, t)\<close>: done when the parent is, or after \<open>t\<close>.\<close>

definition with_timeout :: "ctx \<Rightarrow> int \<Rightarrow> 'a world_scheme \<Rightarrow> ctx" where
  "with_timeout c t w =
     (case c of
        None \<Rightarrow> Some (now w + t, EDeadlineExceeded)
      | Some (d, e) \<Rightarrow> if d \<le> now w + t then c else Some (now w + t, EDeadlineExceeded))"

lemma ctx_err_None [simp]: "ctx_err None w = None"
  by (simp add: ctx_err_def)

lemma with_timeout_parent:
  "ctx_err c w' = Some e \<Longrightarrow> \<exists>e'. ctx_err (with_timeout c t w) w' = Some e'"
  by (auto simp: ctx_err_def with_timeout_def split: option.splits prod.splits if_splits)

lemma with_timeout_expires:
  "now w + t \<le> now w' \<Longrightarrow> \<exists>e. ctx_err (with_timeout c t w) w' = Some e"
  by (auto simp: ctx_err_def with_timeout_def split: option.splits prod.splits if_splits)

text \<open>
  What a call of a proxy gives: the response and the error it returns (both can be non-nil), or a
  panic. The request comes back as the callee left it, because the caller holds the same pointer.
\<close>

datatype pres = Ret "response option" "go_err option" | Panic string

type_synonym 'a proxy =
  "ctx \<Rightarrow> request \<Rightarrow> 'a world_scheme \<Rightarrow> pres \<times> request \<times> 'a world_scheme"

text \<open>Building a proxy out of others can end the process (\<open>logger.Fatal\<close>) or panic.\<close>

datatype 'p built = Built 'p | BFatal | BPanic

definition first_proxy :: "'a proxy list \<Rightarrow> 'a proxy" where
  "first_proxy ps = (case ps of
     [] \<Rightarrow> (\<lambda>ctx r w. (Panic ''index out of range'', r, w))
   | p # _ \<Rightarrow> p)"

lemma first_proxy_Cons [simp]: "first_proxy (p # ps) = p"
  by (simp add: first_proxy_def)

text \<open>\<open>EmptyMiddlewareWithLogger\<close>, \<open>EmptyMiddleware\<close> and \<open>NoopProxy\<close>.\<close>

definition EmptyMiddleware :: "'p list \<Rightarrow> 'p built" where
  "EmptyMiddleware next_ps =
     (if length next_ps > 1 then BFatal
      else (case next_ps of [] \<Rightarrow> BPanic | p # _ \<Rightarrow> Built p))"

definition NoopProxy :: "'a proxy" where
  "NoopProxy ctx r w = (Ret None None, r, w)"

lemma EmptyMiddleware_single [simp]: "EmptyMiddleware [p] = Built p"
  by (simp add: EmptyMiddleware_def)

end
