(* ===== verification/Register.thy ===== *)
theory Register
  imports Go_Values
begin

text \<open>
  The registers of \<open>register/register.go\<close>: \<open>Untyped\<close>, a map from names to values behind a
  read-write mutex, and \<open>Namespaced\<close>, an \<open>Untyped\<close> register of \<open>Untyped\<close> registers. Every
  operation holds the mutex for its whole body, so it is one step here.

  The locale \<open>kv_register\<close> is what every user of a register relies on (the decoders, the service
  discovery factories, the response combiners, the plugin modifiers): reading a name gives what was
  last stored under it. Both registers interpret it.
\<close>

section \<open>The contract\<close>

locale kv_register =
  fixes get :: "'r \<Rightarrow> 'k \<Rightarrow> 'v option"
    and set_reg :: "'k \<Rightarrow> 'v \<Rightarrow> 'r \<Rightarrow> 'r"
  assumes get_set: "get (set_reg k v r) k' = (if k' = k then Some v else get r k')"
begin

definition store_all :: "('k \<times> 'v) list \<Rightarrow> 'r \<Rightarrow> 'r" where
  "store_all kvs r = fold (\<lambda>(k, v). set_reg k v) kvs r"

lemma store_all_simps [simp]:
  "store_all [] r = r"
  "store_all ((k, v) # kvs) r = store_all kvs (set_reg k v r)"
  by (simp_all add: store_all_def)

text \<open>After any sequence of registrations the last one under a name is the one read.\<close>

lemma get_store_all:
  "get (store_all kvs r) k = (case map_of (rev kvs) k of None \<Rightarrow> get r k | Some v \<Rightarrow> Some v)"
proof (induction kvs arbitrary: r)
  case Nil
  then show ?case by simp
next
  case (Cons kv kvs)
  obtain k' v' where kv: "kv = (k', v')" by (cases kv)
  show ?case
    using Cons.IH [of "set_reg k' v' r"]
    by (auto simp: kv get_set map_add_def split: option.splits)
qed

lemma get_store_all_unregistered: "k \<notin> fst ` set kvs \<Longrightarrow> get (store_all kvs r) k = get r k"
  by (simp add: get_store_all map_of_eq_None_iff [THEN iffD2] image_Un)

end

section \<open>Untyped\<close>

record 'v untyped =
  ut_data :: "'v gmap"

definition NewUntyped :: "'v untyped" where
  "NewUntyped = \<lparr>ut_data = []\<rparr>"

definition Untyped_Register :: "string \<Rightarrow> 'v \<Rightarrow> 'v untyped \<Rightarrow> 'v untyped" where
  "Untyped_Register name v u = u\<lparr>ut_data := mput name v (ut_data u)\<rparr>"

definition Untyped_Get :: "'v untyped \<Rightarrow> string \<Rightarrow> 'v option" where
  "Untyped_Get u name = map_of (ut_data u) name"

definition Untyped_Clone :: "'v untyped \<Rightarrow> 'v gmap" where
  "Untyped_Clone u = fold (\<lambda>(k, v) res. mput k v res) (ut_data u) []"

definition wf_untyped :: "'v untyped \<Rightarrow> bool" where
  "wf_untyped u \<longleftrightarrow> distinct (keys (ut_data u))"

lemma Untyped_Get_Register:
  "Untyped_Get (Untyped_Register k v u) k' = (if k' = k then Some v else Untyped_Get u k')"
  by (simp add: Untyped_Get_def Untyped_Register_def gmap_simps)

lemma Untyped_Get_New [simp]: "Untyped_Get NewUntyped k = None"
  by (simp add: Untyped_Get_def NewUntyped_def)

lemma wf_untyped_New [simp]: "wf_untyped NewUntyped"
  by (simp add: wf_untyped_def NewUntyped_def)

lemma wf_untyped_Register [simp]: "wf_untyped u \<Longrightarrow> wf_untyped (Untyped_Register k v u)"
  by (simp add: wf_untyped_def Untyped_Register_def)

text \<open>The snapshot holds exactly the entries of the register.\<close>

lemma Untyped_Clone_lookup: "wf_untyped u \<Longrightarrow> map_of (Untyped_Clone u) = Untyped_Get u"
  using map_of_mput_all [of "ut_data u" "[]"]
  by (simp add: Untyped_Clone_def Untyped_Get_def wf_untyped_def mput_all_def fun_eq_iff)

interpretation untyped_reg: kv_register Untyped_Get Untyped_Register
  by unfold_locales (rule Untyped_Get_Register)

section \<open>Namespaced\<close>

record 'v namespaced =
  ns_data :: "'v untyped untyped"

definition New :: "'v namespaced" where
  "New = \<lparr>ns_data = NewUntyped\<rparr>"

definition Namespaced_Get :: "'v namespaced \<Rightarrow> string \<Rightarrow> 'v untyped option" where
  "Namespaced_Get n namespace = Untyped_Get (ns_data n) namespace"

text \<open>
  \<open>Register\<close> adds to the register it finds under the namespace: the pointer there is shared, so
  the entry of the outer register changes in place.
\<close>

definition Namespaced_Register :: "string \<Rightarrow> string \<Rightarrow> 'v \<Rightarrow> 'v namespaced \<Rightarrow> 'v namespaced" where
  "Namespaced_Register namespace name v n =
     (case Namespaced_Get n namespace of
        Some reg \<Rightarrow> n\<lparr>ns_data := Untyped_Register namespace (Untyped_Register name v reg) (ns_data n)\<rparr>
      | None \<Rightarrow>
          n\<lparr>ns_data := Untyped_Register namespace (Untyped_Register name v NewUntyped) (ns_data n)\<rparr>)"

definition AddNamespace :: "string \<Rightarrow> 'v namespaced \<Rightarrow> 'v namespaced" where
  "AddNamespace namespace n =
     (case Namespaced_Get n namespace of
        Some _ \<Rightarrow> n
      | None \<Rightarrow> n\<lparr>ns_data := Untyped_Register namespace NewUntyped (ns_data n)\<rparr>)"

text \<open>Reading a name of a namespace, as \<open>proxy/plugin/modifier.go\<close> does in two steps.\<close>

definition ns_lookup :: "'v namespaced \<Rightarrow> string \<times> string \<Rightarrow> 'v option" where
  "ns_lookup n k = obind (Namespaced_Get n (fst k)) (\<lambda>reg. Untyped_Get reg (snd k))"

lemma ns_lookup_Register:
  "ns_lookup (Namespaced_Register ns k v n) x = (if x = (ns, k) then Some v else ns_lookup n x)"
  by (cases x)
    (auto simp: ns_lookup_def Namespaced_Register_def Namespaced_Get_def Untyped_Get_Register
      split: option.splits)

lemma ns_lookup_AddNamespace: "ns_lookup (AddNamespace ns n) x = ns_lookup n x"
  by (cases x)
    (auto simp: ns_lookup_def AddNamespace_def Namespaced_Get_def Untyped_Get_Register
      split: option.splits)

lemma Namespaced_Get_AddNamespace:
  "Namespaced_Get (AddNamespace ns n) ns \<noteq> None"
  by (auto simp: AddNamespace_def Namespaced_Get_def Untyped_Get_Register split: option.splits)

lemma ns_lookup_New [simp]: "ns_lookup New x = None"
  by (simp add: ns_lookup_def New_def Namespaced_Get_def)

interpretation ns_reg: kv_register ns_lookup "\<lambda>k v. Namespaced_Register (fst k) (snd k) v"
  by unfold_locales (auto simp: ns_lookup_Register)

section \<open>Histories of a namespaced register\<close>

datatype 'v ns_op = OpRegister string string 'v | OpAddNamespace string

fun ns_run :: "'v ns_op list \<Rightarrow> 'v namespaced \<Rightarrow> 'v namespaced" where
  "ns_run [] n = n"
| "ns_run (OpRegister ns k v # ops) n = ns_run ops (Namespaced_Register ns k v n)"
| "ns_run (OpAddNamespace ns # ops) n = ns_run ops (AddNamespace ns n)"

fun registrations :: "'v ns_op list \<Rightarrow> ((string \<times> string) \<times> 'v) list" where
  "registrations [] = []"
| "registrations (OpRegister ns k v # ops) = ((ns, k), v) # registrations ops"
| "registrations (OpAddNamespace ns # ops) = registrations ops"

lemma ns_lookup_set_cong:
  assumes "\<And>x. ns_lookup m x = ns_lookup n x"
  shows "ns_lookup (ns_reg.store_all kvs m) x = ns_lookup (ns_reg.store_all kvs n) x"
  by (simp add: ns_reg.get_store_all assms split: option.split)

lemma ns_run_lookup: "ns_lookup (ns_run ops n) x = ns_lookup (ns_reg.store_all (registrations ops) n) x"
proof (induction ops n rule: ns_run.induct)
  case (1 n)
  then show ?case by simp
next
  case (2 ns k v ops n)
  then show ?case by simp
next
  case (3 ns ops n)
  then show ?case
    by (simp add: ns_lookup_set_cong [OF ns_lookup_AddNamespace])
qed

text \<open>
  A namespaced register holds, under every namespace and name, exactly what was last
  registered there: adding namespaces, registering other names or other namespaces never loses or
  changes an entry, and nothing appears that was not registered.
\<close>

theorem namespaced_last_registration:
  "ns_lookup (ns_run ops New) (ns, name) = map_of (rev (registrations ops)) (ns, name)"
  by (simp add: ns_run_lookup ns_reg.get_store_all split: option.splits)

end
