(* ===== verification/Encoding.thy ===== *)
theory Encoding
  imports Register
begin

text \<open>
  Package \<open>encoding\<close>: the decoders that turn the body of a backend response into the map of a
  proxy response (\<open>encoding/encoding.go\<close>) and the register they are chosen from by name
  (\<open>encoding/register.go\<close>). Decoders and their factories are named by constructors, so that a
  configuration holds them as data; \<open>decode\<close> runs one. The JSON decoder of the standard library
  is the parameter \<open>unjson\<close>, which reads one value (numbers as \<open>json.Number\<close>) or fails.
\<close>

section \<open>Decoders\<close>

datatype decoder =
    JSONDecoder
  | JSONCollectionDecoder
  | SafeJSONDecoder
  | StringDecoder
  | NoOpDecoder
  | CustomDecoder nat

text \<open>
  What each decoder stores through its pointer, starting from a nil map. The first two let
  \<open>encoding/json\<close> fill a map and a slice: a JSON null leaves them nil, any other kind of value is
  an \<open>UnmarshalTypeError\<close>. \<open>custom\<close> stands for the decoders a client registers.
\<close>

definition type_error :: go_err where
  "type_error = EOther ''json: cannot unmarshal''"

fun decode ::
  "(reader \<Rightarrow> go_err + value) \<Rightarrow> (nat \<Rightarrow> reader \<Rightarrow> go_err + value gmap option) \<Rightarrow> decoder \<Rightarrow> reader \<Rightarrow>
     go_err + value gmap option" where
  "decode unjson custom JSONDecoder r =
     (case unjson r of
        Inl e \<Rightarrow> Inl e
      | Inr v \<Rightarrow> (case v of VObj m \<Rightarrow> Inr (Some m) | VNil \<Rightarrow> Inr None | _ \<Rightarrow> Inl type_error))"
| "decode unjson custom JSONCollectionDecoder r =
     (case unjson r of
        Inl e \<Rightarrow> Inl e
      | Inr v \<Rightarrow>
          (case v of
             VArr xs \<Rightarrow> Inr (Some [(''collection'', VArr xs)])
           | VNil \<Rightarrow> Inr (Some [(''collection'', VArr [])])
           | _ \<Rightarrow> Inl type_error))"
| "decode unjson custom SafeJSONDecoder r =
     (case unjson r of
        Inl e \<Rightarrow> Inl e
      | Inr t \<Rightarrow>
          (case t of
             VObj m \<Rightarrow> Inr (Some m)
           | VArr xs \<Rightarrow> Inr (Some [(''collection'', VArr xs)])
           | _ \<Rightarrow> Inr (Some [(''content'', t)])))"
| "decode unjson custom StringDecoder r =
     (case ReadAll r of Inl e \<Rightarrow> Inl e | Inr s \<Rightarrow> Inr (Some [(''content'', VStr s)]))"
| "decode unjson custom NoOpDecoder r = Inr None"
| "decode unjson custom (CustomDecoder n) r = custom n r"

section \<open>Factories and their register\<close>

datatype decoder_factory =
    NewJSONDecoder
  | NewSafeJSONDecoder
  | NewStringDecoder
  | noOpDecoderFactory
  | CustomFactory nat nat

fun make_decoder :: "decoder_factory \<Rightarrow> bool \<Rightarrow> decoder" where
  "make_decoder NewJSONDecoder isCollection =
     (if isCollection then JSONCollectionDecoder else JSONDecoder)"
| "make_decoder NewSafeJSONDecoder _ = SafeJSONDecoder"
| "make_decoder NewStringDecoder _ = StringDecoder"
| "make_decoder noOpDecoderFactory _ = NoOpDecoder"
| "make_decoder (CustomFactory e c) isCollection = CustomDecoder (if isCollection then c else e)"

abbreviation NOOP :: string where "NOOP \<equiv> ''no-op''"
abbreviation JSON :: string where "JSON \<equiv> ''json''"
abbreviation SAFE_JSON :: string where "SAFE_JSON \<equiv> ''safejson''"
abbreviation STRING :: string where "STRING \<equiv> ''string''"

type_synonym decoder_register = "decoder_factory untyped"

definition DecoderRegister_Register ::
  "string \<Rightarrow> decoder_factory \<Rightarrow> decoder_register \<Rightarrow> decoder_register" where
  "DecoderRegister_Register name dec r = Untyped_Register name dec r"

text \<open>
  \<open>Get\<close> tries the name, then \<open>json\<close>, then falls back to the JSON factory. The register only ever
  receives decoder factories, so the type assertion of the loop holds for every value it finds.
\<close>

fun first_registered :: "decoder_register \<Rightarrow> string list \<Rightarrow> decoder_factory" where
  "first_registered r [] = NewJSONDecoder"
| "first_registered r (n # ns) =
     (case Untyped_Get r n of Some dec \<Rightarrow> dec | None \<Rightarrow> first_registered r ns)"

definition DecoderRegister_Get :: "decoder_register \<Rightarrow> string \<Rightarrow> decoder_factory" where
  "DecoderRegister_Get r name = first_registered r [name, JSON]"

definition defaultDecoders :: "decoder_factory gmap" where
  "defaultDecoders =
     [(JSON, NewJSONDecoder), (SAFE_JSON, NewSafeJSONDecoder), (STRING, NewStringDecoder),
      (NOOP, noOpDecoderFactory)]"

definition initDecoderRegister :: decoder_register where
  "initDecoderRegister = fold (\<lambda>(k, v) r. DecoderRegister_Register k v r) defaultDecoders NewUntyped"

lemma initDecoderRegister_Get:
  "Untyped_Get initDecoderRegister name = map_of defaultDecoders name"
  by (simp add: initDecoderRegister_def defaultDecoders_def DecoderRegister_Register_def
      Untyped_Get_Register)

lemma initDecoderRegister_cases:
  "DecoderRegister_Get initDecoderRegister name =
     (if name = SAFE_JSON then NewSafeJSONDecoder
      else if name = STRING then NewStringDecoder
      else if name = NOOP then noOpDecoderFactory
      else NewJSONDecoder)"
  by (simp add: DecoderRegister_Get_def initDecoderRegister_Get defaultDecoders_def)

interpretation decoder_reg: kv_register Untyped_Get DecoderRegister_Register
  by unfold_locales (simp add: DecoderRegister_Register_def Untyped_Get_Register)

text \<open>
  Whatever was registered, an unknown name gets the factory registered as \<open>json\<close>.
\<close>

lemma DecoderRegister_Get_unknown:
  "name \<notin> fst ` set kvs \<Longrightarrow> name \<notin> fst ` set defaultDecoders \<Longrightarrow>
   DecoderRegister_Get (decoder_reg.store_all kvs initDecoderRegister) name =
     (case map_of (rev kvs) JSON of Some f \<Rightarrow> f | None \<Rightarrow> NewJSONDecoder)"
  by (simp add: DecoderRegister_Get_def decoder_reg.get_store_all initDecoderRegister_Get
      map_of_eq_None_iff [THEN iffD2] image_Un defaultDecoders_def split: option.split)

text \<open>
  The universal decoder agrees with the strict ones on what they accept, and puts any other value,
  null included, in \<open>content\<close> instead of failing.
\<close>

lemma safe_json_subsumes:
  assumes "unjson r = Inr v"
  shows "v = VObj m \<Longrightarrow>
      decode unjson custom SafeJSONDecoder r = decode unjson custom JSONDecoder r"
    and "v = VArr xs \<Longrightarrow>
      decode unjson custom SafeJSONDecoder r = decode unjson custom JSONCollectionDecoder r"
    and "is_leaf v \<Longrightarrow> as_arr v = None \<Longrightarrow>
      decode unjson custom SafeJSONDecoder r = Inr (Some [(''content'', v)])"
  using assms by (cases v; simp)+

end
