(* ===== verification/Config_Types.thy ===== *)
theory Config_Types
  imports Encoding "HOL-Library.Signed_Division"
begin

text \<open>
  The configuration structs of \<open>config/config.go\<close>, field by field, and the operations on the
  \<open>extra_config\<close> sections. Slices of pointers are lists, nil pointers to optional structs are
  \<^const>\<open>None\<close>. Durations are nanoseconds of an int64; a product that can leave its range is
  wrapped where the code computes it (\<open>i64\<close>).
\<close>

section \<open>Machine integers of the configuration\<close>

definition i64 :: "int \<Rightarrow> int" where
  "i64 x = (x + 2 ^ 63) mod 2 ^ 64 - 2 ^ 63"

lemma i64_id: "- (2 ^ 63) \<le> x \<Longrightarrow> x < 2 ^ 63 \<Longrightarrow> i64 x = x"
  by (simp add: i64_def)

lemma i64_range: "- (2 ^ 63) \<le> i64 x \<and> i64 x < 2 ^ 63"
  by (simp add: i64_def)

abbreviation Second :: int where "Second \<equiv> 1000000000"
abbreviation Millisecond :: int where "Millisecond \<equiv> 1000000"

lemma sdiv_pos: "0 \<le> a \<Longrightarrow> 0 < b \<Longrightarrow> a sdiv b = a div (b :: int)"
  by (cases "a = 0") (simp_all add: signed_divide_int_def sgn_if)

text \<open>\<open>time.Duration(p * t.Nanoseconds() / 100)\<close>, the share of a timeout a middleware takes.\<close>

definition percent :: "int \<Rightarrow> int \<Rightarrow> int" where
  "percent p t = i64 (p * t) sdiv 100"

lemma percent_bounds:
  assumes "0 \<le> p" and "p \<le> 100" and "0 \<le> t" and "100 * t < 2 ^ 63"
  shows "0 \<le> percent p t" and "percent p t \<le> t"
proof -
  have pt: "0 \<le> p * t" "p * t \<le> 100 * t"
    using assms by (simp_all add: mult_right_mono)
  have "- (2 ^ 63) \<le> p * t" and "p * t < 2 ^ 63"
    using pt assms(4) by linarith+
  then have "i64 (p * t) = p * t"
    by (rule i64_id)
  moreover have "(p * t) sdiv 100 = (p * t) div 100"
    using pt(1) by (simp add: sdiv_pos)
  ultimately have eq: "percent p t = (p * t) div 100"
    by (simp add: percent_def)
  show "0 \<le> percent p t" using pt by (simp add: eq pos_imp_zdiv_nonneg_iff)
  show "percent p t \<le> t" using pt by (simp add: eq)
qed

section \<open>Extra configuration\<close>

type_synonym extra_config = "value gmap"

text \<open>
  \<open>sanitize\<close>: every section that is a \<open>map[interface{}]interface{}\<close> becomes a map of strings, its
  keys printed with \<open>%v\<close>; \<open>show_v\<close> is that verb.
\<close>

definition sanitize_section :: "(value \<Rightarrow> string) \<Rightarrow> value \<Rightarrow> value" where
  "sanitize_section show_v extra =
     (case extra of
        VIface kvs \<Rightarrow> VObj (fold (\<lambda>(k, v) m. mput (show_v k) v m) kvs [])
      | _ \<Rightarrow> extra)"

definition sanitize :: "(value \<Rightarrow> string) \<Rightarrow> extra_config \<Rightarrow> extra_config" where
  "sanitize show_v e = map (\<lambda>(module, extra). (module, sanitize_section show_v extra)) e"

lemma sanitize_keys [simp]: "keys (sanitize show_v e) = keys e"
  by (simp add: sanitize_def comp_def split_def)

lemma sanitize_lookup:
  "map_of (sanitize show_v e) k = map_option (sanitize_section show_v) (map_of e k)"
  by (induction e) (auto simp: sanitize_def)

lemma sanitize_section_idem [simp]:
  "sanitize_section show_v (sanitize_section show_v x) = sanitize_section show_v x"
  by (cases x) (simp_all add: sanitize_section_def)

lemma sanitize_idem [simp]: "sanitize show_v (sanitize show_v e) = sanitize show_v e"
  by (simp add: sanitize_def comp_def split_def)

text \<open>
  \<open>Normalize\<close> moves every aliased section to its alias. \<open>aliases\<close> is the package variable
  \<open>ExtraConfigAlias\<close>; the modules are visited in the order of \<open>mods\<close>, the keys at the start.
\<close>

fun normalize_mods :: "string gmap \<Rightarrow> string list \<Rightarrow> extra_config \<Rightarrow> extra_config" where
  "normalize_mods aliases [] e = e"
| "normalize_mods aliases (module # mods) e =
     (case map_of aliases module of
        None \<Rightarrow> normalize_mods aliases mods e
      | Some alias \<Rightarrow>
          (case map_of e module of
             None \<Rightarrow> normalize_mods aliases mods e
           | Some v \<Rightarrow> normalize_mods aliases mods (mdel module (mput alias v e))))"

definition Normalize :: "string gmap \<Rightarrow> extra_config \<Rightarrow> extra_config" where
  "Normalize aliases e = normalize_mods aliases (keys e) e"

section \<open>Structs\<close>

record plugin_cfg =
  pl_Folder :: string
  pl_Pattern :: string

record tls_key_pair =
  kp_PublicKey :: string
  kp_PrivateKey :: string

record tls =
  tls_IsDisabled :: bool
  tls_PublicKey :: string
  tls_PrivateKey :: string
  tls_CaCerts :: "string list"
  tls_MinVersion :: string
  tls_MaxVersion :: string
  tls_CurvePreferences :: "16 word list"
  tls_PreferServerCipherSuites :: bool
  tls_CipherSuites :: "16 word list"
  tls_EnableMTLS :: bool
  tls_DisableSystemCaPool :: bool
  tls_Keys :: "tls_key_pair list"

record client_tls_cert =
  cc_Certificate :: string
  cc_PrivateKey :: string

record client_tls =
  ct_AllowInsecureConnections :: bool
  ct_CaCerts :: "string list"
  ct_DisableSystemCaPool :: bool
  ct_MinVersion :: string
  ct_MaxVersion :: string
  ct_CurvePreferences :: "16 word list"
  ct_CipherSuites :: "16 word list"
  ct_ClientCerts :: "client_tls_cert list"

record backend =
  be_Group :: string
  be_Method :: string
  be_Host :: "string list"
  be_HostSanitizationDisabled :: bool
  be_URLPattern :: string
  be_AllowList :: "string list"
  be_DenyList :: "string list"
  be_Mapping :: "string gmap"
  be_Encoding :: string
  be_IsCollection :: bool
  be_Target :: string
  be_SD :: string
  be_SDScheme :: string
  be_URLKeys :: "string list"
  be_ConcurrentCalls :: int
  be_Timeout :: int
  be_Decoder :: "decoder option"
  be_ExtraConfig :: extra_config
  be_HeadersToPass :: "string list"
  be_QueryStringsToPass :: "string list"
  be_ParentEndpoint :: string
  be_ParentEndpointMethod :: string

record endpoint_config =
  ep_Endpoint :: string
  ep_Method :: string
  ep_Backend :: "backend list"
  ep_ConcurrentCalls :: int
  ep_Timeout :: int
  ep_CacheTTL :: int
  ep_QueryString :: "string list"
  ep_ExtraConfig :: extra_config
  ep_HeadersToPass :: "string list"
  ep_OutputEncoding :: string

record consumer =
  cs_Timeout :: int
  cs_Workers :: int
  cs_Topic :: string
  cs_MaxRate :: "64 word"

record connection =
  cn_MaxRetries :: int
  cn_BackoffStrategy :: string
  cn_HealthInterval :: int

record async_agent =
  aa_Name :: string
  aa_Connection :: connection
  aa_Consumer :: consumer
  aa_Encoding :: string
  aa_Backend :: "backend list"
  aa_ExtraConfig :: extra_config

record service_config =
  sc_Name :: string
  sc_Endpoints :: "endpoint_config list"
  sc_AsyncAgents :: "async_agent list"
  sc_Timeout :: int
  sc_CacheTTL :: int
  sc_Host :: "string list"
  sc_Port :: int
  sc_Address :: string
  sc_Version :: int
  sc_OutputEncoding :: string
  sc_ExtraConfig :: extra_config
  sc_ReadTimeout :: int
  sc_WriteTimeout :: int
  sc_IdleTimeout :: int
  sc_ReadHeaderTimeout :: int
  sc_MaxHeaderBytes :: int
  sc_DisableKeepAlives :: bool
  sc_DisableCompression :: bool
  sc_MaxIdleConns :: int
  sc_MaxIdleConnsPerHost :: int
  sc_IdleConnTimeout :: int
  sc_ResponseHeaderTimeout :: int
  sc_ExpectContinueTimeout :: int
  sc_DialerTimeout :: int
  sc_DialerFallbackDelay :: int
  sc_DialerKeepAlive :: int
  sc_DisableStrictREST :: bool
  sc_Plugin :: "plugin_cfg option"
  sc_TLS :: "tls option"
  sc_UseH2C :: bool
  sc_Debug :: bool
  sc_Echo :: bool
  sc_SequentialStart :: bool
  sc_AllowInsecureConnections :: bool
  sc_ClientTLS :: "client_tls option"
  sc_DNSCacheTTL :: int
  sc_MaxShutdownDuration :: int

text \<open>The zero values, as Go's \<open>Backend{}\<close> and \<open>EndpointConfig{}\<close>.\<close>

definition zero_backend :: backend where
  "zero_backend =
     \<lparr>be_Group = [], be_Method = [], be_Host = [], be_HostSanitizationDisabled = False,
      be_URLPattern = [], be_AllowList = [], be_DenyList = [], be_Mapping = [], be_Encoding = [],
      be_IsCollection = False, be_Target = [], be_SD = [], be_SDScheme = [], be_URLKeys = [],
      be_ConcurrentCalls = 0, be_Timeout = 0, be_Decoder = None, be_ExtraConfig = [],
      be_HeadersToPass = [], be_QueryStringsToPass = [], be_ParentEndpoint = [],
      be_ParentEndpointMethod = []\<rparr>"

definition zero_endpoint :: endpoint_config where
  "zero_endpoint =
     \<lparr>ep_Endpoint = [], ep_Method = [], ep_Backend = [], ep_ConcurrentCalls = 0, ep_Timeout = 0,
      ep_CacheTTL = 0, ep_QueryString = [], ep_ExtraConfig = [], ep_HeadersToPass = [],
      ep_OutputEncoding = []\<rparr>"

text \<open>The timeout of an endpoint that sets none.\<close>

abbreviation DefaultTimeout :: int where "DefaultTimeout \<equiv> 2 * Second"

text \<open>\<open>proxy.Namespace\<close>, and the section stored under a namespace when it is a map.\<close>

abbreviation proxy_Namespace :: string where
  "proxy_Namespace \<equiv> ''github.com/devopsfaith/krakend/proxy''"

definition section_of :: "extra_config \<Rightarrow> string \<Rightarrow> value gmap option" where
  "section_of cfg ns = obind (map_of cfg ns) as_obj"

lemma section_of_Some:
  "section_of cfg ns = Some e \<longleftrightarrow> map_of cfg ns = Some (VObj e)"
  by (auto simp: section_of_def obind_eq_Some)

text \<open>Moving the configuration through \<open>Normalize\<close>, endpoint by endpoint and agent by agent.\<close>

definition norm_backend :: "string gmap \<Rightarrow> backend \<Rightarrow> backend" where
  "norm_backend al b = b\<lparr>be_ExtraConfig := Normalize al (be_ExtraConfig b)\<rparr>"

definition ServiceConfig_Normalize :: "string gmap \<Rightarrow> service_config \<Rightarrow> service_config" where
  "ServiceConfig_Normalize al s =
     s\<lparr>sc_ExtraConfig := Normalize al (sc_ExtraConfig s),
       sc_Endpoints := map (\<lambda>e. e\<lparr>ep_ExtraConfig := Normalize al (ep_ExtraConfig e),
         ep_Backend := map (norm_backend al) (ep_Backend e)\<rparr>) (sc_Endpoints s),
       sc_AsyncAgents := map (\<lambda>a. a\<lparr>aa_ExtraConfig := Normalize al (aa_ExtraConfig a),
         aa_Backend := map (norm_backend al) (aa_Backend a)\<rparr>) (sc_AsyncAgents s)\<rparr>"

end
