(* ===== verification/Go_Regexp.thy ===== *)
theory Go_Regexp
  imports Go_Values
begin

text \<open>
  The part of Go's package \<open>regexp\<close> the code uses: literals, character classes, greedy repetition
  of a class, groups, options, alternatives and the anchors, with the leftmost-first match of Go (the first
  alternative in the order of preference, as in Perl) and its submatches. \<open>re_run\<close> lists all the
  matches at one position in that order; the first one is the match.
\<close>

section \<open>Expressions and matching\<close>

datatype re =
    RClass "char \<Rightarrow> bool"
  | RStar "char \<Rightarrow> bool"
  | REmpty
  | REnd
  | RSeq re re
  | ROpt re
  | RAlt re re
  | RCap re

definition RLit :: "string \<Rightarrow> re" where
  "RLit s = foldr (\<lambda>c r. RSeq (RClass (\<lambda>d. d = c)) r) s REmpty"

definition RPlus :: "(char \<Rightarrow> bool) \<Rightarrow> re" where
  "RPlus P = RSeq (RClass P) (RStar P)"

fun re_groups :: "re \<Rightarrow> nat" where
  "re_groups (RSeq a b) = re_groups a + re_groups b"
| "re_groups (ROpt a) = re_groups a"
| "re_groups (RAlt a b) = re_groups a + re_groups b"
| "re_groups (RCap a) = Suc (re_groups a)"
| "re_groups _ = 0"

text \<open>
  A match is the text matched, the submatches in the order of their opening parentheses (empty for
  a group that took no part) and the rest of the input.
\<close>

type_synonym re_match = "string \<times> string list \<times> string"

fun star_splits :: "(char \<Rightarrow> bool) \<Rightarrow> string \<Rightarrow> (string \<times> string) list" where
  "star_splits P [] = [([], [])]"
| "star_splits P (c # cs) =
     (if P c then map (\<lambda>(x, r). (c # x, r)) (star_splits P cs) @ [([], c # cs)] else [([], c # cs)])"

fun re_run :: "re \<Rightarrow> string \<Rightarrow> re_match list" where
  "re_run (RClass P) s = (case s of [] \<Rightarrow> [] | c # cs \<Rightarrow> if P c then [([c], [], cs)] else [])"
| "re_run (RStar P) s = map (\<lambda>(x, r). (x, [], r)) (star_splits P s)"
| "re_run REmpty s = [([], [], s)]"
| "re_run REnd s = (if s = [] then [([], [], [])] else [])"
| "re_run (RSeq a b) s =
     concat (map (\<lambda>(x, c, r). map (\<lambda>(y, d, r'). (x @ y, c @ d, r')) (re_run b r)) (re_run a s))"
| "re_run (ROpt a) s = re_run a s @ [([], replicate (re_groups a) [], s)]"
| "re_run (RAlt a b) s =
     map (\<lambda>(x, c, r). (x, c @ replicate (re_groups b) [], r)) (re_run a s) @
     map (\<lambda>(x, c, r). (x, replicate (re_groups a) [] @ c, r)) (re_run b s)"
| "re_run (RCap a) s = map (\<lambda>(x, c, r). (x, x # c, r)) (re_run a s)"

definition re_match_at :: "re \<Rightarrow> string \<Rightarrow> re_match option" where
  "re_match_at e s = (case re_run e s of [] \<Rightarrow> None | m # _ \<Rightarrow> Some m)"

text \<open>\<open>MatchString\<close> of an expression that starts with the anchor for the start of the text.\<close>

definition re_matches_start :: "re \<Rightarrow> string \<Rightarrow> bool" where
  "re_matches_start e s \<longleftrightarrow> re_run e s \<noteq> []"

text \<open>\<open>MatchString\<close> of an expression without that anchor: it may match anywhere.\<close>

fun re_search :: "re \<Rightarrow> string \<Rightarrow> bool" where
  "re_search e s = (re_run e s \<noteq> [] \<or> (case s of [] \<Rightarrow> False | c # cs \<Rightarrow> re_search e cs))"

text \<open>
  \<open>FindAllStringSubmatch(s, -1)\<close>: successive non-overlapping matches, each as the whole match
  followed by the submatches. The expressions of the code never match the empty text.
\<close>

function find_all :: "re \<Rightarrow> string \<Rightarrow> string list list" where
  "find_all e [] = []"
| "find_all e (c # cs) =
     (case re_match_at e (c # cs) of
        Some (x, caps, r) \<Rightarrow>
          if length r < length (c # cs) then (x # caps) # find_all e r else find_all e cs
      | None \<Rightarrow> find_all e cs)"
  by pat_completeness auto
termination
  by (relation "measure (\<lambda>(e, s). length s)") auto

text \<open>\<open>FindStringSubmatchIndex\<close> and friends reduce to the first of these matches.\<close>

section \<open>Lemmas\<close>

lemma re_run_parts: "(x, c, r) \<in> set (re_run e s) \<Longrightarrow> s = x @ r \<and> length c = re_groups e"
proof (induction e arbitrary: x c r s)
  case (RClass P)
  then show ?case by (auto split: list.splits if_splits)
next
  case (RStar P)
  have "(x, r) \<in> set (star_splits P s) \<Longrightarrow> s = x @ r"
    by (induction s arbitrary: x) (auto split: if_splits)
  with RStar show ?case by auto
next
  case (RSeq a b)
  then show ?case by fastforce
qed (auto split: if_splits)

lemma star_splits_span:
  assumes "\<forall>c \<in> set x. P c" and "\<forall>c. r \<noteq> [] \<longrightarrow> hd r = c \<longrightarrow> \<not> P c"
  shows "\<exists>more. star_splits P (x @ r) = (x, r) # more"
  using assms
proof (induction x)
  case Nil
  then show ?case by (cases r) auto
next
  case (Cons c x)
  then show ?case by auto
qed

lemma re_run_RLit: "re_run (RLit l) s = (if prefix l s then [(l, [], drop (length l) s)] else [])"
proof (induction l arbitrary: s)
  case Nil
  then show ?case by (simp add: RLit_def)
next
  case (Cons c l)
  then show ?case by (cases s) (auto simp: RLit_def)
qed

lemma re_groups_RLit [simp]: "re_groups (RLit l) = 0"
  by (induction l) (simp_all add: RLit_def)

text \<open>Expressions that must start with a given character find nothing in a text without it.\<close>

lemma find_all_skip:
  assumes "\<And>d ds. P d \<Longrightarrow> re_match_at e (d # ds) = None" and "\<forall>c \<in> set x. P c"
  shows "find_all e (x @ s) = find_all e s"
  using assms(2)
proof (induction x)
  case Nil
  then show ?case by simp
next
  case (Cons c x)
  then show ?case by (simp add: assms(1))
qed

lemma find_all_hit:
  assumes "re_match_at e (x @ r) = Some (x, caps, r)" and "x \<noteq> []"
  shows "find_all e (x @ r) = (x # caps) # find_all e r"
  using assms by (cases x) auto

text \<open>The first match of an expression, composed from the first matches of its parts.\<close>

definition first_match :: "re \<Rightarrow> string \<Rightarrow> re_match \<Rightarrow> bool" where
  "first_match e s m \<longleftrightarrow> (\<exists>more. re_run e s = m # more)"

lemma first_match_at: "first_match e s m \<Longrightarrow> re_match_at e s = Some m"
  by (auto simp: first_match_def re_match_at_def)

lemma first_seq:
  "first_match a s (x, c, r) \<Longrightarrow> first_match b r (y, d, r') \<Longrightarrow>
   first_match (RSeq a b) s (x @ y, c @ d, r')"
  by (auto simp: first_match_def)

lemma first_lit: "first_match (RLit l) (l @ s) (l, [], s)"
  by (simp add: first_match_def re_run_RLit)

lemma first_cap: "first_match a s (x, c, r) \<Longrightarrow> first_match (RCap a) s (x, x # c, r)"
  by (auto simp: first_match_def)

lemma first_opt: "first_match a s m \<Longrightarrow> first_match (ROpt a) s m"
  by (auto simp: first_match_def)

lemma first_opt_none:
  "re_run a s = [] \<Longrightarrow> first_match (ROpt a) s ([], replicate (re_groups a) [], s)"
  by (simp add: first_match_def)

lemma first_class: "P c \<Longrightarrow> first_match (RClass P) (c # s) ([c], [], s)"
  by (simp add: first_match_def)

lemma first_plus:
  assumes "x \<noteq> []" and "\<forall>c \<in> set x. P c" and "\<forall>c cs. r = c # cs \<longrightarrow> \<not> P c"
  shows "first_match (RPlus P) (x @ r) (x, [], r)"
proof -
  obtain c x' where x: "x = c # x'" using assms(1) by (cases x) auto
  have "\<exists>more. star_splits P (x' @ r) = (x', r) # more"
    using assms(2,3) x by (intro star_splits_span) (cases r; auto)+
  then show ?thesis using assms(2) x by (auto simp: first_match_def RPlus_def)
qed

lemma no_match_lit: "\<not> prefix l s \<Longrightarrow> re_match_at (RSeq (RLit l) b) s = None"
  by (simp add: re_match_at_def re_run_RLit)

text \<open>What the matches of a composed expression are made of.\<close>

lemma run_seqE:
  assumes "(x, c, r) \<in> set (re_run (RSeq a b) s)"
  obtains x1 c1 r1 x2 c2 where "x = x1 @ x2" "c = c1 @ c2" "(x1, c1, r1) \<in> set (re_run a s)"
    "(x2, c2, r) \<in> set (re_run b r1)"
  using assms by auto

lemma run_optE:
  assumes "(x, c, r) \<in> set (re_run (ROpt a) s)"
  obtains "(x, c, r) \<in> set (re_run a s)" | "x = []" "c = replicate (re_groups a) []" "r = s"
  using assms by auto

lemma run_capE:
  assumes "(x, c, r) \<in> set (re_run (RCap a) s)"
  obtains c' where "(x, c', r) \<in> set (re_run a s)" "c = x # c'"
  using assms by auto

lemma run_classE:
  assumes "(x, c, r) \<in> set (re_run (RClass P) s)"
  obtains d where "x = [d]" "c = []" "P d" "s = d # r"
  using assms by (auto split: list.splits if_splits)

lemma star_splits_set: "(x, r) \<in> set (star_splits P s) \<Longrightarrow> \<forall>c \<in> set x. P c"
proof (induction s arbitrary: x)
  case (Cons d s)
  then show ?case by (cases x) (force split: if_splits)+
qed simp

lemma run_plus:
  assumes "(x, c, r) \<in> set (re_run (RPlus P) s)"
  shows "x \<noteq> [] \<and> c = [] \<and> (\<forall>d \<in> set x. P d)"
  using assms unfolding RPlus_def
  by (elim run_seqE run_classE) (auto dest: star_splits_set)

lemma run_lit: "(x, c, r) \<in> set (re_run (RLit l) s) \<Longrightarrow> x = l \<and> c = []"
  by (auto simp: re_run_RLit split: if_splits)

lemma find_all_set:
  "m \<in> set (find_all e s) \<Longrightarrow> \<exists>x c r s'. m = x # c \<and> (x, c, r) \<in> set (re_run e s')"
proof (induction e s rule: find_all.induct)
  case (2 e c cs)
  show ?case
  proof (cases "re_match_at e (c # cs)")
    case None
    then show ?thesis using 2 by simp
  next
    case (Some xcr)
    obtain x ca r where xcr: "xcr = (x, ca, r)" by (cases xcr)
    then have hit: "(x, ca, r) \<in> set (re_run e (c # cs))"
      using Some by (auto simp: re_match_at_def split: list.splits)
    show ?thesis
    proof (cases "length r < length (c # cs)")
      case True
      then have "m = x # ca \<or> m \<in> set (find_all e r)" using "2.prems" Some xcr by simp
      then show ?thesis using hit "2.IH" Some xcr True by blast
    next
      case False
      then show ?thesis using "2.IH" "2.prems" Some xcr by simp
    qed
  qed
qed simp

end
