(* ===== verification/Config_URI.thy ===== *)
theory Config_URI
  imports Config_Types Go_Regexp
begin

text \<open>
  \<open>config/uri.go\<close>: the cleaning of hosts and paths and the conversion of endpoint paths to the
  router's syntax, with the regular expressions of the package as terms of \<^typ>\<open>re\<close>.
\<close>

section \<open>Expressions\<close>

definition is_alpha :: "char \<Rightarrow> bool" where
  "is_alpha c \<longleftrightarrow> is_lower c \<or> is_upper c"

text \<open>\<open>/\{([a-zA-Z\-_0-9]+)\}\<close> and \<open>\{([\w\-\.:/]+)\}\<close>.\<close>

definition is_endpoint_key_char :: "char \<Rightarrow> bool" where
  "is_endpoint_key_char c \<longleftrightarrow> is_alpha c \<or> is_digit c \<or> c \<in> set ''-_''"

definition endpointURLKeysPattern :: re where
  "endpointURLKeysPattern =
     RSeq (RLit ''/{'') (RSeq (RCap (RPlus is_endpoint_key_char)) (RLit ''}''))"

definition is_url_key_char :: "char \<Rightarrow> bool" where
  "is_url_key_char c \<longleftrightarrow> is_alpha c \<or> is_digit c \<or> c \<in> set ''_-.:/''"

definition simpleURLKeysPattern :: re where
  "simpleURLKeysPattern =
     RSeq (RLit ''{'') (RSeq (RCap (RPlus is_url_key_char)) (RLit ''}''))"

text \<open>\<open>(https?://)?([a-zA-Z0-9\._\-]+)(:[0-9]{2,6})?/?\<close>\<close>

definition is_host_char :: "char \<Rightarrow> bool" where
  "is_host_char c \<longleftrightarrow> is_alpha c \<or> is_digit c \<or> c \<in> set ''._-''"

definition scheme_pattern :: re where
  "scheme_pattern = RSeq (RLit ''http'') (RSeq (ROpt (RLit ''s'')) (RLit ''://''))"

fun digits_upto :: "nat \<Rightarrow> re" where
  "digits_upto 0 = REmpty"
| "digits_upto (Suc n) = ROpt (RSeq (RClass is_digit) (digits_upto n))"

definition port_pattern :: re where
  "port_pattern =
     RSeq (RLit '':'') (RSeq (RClass is_digit) (RSeq (RClass is_digit) (digits_upto 4)))"

definition hostPattern :: re where
  "hostPattern =
     RSeq (ROpt (RCap scheme_pattern))
       (RSeq (RCap (RPlus is_host_char)) (RSeq (ROpt (RCap port_pattern)) (ROpt (RLit ''/''))))"

section \<open>Operations\<close>

definition errInvalidHost :: go_err where
  "errInvalidHost = EOther ''invalid host''"

definition SafeCleanHost :: "string \<Rightarrow> go_err + string" where
  "SafeCleanHost host =
     (case find_all hostPattern host of
        [m] \<Rightarrow>
          (let ks = tl m in
           Inr (join [] (if hd ks = [] then ''http://'' # tl ks else ks)))
      | _ \<Rightarrow> Inl errInvalidHost)"

definition invalid_host_err :: "string \<Rightarrow> go_err" where
  "invalid_host_err h = EOther (''host '' @ h @ '' not valid: invalid host'')"

fun SafeCleanHosts :: "string list \<Rightarrow> go_err + string list" where
  "SafeCleanHosts [] = Inr []"
| "SafeCleanHosts (h # hs) =
     (case SafeCleanHost h of
        Inl _ \<Rightarrow> Inl (invalid_host_err h)
      | Inr c \<Rightarrow> (case SafeCleanHosts hs of Inl e \<Rightarrow> Inl e | Inr cs \<Rightarrow> Inr (c # cs)))"

text \<open>\<open>CleanHosts\<close> and \<open>CleanHost\<close> panic instead: \<^const>\<open>None\<close>.\<close>

definition CleanHosts :: "string list \<Rightarrow> string list option" where
  "CleanHosts hosts = (case SafeCleanHosts hosts of Inl _ \<Rightarrow> None | Inr hs \<Rightarrow> Some hs)"

definition CleanHost :: "string \<Rightarrow> string option" where
  "CleanHost host = (case SafeCleanHost host of Inl _ \<Rightarrow> None | Inr h \<Rightarrow> Some h)"

definition CleanPath :: "string \<Rightarrow> string" where
  "CleanPath path = ''/'' @ trim_prefix path ''/''"

text \<open>The routing patterns: \<open>BracketsRouterPatternBuilder\<close> is 0, \<open>ColonRouterPatternBuilder\<close> 1.\<close>

datatype routing = BracketsRouterPatternBuilder | ColonRouterPatternBuilder

fun colon_param :: "string \<Rightarrow> string \<Rightarrow> string" where
  "colon_param p result =
     (let parts = split_on CHR ''?'' result in
      join ''?'' (replace_all (''{'' @ p @ ''}'') ('':'' @ p) (hd parts) # tl parts))"

definition GetEndpointPath :: "routing \<Rightarrow> string \<Rightarrow> string list \<Rightarrow> string" where
  "GetEndpointPath u path params =
     (if u = ColonRouterPatternBuilder then fold colon_param params path else path)"

section \<open>Clean hosts\<close>

text \<open>The shape of a clean host: a scheme, a name and possibly a port of two to six digits.\<close>

definition port_ok :: "string \<Rightarrow> bool" where
  "port_ok p \<longleftrightarrow> p = [] \<or>
     (\<exists>d. p = CHR '':'' # d \<and> (\<forall>c \<in> set d. is_digit c) \<and> 2 \<le> length d \<and> length d \<le> 6)"

definition clean_host :: "string \<Rightarrow> bool" where
  "clean_host h \<longleftrightarrow> (\<exists>s n p. h = s @ n @ p \<and> s \<in> {''http://'', ''https://''} \<and>
     n \<noteq> [] \<and> (\<forall>c \<in> set n. is_host_char c) \<and> port_ok p)"

lemma run_digits_upto:
  "(x, c, r) \<in> set (re_run (digits_upto n) s) \<Longrightarrow>
     length x \<le> n \<and> c = [] \<and> (\<forall>d \<in> set x. is_digit d)"
proof (induction n arbitrary: x c r s)
  case 0
  then show ?case by simp
next
  case (Suc n)
  from Suc.prems show ?case
    unfolding digits_upto.simps
  proof (elim run_optE run_seqE run_classE)
    fix x1 c1 r1 x2 c2 d
    assume "(x2, c2, r) \<in> set (re_run (digits_upto n) r1)"
      and "x = x1 @ x2" "c = c1 @ c2" "x1 = [d]" "c1 = []" "is_digit d"
    with Suc.IH show ?thesis by fastforce
  next
    assume "x = []" "c = replicate (re_groups (RSeq (RClass is_digit) (digits_upto n))) []"
    moreover have "re_groups (digits_upto n) = 0" by (induction n) auto
    ultimately show ?thesis by simp
  qed
qed

lemma groups_digits_upto [simp]: "re_groups (digits_upto n) = 0"
  by (induction n) auto

lemma run_scheme:
  assumes "(x, c, r) \<in> set (re_run scheme_pattern s)"
  shows "x \<in> {''http://'', ''https://''} \<and> c = []"
  using assms unfolding scheme_pattern_def
  by (elim run_seqE run_optE) (auto dest!: run_lit)

lemma run_port:
  assumes "(x, c, r) \<in> set (re_run port_pattern s)"
  shows "port_ok x \<and> c = []"
  using assms unfolding port_pattern_def
  by (elim run_seqE run_classE) (auto dest!: run_lit run_digits_upto simp: port_ok_def)

lemma groups_scheme [simp]: "re_groups scheme_pattern = 0"
  by (simp add: scheme_pattern_def)

lemma groups_port [simp]: "re_groups port_pattern = 0"
  by (simp add: port_pattern_def)

lemma run_opt_cap:
  assumes "(x, c, r) \<in> set (re_run (ROpt (RCap e)) s)" and "re_groups e = 0"
  shows "\<exists>k. c = [k] \<and> (k = [] \<or> (k, [], r) \<in> set (re_run e s))"
  using assms(1)
proof (elim run_optE run_capE)
  fix c'
  assume "(x, c', r) \<in> set (re_run e s)" and "c = x # c'"
  moreover from this re_run_parts have "c' = []" using assms(2) by fastforce
  ultimately show ?thesis by simp
qed (simp add: assms(2))

lemma run_host:
  assumes "(x, c, r) \<in> set (re_run hostPattern s)"
  shows "\<exists>k n p. c = [k, n, p] \<and> k \<in> {[], ''http://'', ''https://''} \<and> n \<noteq> [] \<and>
    (\<forall>d \<in> set n. is_host_char d) \<and> port_ok p"
  using assms unfolding hostPattern_def
proof (elim run_seqE)
  fix x1 c1 r1 x2 c2 x1a c1a r1a x2a c2a x1b c1b r1b x2b c2b
  assume c: "c = c1 @ c2" "c2 = c1a @ c2a" "c2a = c1b @ c2b"
    and m1: "(x1, c1, r1) \<in> set (re_run (ROpt (RCap scheme_pattern)) s)"
    and m2: "(x1a, c1a, r1a) \<in> set (re_run (RCap (RPlus is_host_char)) r1)"
    and m3: "(x1b, c1b, r1b) \<in> set (re_run (ROpt (RCap port_pattern)) r1a)"
    and m4: "(x2b, c2b, r) \<in> set (re_run (ROpt (RLit ''/'')) r1b)"
  obtain k where k: "c1 = [k]" "k \<in> {[], ''http://'', ''https://''}"
    using run_opt_cap [OF m1] run_scheme by fastforce
  obtain n where n: "c1a = [n]" "n \<noteq> []" "\<forall>d \<in> set n. is_host_char d"
    using m2 by (elim run_capE) (auto dest: run_plus)
  obtain p where p: "c1b = [p]" "port_ok p"
    using run_opt_cap [OF m3] run_port by (auto simp: port_ok_def)
  have "c2b = []" using m4 by (elim run_optE) (auto dest: run_lit)
  with c k n p show ?thesis by auto
qed

lemma SafeCleanHost_clean:
  assumes "SafeCleanHost host = Inr h"
  shows "clean_host h"
proof -
  obtain m where m: "find_all hostPattern host = [m]"
    and h: "h = join [] (if hd (tl m) = [] then ''http://'' # tl (tl m) else tl m)"
    using assms by (auto simp: SafeCleanHost_def Let_def split: list.splits if_splits)
  from m obtain x c r s' where "m = x # c" "(x, c, r) \<in> set (re_run hostPattern s')"
    using find_all_set [of m hostPattern host] by auto
  with run_host obtain k n p where "tl m = [k, n, p]" "k \<in> {[], ''http://'', ''https://''}"
    "n \<noteq> []" "\<forall>d \<in> set n. is_host_char d" "port_ok p"
    by (metis list.sel(3))
  then show ?thesis
    unfolding clean_host_def h by (intro exI [of _ "if k = [] then ''http://'' else k"] exI) auto
qed

text \<open>The first match of each part on a clean host takes the whole part.\<close>

lemma first_scheme:
  assumes "k \<in> {''http://'', ''https://''}"
  shows "first_match scheme_pattern (k @ s) (k, [], s)"
proof -
  have lit: "first_match (RLit ''://'') (''://'' @ s) (''://'', [], s)" by (rule first_lit)
  have sec: "first_match (ROpt (RLit ''s'')) (''s'' @ ''://'' @ s) (''s'', [], ''://'' @ s)"
    by (rule first_opt [OF first_lit])
  have plain: "first_match (ROpt (RLit ''s'')) (''://'' @ s) ([], [], ''://'' @ s)"
    using first_opt_none [of "RLit ''s''" "''://'' @ s"] by (simp add: re_run_RLit)
  have "first_match scheme_pattern (''http'' @ ''s'' @ ''://'' @ s) (''http'' @ ''s'' @ ''://'', [] @ [] @ [], s)"
    unfolding scheme_pattern_def by (rule first_seq [OF first_lit first_seq [OF sec lit]])
  moreover have "first_match scheme_pattern (''http'' @ ''://'' @ s) (''http'' @ [] @ ''://'', [] @ [] @ [], s)"
    unfolding scheme_pattern_def by (rule first_seq [OF first_lit first_seq [OF plain lit]])
  ultimately show ?thesis using assms by auto
qed

lemma first_digits_upto:
  assumes "\<forall>c \<in> set d. is_digit c" and "length d \<le> n"
  shows "first_match (digits_upto n) d (d, [], [])"
  using assms
proof (induction n arbitrary: d)
  case 0
  then show ?case by (simp add: first_match_def)
next
  case (Suc n)
  show ?case
  proof (cases d)
    case Nil
    then show ?thesis
      using first_opt_none [of "RSeq (RClass is_digit) (digits_upto n)" "[]"] by simp
  next
    case (Cons c d')
    then have "first_match (RSeq (RClass is_digit) (digits_upto n)) d ([c] @ d', [] @ [], [])"
      using Suc by (intro first_seq [OF _ Suc.IH]) (auto intro: first_class)
    then show ?thesis using Cons by (auto intro: first_opt)
  qed
qed

lemma first_port:
  assumes "port_ok p"
  shows "first_match (ROpt (RCap port_pattern)) p (p, [p], [])"
proof (cases p)
  case Nil
  have "re_run port_pattern [] = []" by (simp add: port_pattern_def re_run_RLit)
  with Nil show ?thesis using first_opt_none [of "RCap port_pattern" "[]"] by simp
next
  case (Cons c d)
  with assms obtain a b e where p: "p = '':'' @ [a] @ [b] @ e" and d: "is_digit a" "is_digit b"
      "\<forall>c \<in> set e. is_digit c" "length e \<le> 4"
    unfolding port_ok_def by (cases d; cases "tl d") auto
  have "first_match port_pattern ('':'' @ a # b # e) ('':'' @ [a] @ [b] @ e, [] @ [] @ [] @ [], [])"
    unfolding port_pattern_def
    by (rule first_seq [OF first_lit first_seq [OF first_class first_seq [OF first_class]]])
      (use d in \<open>auto intro: first_digits_upto\<close>)
  then show ?thesis using p by (auto intro: first_opt first_cap)
qed

lemma first_host:
  assumes "k \<in> {''http://'', ''https://''}" and "n \<noteq> []" and "\<forall>c \<in> set n. is_host_char c"
    and "port_ok p"
  shows "first_match hostPattern (k @ n @ p) (k @ n @ p, [k, n, p], [])"
proof -
  have "\<forall>c cs. p = c # cs \<longrightarrow> \<not> is_host_char c"
    using assms(4) by (auto simp: port_ok_def is_host_char_def is_alpha_def is_lower_def
        is_upper_def is_digit_def)
  then have n: "first_match (RCap (RPlus is_host_char)) (n @ p) (n, [n], p)"
    using assms(2,3) by (intro first_cap first_plus)
  have slash: "first_match (ROpt (RLit ''/'')) [] ([], [], [])"
    using first_opt_none [of "RLit ''/''" "[]"] by (simp add: re_run_RLit)
  have k: "first_match (ROpt (RCap scheme_pattern)) (k @ n @ p) (k, [k], n @ p)"
    by (rule first_opt [OF first_cap [OF first_scheme [OF assms(1)]]])
  show ?thesis
    unfolding hostPattern_def
    using first_seq [OF k first_seq [OF n first_seq [OF first_port [OF assms(4)] slash]]] by simp
qed

lemma clean_host_fixed:
  assumes "clean_host h"
  shows "SafeCleanHost h = Inr h"
proof -
  from assms obtain k n p where h: "h = k @ n @ p" and k: "k \<in> {''http://'', ''https://''}"
      and n: "n \<noteq> []" "\<forall>c \<in> set n. is_host_char c" and p: "port_ok p"
    by (auto simp: clean_host_def)
  have "re_match_at hostPattern h = Some (h, [k, n, p], [])"
    unfolding h by (rule first_match_at [OF first_host [OF k n p]])
  then have "find_all hostPattern (h @ []) = (h # [k, n, p]) # find_all hostPattern []"
    using n(1) by (intro find_all_hit) (simp_all add: h)
  then show ?thesis using k h by (auto simp: SafeCleanHost_def)
qed

text \<open>
  C29. Cleaning a host gives a clean one (a scheme, a name of host characters, a port of two to six
  digits or none) whatever the input, and changes exactly the inputs that are not clean already;
  cleaning twice is cleaning once.
\<close>

theorem SafeCleanHost_normal_form:
  "(SafeCleanHost host = Inr host \<longleftrightarrow> clean_host host) \<and>
   (case SafeCleanHost host of
      Inl e \<Rightarrow> e = errInvalidHost
    | Inr h \<Rightarrow> clean_host h \<and> SafeCleanHost h = Inr h)"
proof -
  have "SafeCleanHost host = Inl e \<Longrightarrow> e = errInvalidHost" for e
    by (auto simp: SafeCleanHost_def Let_def split: list.splits if_splits)
  then show ?thesis
    using SafeCleanHost_clean clean_host_fixed by (auto split: sum.split)
qed

text \<open>
  What the single match leaves out is dropped without an error: the brackets of an IPv6 literal
  and the colons in them are not part of any name.
\<close>

lemma ipv6_host_becomes_a_name:
  "SafeCleanHost ''[::1]'' = Inr ''http://1''" "SafeCleanHost ''http://'' = Inr ''http://http''"
  by code_simp+

lemma SafeCleanHosts_clean:
  "SafeCleanHosts hosts = Inr hs \<Longrightarrow> (\<forall>h \<in> set hs. clean_host h) \<and> length hs = length hosts"
  by (induction hosts arbitrary: hs) (auto split: sum.splits dest: SafeCleanHost_clean)

text \<open>The comment of \<open>CleanPath\<close> says it trims all the extra slashes: it trims one.\<close>

lemma CleanPath_trims_one: "CleanPath ''//a'' = ''//a''"
  by code_simp

lemma CleanPath_idem: "CleanPath (CleanPath path) = CleanPath path"
  by (simp add: CleanPath_def trim_prefix_def)

end
