(* ===== verification/Proxy_Request.thy ===== *)
theory Proxy_Request
  imports Config_Types
begin

text \<open>
  \<open>proxy/request.go\<close>: the path a request gets from a URL pattern and its parameters, and the two
  ways of cloning a request. Cloning is about which maps and readers two requests share, so it is
  modelled over a store of addresses (\<open>reqmem\<close>); a request in memory is a \<open>reqref\<close>.
\<close>

section \<open>GeneratePath\<close>

definition placeholder :: "string \<Rightarrow> string" where
  "placeholder k = ''{{.'' @ k @ ''}}''"

definition GeneratePath :: "string \<Rightarrow> request \<Rightarrow> request" where
  "GeneratePath URLPattern r =
     (if rq_Params r = [] then r\<lparr>rq_Path := URLPattern\<rparr>
      else r\<lparr>rq_Path :=
        fold (\<lambda>(k, v) buff. replace_all (placeholder k) v buff) (rq_Params r) URLPattern\<rparr>)"

text \<open>A pattern in pieces: text without an opening brace, and the holes for parameters.\<close>

datatype path_piece = Lit string | Hole string

fun path_text :: "path_piece \<Rightarrow> string" where
  "path_text (Lit t) = t"
| "path_text (Hole n) = placeholder n"

definition brace_free :: "string \<Rightarrow> bool" where
  "brace_free s \<longleftrightarrow> CHR ''{'' \<notin> set s \<and> CHR ''}'' \<notin> set s"

fun path_piece_ok :: "path_piece \<Rightarrow> bool" where
  "path_piece_ok (Lit t) = (CHR ''{'' \<notin> set t)"
| "path_piece_ok (Hole n) = brace_free n"

fun fill :: "string gmap \<Rightarrow> path_piece \<Rightarrow> path_piece" where
  "fill ps (Lit t) = Lit t"
| "fill ps (Hole n) = (case map_of ps n of None \<Rightarrow> Hole n | Some v \<Rightarrow> Lit v)"

lemma placeholder_ne [simp]: "placeholder k \<noteq> []"
  by (simp add: placeholder_def)

lemma replace_all_skip:
  "CHR ''{'' \<notin> set x \<Longrightarrow> replace_all (placeholder k) v (x @ s) = x @ replace_all (placeholder k) v s"
  by (induction x) (auto simp: placeholder_def)

lemma replace_all_hit:
  "replace_all (placeholder k) v (placeholder k @ s) = v @ replace_all (placeholder k) v s"
  by (simp add: placeholder_def)

lemma prefix_upto_brace:
  "CHR ''}'' \<notin> set k \<Longrightarrow> CHR ''}'' \<notin> set n \<Longrightarrow> prefix (k @ ''}}'') (n @ ''}}'' @ s) \<Longrightarrow> k = n"
proof (induction k arbitrary: n)
  case Nil
  then show ?case by (cases n) auto
next
  case (Cons c k)
  then show ?case by (cases n) auto
qed

lemma replace_all_other:
  assumes "brace_free k" and "brace_free n" and "n \<noteq> k"
  shows "replace_all (placeholder k) v (placeholder n @ s) =
    placeholder n @ replace_all (placeholder k) v s"
proof -
  have "\<not> prefix (placeholder k) (placeholder n @ s)"
    using assms prefix_upto_brace [of k n s] by (auto simp: placeholder_def brace_free_def)
  moreover have "\<not> prefix (placeholder k) (tl (placeholder n) @ s)"
    by (simp add: placeholder_def)
  ultimately have "replace_all (placeholder k) v (placeholder n @ s) =
      ''{{'' @ replace_all (placeholder k) v ((''.'' @ n @ ''}}'') @ s)"
    by (simp add: placeholder_def)
  also have "\<dots> = placeholder n @ replace_all (placeholder k) v s"
    using assms(2) by (subst replace_all_skip) (auto simp: placeholder_def brace_free_def)
  finally show ?thesis .
qed

lemma replace_all_pieces:
  assumes "brace_free k" and "\<forall>p \<in> set ps. path_piece_ok p"
  shows "replace_all (placeholder k) v (concat (map path_text ps)) =
    concat (map (path_text \<circ> fill [(k, v)]) ps)"
  using assms(2)
proof (induction ps)
  case Nil
  then show ?case by simp
next
  case (Cons p ps)
  then show ?case
    using assms(1) by (cases p) (auto simp: replace_all_skip replace_all_hit replace_all_other)
qed

lemma rewrite_path:
  assumes "\<forall>p \<in> set ps. path_piece_ok p" and "distinct (keys (rq_Params r))"
    and "\<forall>kv \<in> set (rq_Params r). brace_free (fst kv) \<and> CHR ''{'' \<notin> set (snd kv)"
  shows "rq_Path (GeneratePath (concat (map path_text ps)) r) =
    concat (map (path_text \<circ> fill (rq_Params r)) ps)"
proof -
  have "fold (\<lambda>(k, v) buff. replace_all (placeholder k) v buff) params (concat (map path_text ps)) =
      concat (map (path_text \<circ> fill params) ps)"
    if "\<forall>p \<in> set ps. path_piece_ok p" "distinct (keys params)"
      "\<forall>kv \<in> set params. brace_free (fst kv) \<and> CHR ''{'' \<notin> set (snd kv)" for params ps
    using that
  proof (induction params arbitrary: ps)
    case Nil
    have "fill [] p = p" for p by (cases p) simp_all
    then show ?case by (simp add: comp_def)
  next
    case (Cons kv params)
    obtain k v where kv: "kv = (k, v)" by (cases kv)
    have ok: "\<forall>p \<in> set (map (fill [(k, v)]) ps). path_piece_ok p"
    proof
      fix q
      assume "q \<in> set (map (fill [(k, v)]) ps)"
      then obtain p where p: "p \<in> set ps" "q = fill [(k, v)] p" by auto
      then have "path_piece_ok p" using Cons.prems by blast
      with p(2) Cons.prems(3) show "path_piece_ok q" by (cases p) (auto simp: kv)
    qed
    have fresh: "k \<notin> fst ` set params" using Cons.prems(2) by (simp add: kv)
    have twice: "fill params (fill [(k, v)] p) = fill (kv # params) p" for p
      using fresh by (cases p) (auto simp: kv map_of_eq_None_iff [THEN iffD2])
    have "replace_all (placeholder k) v (concat (map path_text ps)) =
        concat (map path_text (map (fill [(k, v)]) ps))"
      using replace_all_pieces [of k ps v] Cons.prems by (simp add: kv)
    then show ?case
      using Cons.IH [OF ok] Cons.prems by (simp add: kv comp_def twice [unfolded kv])
  qed
  note this [OF assms]
  moreover have "fill [] p = p" for p by (cases p) simp_all
  ultimately show ?thesis by (auto simp: GeneratePath_def comp_def)
qed

text \<open>
  The path of a request is its URL pattern with every hole filled: for a pattern made of text
  without opening braces and holes, and parameters whose names have no brace and whose values have
  no opening one, each hole with a parameter becomes its value and every other hole stays, whatever
  the order in which Go visits the parameters.
\<close>

theorem GeneratePath_exact:
  assumes "\<forall>p \<in> set ps. path_piece_ok p" and "distinct (keys (rq_Params r))"
    and "\<forall>kv \<in> set (rq_Params r). brace_free (fst kv) \<and> CHR ''{'' \<notin> set (snd kv)"
  shows "rq_Path (GeneratePath (concat (map path_text ps)) r) =
    concat (map (path_text \<circ> fill (rq_Params r)) ps)"
  using assms by (rule rewrite_path)

theorem GeneratePath_exact_witness:
  "rq_Path (GeneratePath (concat (map path_text [Lit ''/u/'', Hole ''Id'', Lit ''/'', Hole ''X'']))
      \<lparr>rq_Method = ''GET'', rq_URL = None, rq_Query = None, rq_Path = [], rq_Body = None,
       rq_Params = [(''Id'', ''42'')], rq_Headers = []\<rparr>) =
   concat (map (path_text \<circ> fill (rq_Params
      \<lparr>rq_Method = ''GET'', rq_URL = None, rq_Query = None, rq_Path = [], rq_Body = None,
       rq_Params = [(''Id'', ''42'')], rq_Headers = []\<rparr>)) [Lit ''/u/'', Hole ''Id'', Lit ''/'', Hole ''X''])"
  by (rule GeneratePath_exact) (simp_all add: brace_free_def)

text \<open>A value that holds another hole makes the path depend on the order of the map.\<close>

lemma GeneratePath_order_matters:
  "rq_Path (GeneratePath ''{{.A}}'' (r\<lparr>rq_Params := [(''A'', ''{{.B}}''), (''B'', ''x'')]\<rparr>)) = ''x''"
  "rq_Path (GeneratePath ''{{.A}}'' (r\<lparr>rq_Params := [(''B'', ''x''), (''A'', ''{{.B}}'')]\<rparr>)) = ''{{.B}}''"
  by (simp_all add: GeneratePath_def placeholder_def)

section \<open>Requests in memory\<close>

text \<open>
  \<open>m_multi\<close> holds the maps of lists (headers, query), \<open>m_params\<close> the maps of parameters,
  \<open>m_body\<close> what the reader of a body still delivers; \<open>m_next\<close> is the next free address of all
  three.
\<close>

record reqmem =
  m_multi :: "nat \<Rightarrow> string list gmap"
  m_params :: "nat \<Rightarrow> string gmap"
  m_body :: "nat \<Rightarrow> string"
  m_next :: nat

record reqref =
  rf_Method :: string
  rf_URL :: "url option"
  rf_Query :: "nat option"
  rf_Path :: string
  rf_Body :: "nat option"
  rf_Params :: nat
  rf_Headers :: nat

text \<open>The request a reference stands for.\<close>

definition deref :: "reqmem \<Rightarrow> reqref \<Rightarrow> request" where
  "deref m r =
     \<lparr>rq_Method = rf_Method r, rq_URL = rf_URL r, rq_Query = map_option (m_multi m) (rf_Query r),
      rq_Path = rf_Path r, rq_Body = map_option (m_body m) (rf_Body r),
      rq_Params = m_params m (rf_Params r), rq_Headers = m_multi m (rf_Headers r)\<rparr>"

text \<open>
  \<open>Clone\<close>: the struct is copied, the URL is printed and parsed again (a failure makes it nil). The
  struct fields of \<open>request\<close> are those of the reference; everything behind a pointer is shared.
\<close>

definition Clone :: "(string \<Rightarrow> url option) \<Rightarrow> reqref \<Rightarrow> reqref" where
  "Clone parse r = r\<lparr>rf_URL := obind (rf_URL r) (\<lambda>u. parse (url_string u))\<rparr>"

definition alloc_multi :: "string list gmap \<Rightarrow> reqmem \<Rightarrow> nat \<times> reqmem" where
  "alloc_multi v m = (m_next m, m\<lparr>m_multi := (m_multi m)(m_next m := v), m_next := Suc (m_next m)\<rparr>)"

definition alloc_params :: "string gmap \<Rightarrow> reqmem \<Rightarrow> nat \<times> reqmem" where
  "alloc_params v m = (m_next m, m\<lparr>m_params := (m_params m)(m_next m := v), m_next := Suc (m_next m)\<rparr>)"

definition alloc_body :: "string \<Rightarrow> reqmem \<Rightarrow> nat \<times> reqmem" where
  "alloc_body v m = (m_next m, m\<lparr>m_body := (m_body m)(m_next m := v), m_next := Suc (m_next m)\<rparr>)"

definition CloneRequestHeaders :: "string list gmap \<Rightarrow> string list gmap" where
  "CloneRequestHeaders headers = fold (\<lambda>(k, vs) m. mput k vs m) headers []"

definition CloneRequestParams :: "string gmap \<Rightarrow> string gmap" where
  "CloneRequestParams params = fold (\<lambda>(k, v) m. mput k v m) params []"

text \<open>
  \<open>CloneRequest\<close> gives the clone, the received request as it is left and the memory: its body was
  read to the end and both get a reader of their own on the same bytes.
\<close>

definition CloneRequest ::
  "(string \<Rightarrow> url option) \<Rightarrow> reqref \<Rightarrow> reqmem \<Rightarrow> reqref \<times> reqref \<times> reqmem" where
  "CloneRequest parse r m =
     (let clone = Clone parse r;
          (h, m) = alloc_multi (CloneRequestHeaders (m_multi m (rf_Headers r))) m;
          (p, m) = alloc_params (CloneRequestParams (m_params m (rf_Params r))) m;
          clone = clone\<lparr>rf_Headers := h, rf_Params := p\<rparr> in
      case rf_Body r of
        None \<Rightarrow> (clone, r, m)
      | Some b \<Rightarrow>
          (let data = m_body m b;
               m = m\<lparr>m_body := (m_body m)(b := [])\<rparr>;
               (ob, m) = alloc_body data m;
               (cb, m) = alloc_body data m in
           (clone\<lparr>rf_Body := Some cb\<rparr>, r\<lparr>rf_Body := Some ob\<rparr>, m)))"

text \<open>A reference whose addresses are all allocated, its query and headers being two maps.\<close>

definition in_mem :: "reqmem \<Rightarrow> reqref \<Rightarrow> bool" where
  "in_mem m r \<longleftrightarrow> rf_Params r < m_next m \<and> rf_Headers r < m_next m \<and>
     (\<forall>q. rf_Query r = Some q \<longrightarrow> q < m_next m \<and> q \<noteq> rf_Headers r) \<and> (\<forall>b. rf_Body r = Some b \<longrightarrow> b < m_next m)"

text \<open>Writes through a reference: a parameter, a header, reading the body to its end.\<close>

definition write_param :: "string \<Rightarrow> string \<Rightarrow> reqref \<Rightarrow> reqmem \<Rightarrow> reqmem" where
  "write_param k v r m =
     m\<lparr>m_params := (m_params m)(rf_Params r := mput k v (m_params m (rf_Params r)))\<rparr>"

definition write_header :: "string \<Rightarrow> string list \<Rightarrow> reqref \<Rightarrow> reqmem \<Rightarrow> reqmem" where
  "write_header k vs r m =
     m\<lparr>m_multi := (m_multi m)(rf_Headers r := mput k vs (m_multi m (rf_Headers r)))\<rparr>"

definition read_body :: "reqref \<Rightarrow> reqmem \<Rightarrow> reqmem" where
  "read_body r m =
     (case rf_Body r of None \<Rightarrow> m | Some b \<Rightarrow> m\<lparr>m_body := (m_body m)(b := [])\<rparr>)"

definition write_query :: "string \<Rightarrow> string list \<Rightarrow> reqref \<Rightarrow> reqmem \<Rightarrow> reqmem" where
  "write_query k vs r m =
     (case rf_Query r of None \<Rightarrow> m
      | Some q \<Rightarrow> m\<lparr>m_multi := (m_multi m)(q := mput k vs (m_multi m q))\<rparr>)"

inductive req_write :: "reqref \<Rightarrow> reqmem \<Rightarrow> reqmem \<Rightarrow> bool" for r :: reqref where
  "req_write r m (write_param k v r m)"
| "req_write r m (write_header k vs r m)"
| "req_write r m (read_body r m)"

lemma mput_append_new: "k \<notin> fst ` set m \<Longrightarrow> mput k v m = m @ [(k, v)]"
  by (induction m) auto

lemma rebuild_map: "distinct (keys (m @ src)) \<Longrightarrow> fold (\<lambda>(k, v) m. mput k v m) src m = m @ src"
proof (induction src arbitrary: m)
  case Nil
  then show ?case by simp
next
  case (Cons kv src)
  then show ?case by (cases kv) (auto simp: mput_append_new)
qed

lemma CloneRequestHeaders_id: "distinct (keys h) \<Longrightarrow> CloneRequestHeaders h = h"
  using rebuild_map [of "[]" h] by (simp add: CloneRequestHeaders_def)

lemma CloneRequestParams_id: "distinct (keys p) \<Longrightarrow> CloneRequestParams p = p"
  using rebuild_map [of "[]" p] by (simp add: CloneRequestParams_def)

text \<open>What two references may still share when neither can see the other's writes.\<close>

definition apart :: "reqref \<Rightarrow> reqref \<Rightarrow> bool" where
  "apart a b \<longleftrightarrow> rf_Params a \<noteq> rf_Params b \<and> rf_Headers a \<noteq> rf_Headers b \<and>
     rf_Query b \<noteq> Some (rf_Headers a) \<and> (rf_Body a = None \<or> rf_Body a \<noteq> rf_Body b)"

lemma map_option_upd [simp]:
  "x \<noteq> Some a \<Longrightarrow> map_option (f(a := v)) x = map_option f x"
  "Some a \<noteq> x \<Longrightarrow> map_option (f(a := v)) x = map_option f x"
  by (cases x; auto)+

lemma req_write_apart: "req_write a m m' \<Longrightarrow> apart a b \<Longrightarrow> deref m' b = deref m b"
  by (induction rule: req_write.induct)
    (auto simp: deref_def apart_def write_param_def write_header_def read_body_def
      split: option.split)

lemma req_writes_apart: "(req_write a)\<^sup>*\<^sup>* m m' \<Longrightarrow> apart a b \<Longrightarrow> deref m' b = deref m b"
  by (induction rule: rtranclp_induct) (auto dest: req_write_apart)

lemma CloneRequest_apart:
  assumes "in_mem m r" and "CloneRequest parse r m = (c, r', m')"
  shows "apart c r' \<and> apart r' c"
  using assms
  by (auto simp: CloneRequest_def Clone_def Let_def alloc_multi_def alloc_params_def alloc_body_def
      in_mem_def apart_def split: option.splits)

lemma CloneRequest_same:
  assumes "in_mem m r" and "CloneRequest parse r m = (c, r', m')"
    and "distinct (keys (m_multi m (rf_Headers r)))" and "distinct (keys (m_params m (rf_Params r)))"
  shows "deref m' r' = deref m r" and
    "deref m' c = (deref m r)\<lparr>rq_URL := obind (rf_URL r) (\<lambda>u. parse (url_string u))\<rparr>"
  using assms
  by (cases "rf_Query r"; auto simp: CloneRequest_def Clone_def Let_def alloc_multi_def
      alloc_params_def alloc_body_def in_mem_def deref_def CloneRequestHeaders_id CloneRequestParams_id
      split: option.splits)+


definition sample_mem :: reqmem where
  "sample_mem =
     \<lparr>m_multi = (\<lambda>a. if a = 0 then [(''Q'', [''1''])] else [(''H'', [''a'', ''b''])]),
      m_params = (\<lambda>_. [(''Id'', ''42'')]), m_body = (\<lambda>_. ''body''), m_next = 4\<rparr>"

definition sample_ref :: reqref where
  "sample_ref =
     \<lparr>rf_Method = ''POST'', rf_URL = None, rf_Query = Some 0, rf_Path = ''/'', rf_Body = Some 3,
      rf_Params = 2, rf_Headers = 1\<rparr>"


text \<open>The query map is shared: a write through the clone shows in the original.\<close>

lemma CloneRequest_shares_query:
  "case CloneRequest (\<lambda>_. None) sample_ref sample_mem of
     (c, r', m') \<Rightarrow>
       rq_Query (deref m' r') = Some [(''Q'', [''1''])] \<and>
       rq_Query (deref (write_query ''X'' [''9''] c m') r') = Some [(''Q'', [''1'']), (''X'', [''9''])]"
  by (simp add: CloneRequest_def Clone_def Let_def alloc_multi_def alloc_params_def alloc_body_def
      sample_ref_def sample_mem_def deref_def write_query_def)

text \<open>
  A request struct made by a middleware from the fields of another shares its body reader; this is
  what the first one is after a callee worked on the second.
\<close>

definition after_copy :: "request \<Rightarrow> request \<Rightarrow> request" where
  "after_copy r r' = r\<lparr>rq_Body := rq_Body r'\<rparr>"

end
