(* ===== verification/Config_Init.thy ===== *)
theory Config_Init
  imports Config_URI Proxy_Request
begin

text \<open>
  \<open>ServiceConfig.Init\<close> of \<open>config/config.go\<close>: the defaults, the validations and the rewriting of
  endpoint paths and URL patterns. A failing \<open>Init\<close> gives its error only: what the struct holds by
  then is not used by the callers. What the code takes from package variables and from libraries is
  in the record \<open>init_env\<close>: the letter case of \<open>cases.Title(language.Und)\<close>, \<open>net.ParseIP\<close>, the verb
  \<open>%v\<close>, the two patterns that can be replaced (\<open>SetInvalidPattern\<close>, \<open>SetSequentialParamsPattern\<close>),
  the routing pattern and the decoder register.
\<close>

section \<open>Patterns\<close>

text \<open>\<open>^(resp[\d]+_.+)?(JWT\.([\w\-\.:/]+))?$\<close> and \<open>^[^/]|\*.|/__(debug|echo|health)(/.*)?$\<close>.\<close>

definition any_char :: "char \<Rightarrow> bool" where
  "any_char c \<longleftrightarrow> c \<noteq> CHR 0x0A"

definition sequentialParamsPattern :: re where
  "sequentialParamsPattern =
     RSeq (ROpt (RCap (RSeq (RLit ''resp'') (RSeq (RPlus is_digit) (RSeq (RLit ''_'') (RPlus any_char))))))
       (RSeq (ROpt (RCap (RSeq (RLit ''JWT.'') (RCap (RPlus is_url_key_char))))) REnd)"

definition is_sequential_param :: "string \<Rightarrow> bool" where
  "is_sequential_param s = re_matches_start sequentialParamsPattern s"

definition reserved_path :: re where
  "reserved_path =
     RSeq (RLit ''/__'') (RSeq (RCap (RAlt (RLit ''debug'') (RAlt (RLit ''echo'') (RLit ''health''))))
       (RSeq (ROpt (RCap (RSeq (RLit ''/'') (RStar any_char)))) REnd))"

definition invalidPattern :: "string \<Rightarrow> bool" where
  "invalidPattern path \<longleftrightarrow>
     (case path of [] \<Rightarrow> False | c # _ \<Rightarrow> c \<noteq> CHR ''/'') \<or>
     re_search (RSeq (RLit ''*'') (RClass any_char)) path \<or> re_search reserved_path path"

record init_env =
  ie_title :: "string \<Rightarrow> string"
  ie_ip_ok :: "string \<Rightarrow> bool"
  ie_show :: "value \<Rightarrow> string"
  ie_invalid :: "string \<Rightarrow> go_err + bool"
  ie_sequential :: "string \<Rightarrow> bool"
  ie_routing :: routing
  ie_decoders :: decoder_register

section \<open>Errors\<close>

datatype init_err =
    UnsupportedVersionError int int
  | InvalidAddress string
  | InvalidHost go_err
  | EndpointMatchError string string go_err
  | EndpointPathError string string
  | NoBackendsError string string
  | InvalidNoOpEncoding
  | WrongNumberOfParamsError string string nat "string list" "string list"
  | UndefinedOutputParamError string string string nat "string list" "string list"

text \<open>The texts of the errors; \<open>%v\<close> of a slice of strings.\<close>

definition show_strings :: "string list \<Rightarrow> string" where
  "show_strings xs = ''['' @ join '' '' xs @ '']''"

fun init_err_text :: "init_err \<Rightarrow> string" where
  "init_err_text (UnsupportedVersionError have want) =
     ''unsupported version: '' @ itoa have @ '' (want: '' @ itoa want @ '')''"
| "init_err_text (InvalidAddress a) = ''invalid ip address '' @ a"
| "init_err_text (InvalidHost e) = err_text e"
| "init_err_text (EndpointMatchError path method e) =
     ''ignoring the '' @ [char_of (39 :: nat)] @ method @ '' '' @ path @ [char_of (39 :: nat)] @
     '' endpoint due to a parsing error: '' @ err_text e"
| "init_err_text (EndpointPathError path method) =
     ''ignoring the '' @ [char_of (39 :: nat)] @ method @ '' '' @ path @ [char_of (39 :: nat)] @
     '' endpoint, since it is invalid!!!''"
| "init_err_text (NoBackendsError path method) =
     ''ignoring the '' @ [char_of (39 :: nat)] @ method @ '' '' @ path @ [char_of (39 :: nat)] @
     '' endpoint, since it has 0 backends defined!''"
| "init_err_text InvalidNoOpEncoding =
     ''can not use NoOp encoding with more than one backends connected to the same endpoint''"
| "init_err_text (WrongNumberOfParamsError endpoint method b input out) =
     ''input and output params do not match. endpoint: '' @ method @ '' '' @ endpoint @
     '', backend: '' @ itoa (int b) @ ''. input: '' @ show_strings input @
     '', output: '' @ show_strings out"
| "init_err_text (UndefinedOutputParamError param endpoint method b input out) =
     ''undefined output param '' @ [char_of (39 :: nat)] @ param @ [char_of (39 :: nat)] @
     ''! endpoint: '' @ method @ '' '' @ endpoint @ '', backend: '' @ itoa (int b) @
     ''. input: '' @ show_strings input @ '', output: '' @ show_strings out"

section \<open>Parameters of paths\<close>

definition paramExtractionPattern :: "service_config \<Rightarrow> re" where
  "paramExtractionPattern s =
     (if sc_DisableStrictREST s then simpleURLKeysPattern else endpointURLKeysPattern)"

definition extractPlaceHoldersFromURLTemplate :: "string \<Rightarrow> re \<Rightarrow> string list" where
  "extractPlaceHoldersFromURLTemplate subject pattern = map (\<lambda>v. v ! 1) (find_all pattern subject)"

text \<open>A Go set of names is a list here, its order one the code never uses: it is sorted.\<close>

definition fromSetToSortedSlice :: "string list \<Rightarrow> string list" where
  "fromSetToSortedSlice names = sort (remdups names)"

text \<open>
  The loop of \<open>uniqueOutput\<close> over the sorted names; \<open>cur\<close> is \<open>output[j]\<close>. The last name is never
  counted.
\<close>

fun unique_loop :: "(string \<Rightarrow> bool) \<Rightarrow> string \<Rightarrow> string list \<Rightarrow> string list \<times> nat" where
  "unique_loop sequential cur [] = ([cur], 0)"
| "unique_loop sequential cur (x # xs) =
     (if cur = x then unique_loop sequential cur xs
      else (case unique_loop sequential x xs of
        (out, n) \<Rightarrow> (cur # out, if sequential cur then n else Suc n)))"

definition uniqueOutput :: "(string \<Rightarrow> bool) \<Rightarrow> string list \<Rightarrow> string list \<times> nat" where
  "uniqueOutput sequential output =
     (case sort output of [] \<Rightarrow> ([], 0) | x # xs \<Rightarrow> unique_loop sequential x xs)"

definition param_key :: "(string \<Rightarrow> string) \<Rightarrow> string \<Rightarrow> string" where
  "param_key title output = title (take 1 output) @ drop 1 output"

text \<open>The loop over the output parameters: the first undefined one ends it.\<close>

fun map_outputs ::
  "init_env \<Rightarrow> (string \<Rightarrow> init_err) \<Rightarrow> string list \<Rightarrow> string list \<Rightarrow> backend \<Rightarrow> init_err + backend"
  where
  "map_outputs env err inputs [] b = Inr b"
| "map_outputs env err inputs (out # outs) b =
     (if \<not> ie_sequential env out \<and> out \<notin> set inputs then Inl (err out)
      else
        (let k = param_key (ie_title env) out in
         map_outputs env err inputs outs
           (b\<lparr>be_URLPattern := replace_all (''{'' @ out @ ''}'') (''{{.'' @ k @ ''}}'') (be_URLPattern b),
              be_URLKeys := be_URLKeys b @ [k]\<rparr>)))"

definition initBackendURLMappings ::
  "init_env \<Rightarrow> endpoint_config \<Rightarrow> nat \<Rightarrow> string list \<Rightarrow> backend \<Rightarrow> init_err + backend" where
  "initBackendURLMappings env e i inputs b =
     (let b = b\<lparr>be_URLPattern := CleanPath (be_URLPattern b)\<rparr>;
          (outs, outputSetSize) = uniqueOutput (ie_sequential env)
            (extractPlaceHoldersFromURLTemplate (be_URLPattern b) simpleURLKeysPattern);
          ip = fromSetToSortedSlice inputs in
      if outputSetSize > length ip
      then Inl (WrongNumberOfParamsError (ep_Endpoint e) (ep_Method e) i ip outs)
      else map_outputs env
        (\<lambda>out. UndefinedOutputParamError out (ep_Endpoint e) (ep_Method e) i ip outs)
        inputs outs (b\<lparr>be_URLKeys := []\<rparr>))"

section \<open>Defaults\<close>

abbreviation defaultPort :: int where "defaultPort \<equiv> 8080"
abbreviation DefaultMaxIdleConnsPerHost :: int where "DefaultMaxIdleConnsPerHost \<equiv> 250"
abbreviation ConfigVersion :: int where "ConfigVersion \<equiv> 3"

definition host_err :: "go_err + 'a \<Rightarrow> init_err + 'a" where
  "host_err r = (case r of Inl e \<Rightarrow> Inl (InvalidHost e) | Inr x \<Rightarrow> Inr x)"

definition initGlobalParams :: "init_env \<Rightarrow> service_config \<Rightarrow> init_err + service_config" where
  "initGlobalParams env s =
     (let s = (if sc_Port s = 0 then s\<lparr>sc_Port := defaultPort\<rparr> else s) in
      if sc_Address s \<noteq> [] \<and> \<not> ie_ip_ok env (sc_Address s)
      then Inl (InvalidAddress (sc_Address s))
      else
        (let s = (if sc_MaxIdleConnsPerHost s = 0
                  then s\<lparr>sc_MaxIdleConnsPerHost := DefaultMaxIdleConnsPerHost\<rparr> else s);
             s = (if sc_Timeout s = 0 then s\<lparr>sc_Timeout := DefaultTimeout\<rparr> else s) in
         ebind (host_err (SafeCleanHosts (sc_Host s))) (\<lambda>hs.
           Inr (s\<lparr>sc_Host := hs, sc_ExtraConfig := sanitize (ie_show env) (sc_ExtraConfig s)\<rparr>))))"

definition clean_backend_hosts :: "string list \<Rightarrow> backend \<Rightarrow> init_err + backend" where
  "clean_backend_hosts service_hosts b =
     (if be_Host b = [] then Inr (b\<lparr>be_Host := service_hosts\<rparr>)
      else if \<not> be_HostSanitizationDisabled b
      then ebind (host_err (SafeCleanHosts (be_Host b))) (\<lambda>hs. Inr (b\<lparr>be_Host := hs\<rparr>))
      else Inr b)"

definition backend_decoder :: "init_env \<Rightarrow> backend \<Rightarrow> decoder" where
  "backend_decoder env b =
     make_decoder (DecoderRegister_Get (ie_decoders env) (to_lower (be_Encoding b))) (be_IsCollection b)"

definition initAsyncAgentDefaults :: "service_config \<Rightarrow> async_agent \<Rightarrow> async_agent" where
  "initAsyncAgentDefaults s a =
     (let c = aa_Consumer a;
          c = (if sc_Timeout s \<noteq> 0 \<and> cs_Timeout c = 0 then c\<lparr>cs_Timeout := sc_Timeout s\<rparr> else c);
          c = (if cs_Workers c < 1 then c\<lparr>cs_Workers := 1\<rparr> else c);
          n = aa_Connection a;
          n = (if cn_HealthInterval n < Second then n\<lparr>cn_HealthInterval := Second\<rparr> else n) in
      a\<lparr>aa_Consumer := c, aa_Connection := n\<rparr>)"

definition init_agent_backend ::
  "init_env \<Rightarrow> service_config \<Rightarrow> async_agent \<Rightarrow> backend \<Rightarrow> init_err + backend" where
  "init_agent_backend env s a b =
     ebind (clean_backend_hosts (sc_Host s) b) (\<lambda>b.
       let b = (if be_Method b = [] then b\<lparr>be_Method := ''GET''\<rparr> else b) in
       Inr (b\<lparr>be_Timeout := cs_Timeout (aa_Consumer a),
              be_Decoder := Some (backend_decoder env b),
              be_ExtraConfig := sanitize (ie_show env) (be_ExtraConfig b)\<rparr>))"

definition init_agent :: "init_env \<Rightarrow> service_config \<Rightarrow> async_agent \<Rightarrow> init_err + async_agent" where
  "init_agent env s a =
     (let a = initAsyncAgentDefaults s a;
          a = a\<lparr>aa_ExtraConfig := sanitize (ie_show env) (aa_ExtraConfig a)\<rparr> in
      ebind (emap (\<lambda>_. init_agent_backend env s a) 0 (aa_Backend a)) (\<lambda>bs.
        Inr (a\<lparr>aa_Backend := bs\<rparr>)))"

definition initAsyncAgents :: "init_env \<Rightarrow> service_config \<Rightarrow> init_err + service_config" where
  "initAsyncAgents env s =
     ebind (emap (\<lambda>_. init_agent env s) 0 (sc_AsyncAgents s)) (\<lambda>as. Inr (s\<lparr>sc_AsyncAgents := as\<rparr>))"

section \<open>Endpoints\<close>

definition validate :: "init_env \<Rightarrow> endpoint_config \<Rightarrow> init_err + unit" where
  "validate env e =
     (case ie_invalid env (ep_Endpoint e) of
        Inl err \<Rightarrow> Inl (EndpointMatchError (ep_Endpoint e) (ep_Method e) err)
      | Inr True \<Rightarrow> Inl (EndpointPathError (ep_Endpoint e) (ep_Method e))
      | Inr False \<Rightarrow>
          (if ep_Backend e = [] then Inl (NoBackendsError (ep_Endpoint e) (ep_Method e)) else Inr ()))"

definition initEndpointDefaults :: "service_config \<Rightarrow> endpoint_config \<Rightarrow> endpoint_config" where
  "initEndpointDefaults s e =
     (let e = (if ep_Method e = [] then e\<lparr>ep_Method := ''GET''\<rparr> else e);
          e = (if sc_CacheTTL s \<noteq> 0 \<and> ep_CacheTTL e = 0 then e\<lparr>ep_CacheTTL := sc_CacheTTL s\<rparr> else e);
          e = (if sc_Timeout s \<noteq> 0 \<and> ep_Timeout e = 0 then e\<lparr>ep_Timeout := sc_Timeout s\<rparr> else e);
          e = (if ep_ConcurrentCalls e = 0 then e\<lparr>ep_ConcurrentCalls := 1\<rparr> else e) in
      if ep_OutputEncoding e = []
      then e\<lparr>ep_OutputEncoding := (if sc_OutputEncoding s \<noteq> [] then sc_OutputEncoding s else JSON)\<rparr>
      else e)"

definition initBackendDefaults ::
  "init_env \<Rightarrow> service_config \<Rightarrow> endpoint_config \<Rightarrow> backend \<Rightarrow> init_err + backend" where
  "initBackendDefaults env s e b =
     ebind (clean_backend_hosts (sc_Host s) b) (\<lambda>b.
       let b = (if be_Method b = [] then b\<lparr>be_Method := ep_Method e\<rparr> else b);
           b = (if ep_OutputEncoding e = NOOP then b\<lparr>be_Encoding := NOOP\<rparr> else b);
           b = b\<lparr>be_Timeout := ep_Timeout e, be_ConcurrentCalls := ep_ConcurrentCalls e,
                 be_Decoder := Some (backend_decoder env b),
                 be_HeadersToPass := map CanonicalMIMEHeaderKey (be_HeadersToPass b)\<rparr> in
       Inr (if be_SDScheme b = [] then b\<lparr>be_SDScheme := ''http''\<rparr> else b))"

definition init_backend ::
  "init_env \<Rightarrow> service_config \<Rightarrow> endpoint_config \<Rightarrow> string list \<Rightarrow> nat \<Rightarrow> backend \<Rightarrow>
     init_err + backend" where
  "init_backend env s e inputs i b =
     ebind (initBackendDefaults env s e
         (b\<lparr>be_ParentEndpoint := ep_Endpoint e, be_ParentEndpointMethod := ep_Method e\<rparr>)) (\<lambda>b.
       ebind (initBackendURLMappings env e i inputs b) (\<lambda>b.
         Inr (b\<lparr>be_ExtraConfig := sanitize (ie_show env) (be_ExtraConfig b)\<rparr>)))"

definition init_endpoint ::
  "init_env \<Rightarrow> service_config \<Rightarrow> endpoint_config \<Rightarrow> init_err + endpoint_config" where
  "init_endpoint env s e =
     (let e = e\<lparr>ep_Endpoint := CleanPath (ep_Endpoint e)\<rparr> in
      ebind (validate env e) (\<lambda>_.
        let e = e\<lparr>ep_HeadersToPass := map CanonicalMIMEHeaderKey (ep_HeadersToPass e)\<rparr>;
            inputs = extractPlaceHoldersFromURLTemplate (ep_Endpoint e) (paramExtractionPattern s);
            e = e\<lparr>ep_Endpoint := GetEndpointPath (ie_routing env) (ep_Endpoint e) inputs\<rparr>;
            e = initEndpointDefaults s e in
        if ep_OutputEncoding e = NOOP \<and> length (ep_Backend e) > 1 then Inl InvalidNoOpEncoding
        else
          (let e = e\<lparr>ep_ExtraConfig := sanitize (ie_show env) (ep_ExtraConfig e)\<rparr> in
           ebind (emap (init_backend env s e inputs) 0 (ep_Backend e)) (\<lambda>bs.
             Inr (e\<lparr>ep_Backend := bs\<rparr>)))))"

definition initEndpoints :: "init_env \<Rightarrow> service_config \<Rightarrow> init_err + service_config" where
  "initEndpoints env s =
     ebind (emap (\<lambda>_. init_endpoint env s) 0 (sc_Endpoints s)) (\<lambda>es. Inr (s\<lparr>sc_Endpoints := es\<rparr>))"

definition Init :: "init_env \<Rightarrow> service_config \<Rightarrow> init_err + service_config" where
  "Init env s =
     (if sc_Version s \<noteq> ConfigVersion
      then Inl (UnsupportedVersionError (sc_Version s) ConfigVersion)
      else ebind (initGlobalParams env s) (\<lambda>s. ebind (initAsyncAgents env s) (initEndpoints env)))"

section \<open>The hash and the patterns of the package\<close>

text \<open>
  \<open>Hash\<close> takes the name out for the time of the marshalling; \<open>marshal\<close> is \<open>json.Marshal\<close>, \<open>digest\<close> the
  SHA-256 of the bytes in base64. The second component is the configuration after the call.
\<close>

definition Hash ::
  "(service_config \<Rightarrow> go_err + string) \<Rightarrow> (string \<Rightarrow> string) \<Rightarrow> service_config \<Rightarrow>
     (go_err + string) \<times> service_config" where
  "Hash marshal digest s =
     (let name = sc_Name s; s = s\<lparr>sc_Name := []\<rparr> in
      (case marshal s of Inl err \<Rightarrow> Inl err | Inr b \<Rightarrow> Inr (digest b), s\<lparr>sc_Name := name\<rparr>))"

lemma Hash_ignores_name:
  "fst (Hash marshal digest (s\<lparr>sc_Name := n\<rparr>)) = fst (Hash marshal digest s)"
  "snd (Hash marshal digest s) = s"
  by (simp_all add: Hash_def Let_def)

text \<open>\<open>compile\<close> and \<open>match_string\<close> are those of the package \<open>regexp\<close>.\<close>

definition SetSequentialParamsPattern ::
  "(string \<Rightarrow> go_err + (string \<Rightarrow> bool)) \<Rightarrow> string \<Rightarrow> init_env \<Rightarrow> go_err option \<times> init_env" where
  "SetSequentialParamsPattern compile pattern env =
     (case compile pattern of
        Inl err \<Rightarrow> (Some err, env)
      | Inr re \<Rightarrow> (None, env\<lparr>ie_sequential := re\<rparr>))"

definition SetInvalidPattern ::
  "(string \<Rightarrow> string \<Rightarrow> go_err + bool) \<Rightarrow> string \<Rightarrow> init_env \<Rightarrow> init_env" where
  "SetInvalidPattern match_string pattern env = env\<lparr>ie_invalid := match_string pattern\<rparr>"

section \<open>The checks on the output parameters\<close>

lemma unique_loop_out:
  assumes "sorted (cur # xs)" and "unique_loop sequential cur xs = (out, n)"
  shows "set out = set (cur # xs) \<and> distinct out \<and> n \<le> length (filter (\<lambda>x. \<not> sequential x) out)"
  using assms
proof (induction sequential cur xs arbitrary: out n rule: unique_loop.induct)
  case (1 sequential cur)
  then show ?case by auto
next
  case (2 sequential cur x xs)
  show ?case
  proof (cases "cur = x")
    case True
    then have "unique_loop sequential cur xs = (out, n)" "sorted (cur # xs)"
      using 2(3,4) by auto
    from 2(1) [OF True this(2,1)] True show ?thesis by simp
  next
    case False
    obtain out' n' where rec: "unique_loop sequential x xs = (out', n')"
      by (cases "unique_loop sequential x xs")
    have srt: "sorted (x # xs)" using 2(3) by simp
    note IH = 2(2) [OF False srt rec]
    have "cur < x" using False 2(3) by (simp add: less_le)
    then have "\<forall>y \<in> set (x # xs). cur < y" using srt by (auto dest: less_le_trans)
    then have "cur \<notin> set out'" using IH by auto
    moreover have "out = cur # out'" "n = (if sequential cur then n' else Suc n')"
      using 2(4) False rec by auto
    ultimately show ?thesis using IH by simp
  qed
qed

lemma uniqueOutput_out:
  assumes "uniqueOutput sequential names = (out, n)"
  shows "set out = set names" and "distinct out" and "n \<le> length (filter (\<lambda>x. \<not> sequential x) out)"
proof -
  have "set out = set names \<and> distinct out \<and> n \<le> length (filter (\<lambda>x. \<not> sequential x) out)"
  proof (cases "sort names")
    case Nil
    then show ?thesis using assms by (cases names) (auto simp: uniqueOutput_def)
  next
    case (Cons x xs)
    moreover have "sorted (x # xs)" using sorted_sort Cons by metis
    moreover have "set (x # xs) = set names" using set_sort Cons by metis
    ultimately show ?thesis using assms unique_loop_out [of x xs sequential out n]
      by (simp add: uniqueOutput_def)
  qed
  then show "set out = set names" "distinct out" "n \<le> length (filter (\<lambda>x. \<not> sequential x) out)"
    by simp_all
qed

lemma map_outputs_ok:
  "(\<exists>b'. map_outputs env err inputs outs b = Inr b') \<longleftrightarrow>
     (\<forall>out \<in> set outs. ie_sequential env out \<or> out \<in> set inputs)"
  by (induction outs arbitrary: b) (auto simp: Let_def)

lemma length_fromSet: "length (fromSetToSortedSlice inputs) = card (set inputs)"
  by (simp add: fromSetToSortedSlice_def length_remdups_card_conv)

text \<open>
  C11. The two checks on the parameters of a URL pattern amount to one: a backend is accepted exactly
  when each parameter of its (cleaned) pattern is sequential or a parameter of the endpoint; the
  count of \<open>uniqueOutput\<close>, which leaves out one name, never rejects or lets through anything more.
\<close>

theorem url_mappings_checked:
  "(\<exists>b'. initBackendURLMappings env e i inputs b = Inr b') \<longleftrightarrow>
     (\<forall>out \<in> set (extractPlaceHoldersFromURLTemplate (CleanPath (be_URLPattern b)) simpleURLKeysPattern).
        ie_sequential env out \<or> out \<in> set inputs)" (is "?ok \<longleftrightarrow> (\<forall>out \<in> set ?ph. ?good out)")
proof -
  obtain out n where u: "uniqueOutput (ie_sequential env) ?ph = (out, n)"
    by (cases "uniqueOutput (ie_sequential env) ?ph")
  note uo = uniqueOutput_out [OF u]
  have "\<not> n > card (set inputs)" if "\<forall>out \<in> set ?ph. ?good out"
  proof -
    have "set (filter (\<lambda>x. \<not> ie_sequential env x) out) \<subseteq> set inputs"
      using that uo(1) by auto
    then have "card (set (filter (\<lambda>x. \<not> ie_sequential env x) out)) \<le> card (set inputs)"
      by (rule card_mono [OF finite_set])
    then have "length (filter (\<lambda>x. \<not> ie_sequential env x) out) \<le> card (set inputs)"
      by (simp only: distinct_card [OF distinct_filter [OF uo(2)]])
    with uo(3) show ?thesis by simp
  qed
  then show ?thesis
    using u uo(1)
    by (auto simp: initBackendURLMappings_def Let_def length_fromSet map_outputs_ok)
qed

section \<open>From a URL pattern to the path of a request\<close>

text \<open>
  A pattern of the configuration in pieces: text, and the parameters as written there. \<open>mixed\<close> is
  the pattern when the parameters of \<open>D\<close> are rewritten.
\<close>

fun cfg_text :: "path_piece \<Rightarrow> string" where
  "cfg_text (Lit t) = t"
| "cfg_text (Hole n) = ''{'' @ n @ ''}''"

fun cfg_piece_ok :: "path_piece \<Rightarrow> bool" where
  "cfg_piece_ok (Lit t) = brace_free t"
| "cfg_piece_ok (Hole n) = (n \<noteq> [] \<and> (\<forall>c \<in> set n. is_url_key_char c) \<and> hd n \<noteq> CHR ''.'')"

fun piece_holes :: "path_piece \<Rightarrow> string list" where
  "piece_holes (Lit t) = []"
| "piece_holes (Hole n) = [n]"

fun mixed :: "(string \<Rightarrow> string) \<Rightarrow> string set \<Rightarrow> path_piece \<Rightarrow> string" where
  "mixed key D (Lit t) = t"
| "mixed key D (Hole n) = (if n \<in> D then placeholder (key n) else ''{'' @ n @ ''}'')"

fun rename_hole :: "(string \<Rightarrow> string) \<Rightarrow> path_piece \<Rightarrow> path_piece" where
  "rename_hole key (Lit t) = Lit t"
| "rename_hole key (Hole n) = Hole (key n)"

lemma url_key_no_brace: "is_url_key_char c \<Longrightarrow> c \<noteq> CHR ''{'' \<and> c \<noteq> CHR ''}''"
  by (auto simp: is_url_key_char_def is_alpha_def is_lower_def is_upper_def is_digit_def)

lemma extract_hole:
  assumes "n \<noteq> []" and "\<forall>c \<in> set n. is_url_key_char c"
  shows "find_all simpleURLKeysPattern ((''{'' @ n @ ''}'') @ s) =
    [''{'' @ n @ ''}'', n] # find_all simpleURLKeysPattern s"
proof -
  have n: "first_match (RCap (RPlus is_url_key_char)) (n @ ''}'' @ s) (n, [n], ''}'' @ s)"
    using assms url_key_no_brace [of "CHR ''}''"] by (intro first_cap first_plus) auto
  have "first_match simpleURLKeysPattern (''{'' @ n @ ''}'' @ s) (''{'' @ n @ ''}'', [] @ [n] @ [], s)"
    unfolding simpleURLKeysPattern_def by (rule first_seq [OF first_lit first_seq [OF n first_lit]])
  then show ?thesis
    using find_all_hit [of simpleURLKeysPattern "''{'' @ n @ ''}''" s "[n]"]
    by (auto dest: first_match_at)
qed

lemma extract_text:
  assumes "CHR ''{'' \<notin> set t"
  shows "find_all simpleURLKeysPattern (t @ s) = find_all simpleURLKeysPattern s"
proof (rule find_all_skip [where P = "\<lambda>d. d \<noteq> CHR ''{''"])
  show "re_match_at simpleURLKeysPattern (d # ds) = None" if "d \<noteq> CHR ''{''" for d ds
    using that unfolding simpleURLKeysPattern_def by (intro no_match_lit) simp
qed (use assms in auto)

lemma extract_pieces:
  assumes "\<forall>p \<in> set ps. cfg_piece_ok p"
  shows "extractPlaceHoldersFromURLTemplate (concat (map cfg_text ps)) simpleURLKeysPattern =
    concat (map piece_holes ps)"
  using assms
proof (induction ps)
  case Nil
  then show ?case by (simp add: extractPlaceHoldersFromURLTemplate_def)
next
  case (Cons p ps)
  then show ?case
    using extract_hole extract_text
    by (cases p) (auto simp: extractPlaceHoldersFromURLTemplate_def brace_free_def)
qed

text \<open>Rewriting one more parameter changes its occurrences only.\<close>

lemma replace_all_text:
  "CHR ''{'' \<notin> set x \<Longrightarrow> replace_all (''{'' @ k) v (x @ s) = x @ replace_all (''{'' @ k) v s"
  by (induction x) auto

lemma prefix_brace_end:
  "CHR ''}'' \<notin> set k \<Longrightarrow> CHR ''}'' \<notin> set n \<Longrightarrow> prefix (k @ ''}'') (n @ ''}'' @ s) \<Longrightarrow> k = n"
proof (induction k arbitrary: n)
  case Nil
  then show ?case by (cases n) auto
next
  case (Cons c k)
  then show ?case by (cases n) auto
qed

lemma replace_raw_other:
  assumes "brace_free out" and "brace_free n" and "n \<noteq> out"
  shows "replace_all (''{'' @ out @ ''}'') v ((''{'' @ n @ ''}'') @ s) =
    (''{'' @ n @ ''}'') @ replace_all (''{'' @ out @ ''}'') v s"
proof -
  have "\<not> prefix (''{'' @ out @ ''}'') ((''{'' @ n @ ''}'') @ s)"
    using assms prefix_brace_end [of out n s] by (auto simp: brace_free_def)
  then have "replace_all (''{'' @ out @ ''}'') v ((''{'' @ n @ ''}'') @ s) =
      ''{'' @ replace_all (''{'' @ out @ ''}'') v ((n @ ''}'') @ s)"
    by simp
  then show ?thesis using assms(2) by (subst (asm) replace_all_text) (auto simp: brace_free_def)
qed

lemma replace_done_other:
  assumes "brace_free out" and "out \<noteq> []" and "hd out \<noteq> CHR ''.''" and "brace_free k"
  shows "replace_all (''{'' @ out @ ''}'') v (placeholder k @ s) =
    placeholder k @ replace_all (''{'' @ out @ ''}'') v s"
proof -
  obtain c out' where out: "out = c # out'" using assms(2) by (cases out) auto
  then have "c \<noteq> CHR ''.''" "c \<noteq> CHR ''{''" using assms(1,3) by (auto simp: brace_free_def)
  then have "replace_all (''{'' @ out @ ''}'') v (placeholder k @ s) =
      ''{{'' @ replace_all (''{'' @ out @ ''}'') v ((''.'' @ k @ ''}}'') @ s)"
    by (simp add: placeholder_def out)
  also have "\<dots> = placeholder k @ replace_all (''{'' @ out @ ''}'') v s"
    using assms(4) by (subst replace_all_text) (auto simp: placeholder_def brace_free_def)
  finally show ?thesis .
qed

lemma cfg_hole_ok:
  "cfg_piece_ok (Hole n) \<Longrightarrow> brace_free n \<and> n \<noteq> [] \<and> hd n \<noteq> CHR ''.''"
  using url_key_no_brace by (auto simp: brace_free_def)

lemma replace_mixed:
  assumes "\<forall>p \<in> set ps. cfg_piece_ok p" and "cfg_piece_ok (Hole out)"
    and "\<forall>n. cfg_piece_ok (Hole n) \<longrightarrow> brace_free (key n)"
  shows "replace_all (''{'' @ out @ ''}'') (placeholder (key out)) (concat (map (mixed key D) ps)) =
    concat (map (mixed key (insert out D)) ps)"
  using assms(1)
proof (induction ps)
  case Nil
  then show ?case by simp
next
  case (Cons p ps)
  let ?R = "replace_all (''{'' @ out @ ''}'') (placeholder (key out))"
  have "?R (mixed key D p @ s) = mixed key (insert out D) p @ ?R s" for s
  proof (cases p)
    case (Lit t)
    then show ?thesis
      using Cons.prems replace_all_text [of t "out @ ''}''"] by (auto simp: brace_free_def)
  next
    case (Hole n)
    have n: "cfg_piece_ok (Hole n)" using Cons.prems Hole by auto
    note ok = cfg_hole_ok [OF n] cfg_hole_ok [OF assms(2)]
    consider "n \<in> D" | "n \<notin> D" "n = out" | "n \<notin> D" "n \<noteq> out" by blast
    then show ?thesis
    proof cases
      case 1
      then show ?thesis using Hole replace_done_other ok assms(3) n by simp
    next
      case 2
      then show ?thesis using Hole by simp
    next
      case 3
      then show ?thesis using Hole replace_raw_other [of out n] ok by simp
    qed
  qed
  then show ?case using Cons by simp
qed

lemma map_outputs_pattern:
  assumes "map_outputs env err inputs outs b = Inr b'" and "key = param_key (ie_title env)"
    and "be_URLPattern b = concat (map (mixed key D) ps)" and "\<forall>p \<in> set ps. cfg_piece_ok p"
    and "\<forall>out \<in> set outs. cfg_piece_ok (Hole out)"
    and "\<forall>n. cfg_piece_ok (Hole n) \<longrightarrow> brace_free (key n)"
  shows "be_URLPattern b' = concat (map (mixed key (D \<union> set outs)) ps) \<and>
    be_URLKeys b' = be_URLKeys b @ map key outs"
  using assms(1,3,5)
proof (induction outs arbitrary: b D)
  case Nil
  then show ?case by simp
next
  case (Cons out outs)
  let ?b = "b\<lparr>be_URLPattern := replace_all (''{'' @ out @ ''}'') (placeholder (key out)) (be_URLPattern b),
     be_URLKeys := be_URLKeys b @ [key out]\<rparr>"
  have "map_outputs env err inputs outs ?b = Inr b'"
    using Cons.prems(1) assms(2) by (auto simp: Let_def placeholder_def split: if_splits)
  moreover have "be_URLPattern ?b = concat (map (mixed key (insert out D)) ps)"
    using replace_mixed [OF assms(4) _ assms(6)] Cons.prems by simp
  ultimately show ?case using Cons.IH [of ?b "insert out D"] Cons.prems(3) by simp
qed

lemma key_brace_free:
  assumes "\<forall>c. is_url_key_char c \<longrightarrow> brace_free (title [c])" and "cfg_piece_ok (Hole n)"
  shows "brace_free (param_key title n)"
  using assms url_key_no_brace by (cases n) (auto simp: param_key_def brace_free_def)

lemma mixed_all:
  "\<forall>p \<in> set ps. \<forall>n. p = Hole n \<longrightarrow> n \<in> D \<Longrightarrow>
     concat (map (mixed key D) ps) = concat (map (path_text \<circ> rename_hole key) ps)"
proof (induction ps)
  case (Cons p ps)
  then show ?case by (cases p) auto
qed simp

lemma mixed_none: "concat (map (mixed key {}) ps) = concat (map cfg_text ps)"
proof (induction ps)
  case (Cons p ps)
  then show ?case by (cases p) auto
qed simp

lemma set_holes: "Hole n \<in> set ps \<longleftrightarrow> n \<in> set (concat (map piece_holes ps))"
proof (induction ps)
  case (Cons p ps)
  then show ?case by (cases p) auto
qed simp

lemma url_mappings_pattern:
  assumes ok: "\<forall>p \<in> set ps. cfg_piece_ok p"
    and title: "\<forall>c. is_url_key_char c \<longrightarrow> brace_free (ie_title env [c])"
    and pat: "be_URLPattern b = concat (map cfg_text ps)" "prefix ''/'' (be_URLPattern b)"
    and res: "initBackendURLMappings env e i inputs b = Inr b'"
  shows "be_URLPattern b' = concat (map (path_text \<circ> rename_hole (param_key (ie_title env))) ps) \<and>
    set (be_URLKeys b') = param_key (ie_title env) ` set (concat (map piece_holes ps))"
proof -
  let ?key = "param_key (ie_title env)" and ?holes = "concat (map piece_holes ps)"
  have clean: "CleanPath (be_URLPattern b) = be_URLPattern b"
    using pat(2) by (auto simp: CleanPath_def trim_prefix_def prefix_def)
  obtain outs n where u: "uniqueOutput (ie_sequential env) ?holes = (outs, n)"
    by (cases "uniqueOutput (ie_sequential env) ?holes")
  have outs: "set outs = set ?holes" by (rule uniqueOutput_out(1) [OF u])
  obtain err where run: "map_outputs env err inputs outs
      (b\<lparr>be_URLPattern := concat (map cfg_text ps), be_URLKeys := []\<rparr>) = Inr b'"
    using res u clean pat(1) extract_pieces [OF ok]
    by (auto simp: initBackendURLMappings_def Let_def split: if_splits)
  have "\<forall>out \<in> set outs. cfg_piece_ok (Hole out)"
  proof
    fix out
    assume "out \<in> set outs"
    then have "Hole out \<in> set ps" using outs set_holes by blast
    with ok show "cfg_piece_ok (Hole out)" by blast
  qed
  moreover have "\<forall>n. cfg_piece_ok (Hole n) \<longrightarrow> brace_free (?key n)"
    using key_brace_free [OF title] by blast
  ultimately have "be_URLPattern b' = concat (map (mixed ?key (set outs)) ps)"
    "be_URLKeys b' = map ?key outs"
    using map_outputs_pattern [OF run refl, of "{}" ps] ok pat(1) by (simp_all add: mixed_none)
  moreover have "\<forall>p \<in> set ps. \<forall>n. p = Hole n \<longrightarrow> n \<in> set outs"
    using outs set_holes by blast
  ultimately show ?thesis using outs mixed_all [of ps "set outs" ?key] by simp
qed

text \<open>
  C10. From the configuration to the backend: when \<open>Init\<close> accepts a URL pattern made of text and
  parameters, its URL keys are the parameters with their first letter in title case, and the path of
  a request generated from the rewritten pattern is the pattern as the configuration has it with
  every parameter replaced by the value the request has under its key (a parameter without a value
  stays as a placeholder).
\<close>

theorem url_pattern_to_path:
  assumes "\<forall>p \<in> set ps. cfg_piece_ok p"
    and "\<forall>c. is_url_key_char c \<longrightarrow> brace_free (ie_title env [c])"
    and "be_URLPattern b = concat (map cfg_text ps)" and "prefix ''/'' (be_URLPattern b)"
    and "initBackendURLMappings env e i inputs b = Inr b'"
    and "distinct (keys (rq_Params r))"
    and "\<forall>kv \<in> set (rq_Params r). brace_free (fst kv) \<and> CHR ''{'' \<notin> set (snd kv)"
  shows "set (be_URLKeys b') = param_key (ie_title env) ` set (concat (map piece_holes ps)) \<and>
    rq_Path (GeneratePath (be_URLPattern b') r) =
      concat (map (path_text \<circ> fill (rq_Params r) \<circ> rename_hole (param_key (ie_title env))) ps)"
proof -
  let ?key = "param_key (ie_title env)" and ?ps = "map (rename_hole (param_key (ie_title env))) ps"
  have ok: "\<forall>p \<in> set ?ps. path_piece_ok p"
  proof
    fix q
    assume "q \<in> set ?ps"
    then obtain p where "p \<in> set ps" "q = rename_hole ?key p" by auto
    with assms(1) key_brace_free [OF assms(2)] show "path_piece_ok q"
      by (cases p) (auto simp: brace_free_def)
  qed
  have "be_URLPattern b' = concat (map path_text ?ps)"
    using url_mappings_pattern [OF assms(1-5)] by (simp add: comp_def)
  then show ?thesis
    using url_mappings_pattern [OF assms(1-5)] rewrite_path [OF ok assms(6,7)]
    by (simp add: comp_def)
qed

section \<open>What Init establishes\<close>

definition backend_ready :: "endpoint_config \<Rightarrow> backend \<Rightarrow> bool" where
  "backend_ready e b \<longleftrightarrow>
     be_ParentEndpoint b = ep_Endpoint e \<and> be_ParentEndpointMethod b = ep_Method e \<and>
     be_Timeout b = ep_Timeout e \<and> be_ConcurrentCalls b = ep_ConcurrentCalls e \<and>
     be_Method b \<noteq> [] \<and> be_SDScheme b \<noteq> [] \<and> be_Decoder b \<noteq> None \<and>
     (ep_OutputEncoding e = NOOP \<longrightarrow> be_Encoding b = NOOP) \<and>
     (\<not> be_HostSanitizationDisabled b \<longrightarrow> (\<forall>h \<in> set (be_Host b). clean_host h)) \<and>
     prefix ''/'' (be_URLPattern b)"

definition endpoint_ready :: "endpoint_config \<Rightarrow> bool" where
  "endpoint_ready e \<longleftrightarrow>
     prefix ''/'' (ep_Endpoint e) \<and> ep_Method e \<noteq> [] \<and> ep_ConcurrentCalls e \<noteq> 0 \<and>
     ep_Timeout e \<noteq> 0 \<and> ep_OutputEncoding e \<noteq> [] \<and> ep_Backend e \<noteq> [] \<and>
     (ep_OutputEncoding e = NOOP \<longrightarrow> length (ep_Backend e) = 1) \<and>
     (\<forall>b \<in> set (ep_Backend e). backend_ready e b)"

definition agent_ready :: "async_agent \<Rightarrow> bool" where
  "agent_ready a \<longleftrightarrow>
     cs_Timeout (aa_Consumer a) \<noteq> 0 \<and> 1 \<le> cs_Workers (aa_Consumer a) \<and>
     Second \<le> cn_HealthInterval (aa_Connection a) \<and>
     (\<forall>b \<in> set (aa_Backend a). be_Method b \<noteq> [] \<and> be_Decoder b \<noteq> None \<and>
        be_Timeout b = cs_Timeout (aa_Consumer a) \<and>
        (\<not> be_HostSanitizationDisabled b \<longrightarrow> (\<forall>h \<in> set (be_Host b). clean_host h)))"

definition config_ready :: "service_config \<Rightarrow> bool" where
  "config_ready s \<longleftrightarrow>
     sc_Version s = ConfigVersion \<and> sc_Port s \<noteq> 0 \<and> sc_Timeout s \<noteq> 0 \<and>
     sc_MaxIdleConnsPerHost s \<noteq> 0 \<and> (\<forall>h \<in> set (sc_Host s). clean_host h) \<and>
     (\<forall>e \<in> set (sc_Endpoints s). endpoint_ready e) \<and> (\<forall>a \<in> set (sc_AsyncAgents s). agent_ready a)"

lemma host_err_Inr: "host_err r = Inr x \<longleftrightarrow> r = Inr x"
  by (cases r) (simp_all add: host_err_def)

lemma clean_backend_hosts_ok:
  assumes "clean_backend_hosts hosts b = Inr b'" and "\<forall>h \<in> set hosts. clean_host h"
  shows "\<exists>hs. b' = b\<lparr>be_Host := hs\<rparr> \<and>
    (\<not> be_HostSanitizationDisabled b \<longrightarrow> (\<forall>h \<in> set hs. clean_host h))"
proof -
  have "b = b\<lparr>be_Host := be_Host b\<rparr>" by simp
  with assms show ?thesis
    unfolding clean_backend_hosts_def
    by (auto simp: ebind_eq_Inr host_err_Inr split: if_splits dest: SafeCleanHosts_clean
        intro: exI [of _ "be_Host b"])
qed

lemma map_outputs_frame:
  "map_outputs env err inputs outs b = Inr b' \<Longrightarrow>
     \<exists>p ks. b' = b\<lparr>be_URLPattern := p, be_URLKeys := ks\<rparr> \<and>
       (prefix ''/'' (be_URLPattern b) \<longrightarrow> prefix ''/'' p)"
proof (induction outs arbitrary: b)
  case Nil
  then have "b' = b\<lparr>be_URLPattern := be_URLPattern b, be_URLKeys := be_URLKeys b\<rparr>" by simp
  then show ?case by blast
next
  case (Cons out outs)
  let ?p = "replace_all (''{'' @ out @ ''}'') (''{{.'' @ param_key (ie_title env) out @ ''}}'') (be_URLPattern b)"
  let ?b = "b\<lparr>be_URLPattern := ?p, be_URLKeys := be_URLKeys b @ [param_key (ie_title env) out]\<rparr>"
  have "map_outputs env err inputs outs ?b = Inr b'"
    using Cons.prems by (auto simp: Let_def split: if_splits)
  from Cons.IH [OF this] obtain p ks where "b' = b\<lparr>be_URLPattern := p, be_URLKeys := ks\<rparr>"
    and p: "prefix ''/'' ?p \<longrightarrow> prefix ''/'' p" by auto
  moreover have "prefix ''/'' ?p" if "prefix ''/'' (be_URLPattern b)"
    using that by (cases "be_URLPattern b") auto
  ultimately show ?case by blast
qed

lemma url_mappings_frame:
  assumes "initBackendURLMappings env e i inputs b = Inr b'"
  shows "\<exists>p ks. b' = b\<lparr>be_URLPattern := p, be_URLKeys := ks\<rparr> \<and> prefix ''/'' p"
proof -
  obtain outs n where u: "uniqueOutput (ie_sequential env) (extractPlaceHoldersFromURLTemplate
      (CleanPath (be_URLPattern b)) simpleURLKeysPattern) = (outs, n)"
    by fastforce
  with assms obtain err where run: "map_outputs env err inputs outs
      (b\<lparr>be_URLPattern := CleanPath (be_URLPattern b), be_URLKeys := []\<rparr>) = Inr b'"
    by (auto simp: initBackendURLMappings_def Let_def split: if_splits)
  from map_outputs_frame [OF run] show ?thesis by (auto simp: CleanPath_def)
qed

text \<open>A default as one update, so that a chain of defaults is a chain of updates.\<close>

lemma be_default:
  "(if c then b\<lparr>be_Method := m\<rparr> else b) = b\<lparr>be_Method := if c then m else be_Method b\<rparr>"
  "(if c then b\<lparr>be_Encoding := m\<rparr> else b) = b\<lparr>be_Encoding := if c then m else be_Encoding b\<rparr>"
  "(if c then b\<lparr>be_SDScheme := m\<rparr> else b) = b\<lparr>be_SDScheme := if c then m else be_SDScheme b\<rparr>"
  by simp_all

lemma default_empty: "(if x = [] then d else x) = [] \<longleftrightarrow> x = [] \<and> d = []"
  by simp

lemma default_zero: "(if x = 0 then d else x) = 0 \<longleftrightarrow> x = 0 \<and> d = (0::int)"
  by simp

lemma default_given: "(if x \<noteq> [] then x else d) = [] \<longleftrightarrow> x = [] \<and> d = []"
  by simp

lemma initBackendDefaults_eq:
  "initBackendDefaults env s e b =
     ebind (clean_backend_hosts (sc_Host s) b) (\<lambda>b.
       let enc = (if ep_OutputEncoding e = NOOP then NOOP else be_Encoding b) in
       Inr (b\<lparr>be_Method := if be_Method b = [] then ep_Method e else be_Method b,
              be_Encoding := enc, be_Timeout := ep_Timeout e,
              be_ConcurrentCalls := ep_ConcurrentCalls e,
              be_Decoder := Some (backend_decoder env (b\<lparr>be_Encoding := enc\<rparr>)),
              be_HeadersToPass := map CanonicalMIMEHeaderKey (be_HeadersToPass b),
              be_SDScheme := if be_SDScheme b = [] then ''http'' else be_SDScheme b\<rparr>))"
  unfolding initBackendDefaults_def be_default Let_def
  by (rule arg_cong [of _ _ "ebind _"]) (simp add: fun_eq_iff backend_decoder_def)

lemma init_backend_ready:
  assumes "init_backend env s e inputs i b = Inr b'" and "ep_Method e \<noteq> []"
    and "\<forall>h \<in> set (sc_Host s). clean_host h"
  shows "backend_ready e b'"
proof -
  let ?b0 = "b\<lparr>be_ParentEndpoint := ep_Endpoint e, be_ParentEndpointMethod := ep_Method e\<rparr>"
  obtain b1 b2 where b1: "initBackendDefaults env s e ?b0 = Inr b1"
    and b2: "initBackendURLMappings env e i inputs b1 = Inr b2"
    and b': "b' = b2\<lparr>be_ExtraConfig := sanitize (ie_show env) (be_ExtraConfig b2)\<rparr>"
    using assms(1) by (auto simp: init_backend_def ebind_eq_Inr)
  obtain h where h: "clean_backend_hosts (sc_Host s) ?b0 = Inr h"
    using b1 by (auto simp: initBackendDefaults_def ebind_eq_Inr)
  then obtain hs where hs: "h = ?b0\<lparr>be_Host := hs\<rparr>"
      "\<not> be_HostSanitizationDisabled b \<longrightarrow> (\<forall>h \<in> set hs. clean_host h)"
    using clean_backend_hosts_ok [OF h assms(3)] by auto
  have "backend_ready e (b1\<lparr>be_URLPattern := ''/''\<rparr>)"
    using b1 hs(2) assms(2) unfolding backend_ready_def initBackendDefaults_eq h hs(1)
    by (auto simp: Let_def default_empty cong: if_cong)
  moreover obtain p ks where "b2 = b1\<lparr>be_URLPattern := p, be_URLKeys := ks\<rparr>" "prefix ''/'' p"
    using url_mappings_frame [OF b2] by blast
  ultimately show ?thesis using b' by (auto simp: backend_ready_def)
qed

lemma ep_default:
  "(if c then e\<lparr>ep_Method := m\<rparr> else e) = e\<lparr>ep_Method := if c then m else ep_Method e\<rparr>"
  "(if c then e\<lparr>ep_CacheTTL := i\<rparr> else e) = e\<lparr>ep_CacheTTL := if c then i else ep_CacheTTL e\<rparr>"
  "(if c then e\<lparr>ep_Timeout := i\<rparr> else e) = e\<lparr>ep_Timeout := if c then i else ep_Timeout e\<rparr>"
  "(if c then e\<lparr>ep_ConcurrentCalls := i\<rparr> else e) =
     e\<lparr>ep_ConcurrentCalls := if c then i else ep_ConcurrentCalls e\<rparr>"
  "(if c then e\<lparr>ep_OutputEncoding := m\<rparr> else e) =
     e\<lparr>ep_OutputEncoding := if c then m else ep_OutputEncoding e\<rparr>"
  by simp_all

lemma initEndpointDefaults_ok:
  assumes "initEndpointDefaults s e = e'" and "sc_Timeout s \<noteq> 0"
  shows "ep_Method e' \<noteq> []" "ep_Timeout e' \<noteq> 0" "ep_ConcurrentCalls e' \<noteq> 0"
    "ep_OutputEncoding e' \<noteq> []" "ep_Backend e' = ep_Backend e" "ep_Endpoint e' = ep_Endpoint e"
  using assms unfolding initEndpointDefaults_def Let_def ep_default
  by (auto simp: default_empty default_zero default_given cong: if_cong)

lemma GetEndpointPath_slash:
  assumes "prefix ''/'' path"
  shows "prefix ''/'' (GetEndpointPath u path params)"
proof -
  have "prefix ''/'' (colon_param p r)" if rooted: "prefix ''/'' r" for p r
  proof -
    obtain r' where r: "r = CHR ''/'' # r'" using rooted by (cases r) auto
    obtain w ws where "split_on CHR ''?'' r' = w # ws" by (cases "split_on CHR ''?'' r'") auto
    then show ?thesis using r by (cases ws) (simp_all add: Let_def)
  qed
  then have "prefix ''/'' (fold colon_param params path)"
    using assms by (induction params arbitrary: path) auto
  with assms show ?thesis by (simp add: GetEndpointPath_def)
qed

lemma init_endpoint_ready:
  assumes "init_endpoint env s e = Inr e'" and "sc_Timeout s \<noteq> 0"
    and "\<forall>h \<in> set (sc_Host s). clean_host h"
  shows "endpoint_ready e'"
proof -
  let ?e0 = "e\<lparr>ep_Endpoint := CleanPath (ep_Endpoint e)\<rparr>"
  let ?inputs = "extractPlaceHoldersFromURLTemplate (ep_Endpoint ?e0) (paramExtractionPattern s)"
  obtain e1 where e1: "initEndpointDefaults s (?e0\<lparr>ep_HeadersToPass := map CanonicalMIMEHeaderKey (ep_HeadersToPass e),
      ep_Endpoint := GetEndpointPath (ie_routing env) (ep_Endpoint ?e0) ?inputs\<rparr>) = e1"
    by blast
  note ok = initEndpointDefaults_ok [OF e1 assms(2)]
  let ?e2 = "e1\<lparr>ep_ExtraConfig := sanitize (ie_show env) (ep_ExtraConfig e1)\<rparr>"
  obtain bs where valid: "validate env ?e0 = Inr ()"
    and noop: "\<not> (ep_OutputEncoding e1 = NOOP \<and> length (ep_Backend e1) > 1)"
    and bs: "emap (init_backend env s ?e2 ?inputs) 0 (ep_Backend e1) = Inr bs"
    and e': "e' = ?e2\<lparr>ep_Backend := bs\<rparr>"
    using assms(1) e1 by (auto simp: init_endpoint_def Let_def ebind_eq_Inr split: if_splits)
  have "ep_Backend e \<noteq> []"
    using valid by (auto simp: validate_def split: sum.splits bool.splits if_splits)
  then have len: "length bs = length (ep_Backend e)" "bs \<noteq> []"
    using emap_length [OF bs] ok(5) by auto
  have "backend_ready ?e2 b" if "b \<in> set bs" for b
    using emap_Inr_set [OF bs that] init_backend_ready [OF _ _ assms(3), of env ?e2] ok(1) by auto
  then have "\<forall>b \<in> set bs. backend_ready e' b" by (simp add: e' backend_ready_def)
  moreover have "prefix ''/'' (ep_Endpoint e')"
    using GetEndpointPath_slash [of "CleanPath (ep_Endpoint e)"] ok(6) by (simp add: e' CleanPath_def)
  moreover have "ep_OutputEncoding e1 = NOOP \<longrightarrow> length bs = 1"
    using noop len ok(5) by (cases bs) auto
  ultimately show ?thesis
    using ok(1-5) len by (simp add: endpoint_ready_def e')
qed

lemma init_agent_ready:
  assumes "init_agent env s a = Inr a'" and "sc_Timeout s \<noteq> 0"
    and "\<forall>h \<in> set (sc_Host s). clean_host h"
  shows "agent_ready a'"
proof -
  let ?a = "(initAsyncAgentDefaults s a)\<lparr>aa_ExtraConfig := sanitize (ie_show env)
      (aa_ExtraConfig (initAsyncAgentDefaults s a))\<rparr>"
  obtain bs where bs: "emap (\<lambda>_. init_agent_backend env s ?a) 0 (aa_Backend ?a) = Inr bs"
    and a': "a' = ?a\<lparr>aa_Backend := bs\<rparr>"
    using assms(1) by (auto simp: init_agent_def Let_def ebind_eq_Inr)
  have "be_Method b' \<noteq> [] \<and> be_Decoder b' \<noteq> None \<and> be_Timeout b' = cs_Timeout (aa_Consumer ?a) \<and>
      (\<not> be_HostSanitizationDisabled b' \<longrightarrow> (\<forall>h \<in> set (be_Host b'). clean_host h))"
    if b': "b' \<in> set bs" for b'
  proof -
    obtain b where b: "init_agent_backend env s ?a b = Inr b'" using emap_Inr_set [OF bs b'] by auto
    then obtain h where h: "clean_backend_hosts (sc_Host s) b = Inr h"
      by (auto simp: init_agent_backend_def ebind_eq_Inr)
    from clean_backend_hosts_ok [OF h assms(3)] obtain hs where "h = b\<lparr>be_Host := hs\<rparr>"
      "\<not> be_HostSanitizationDisabled b \<longrightarrow> (\<forall>h \<in> set hs. clean_host h)" by auto
    with b show ?thesis unfolding init_agent_backend_def h be_default
      by (auto simp: Let_def default_empty cong: if_cong)
  qed
  moreover have "cs_Timeout (aa_Consumer ?a) \<noteq> 0 \<and> 1 \<le> cs_Workers (aa_Consumer ?a) \<and>
      Second \<le> cn_HealthInterval (aa_Connection ?a)"
    using assms(2) by (simp add: initAsyncAgentDefaults_def Let_def)
  ultimately show ?thesis by (simp add: agent_ready_def a')
qed

lemma initGlobalParams_ok:
  assumes "initGlobalParams env s = Inr s'"
  shows "sc_Version s' = sc_Version s" "sc_Port s' \<noteq> 0" "sc_Timeout s' \<noteq> 0"
    "sc_MaxIdleConnsPerHost s' \<noteq> 0" "\<forall>h \<in> set (sc_Host s'). clean_host h"
  using assms
  by (auto simp: initGlobalParams_def Let_def ebind_eq_Inr host_err_Inr split: if_splits
      dest: SafeCleanHosts_clean)

lemma accepted_ready:
  assumes "Init env s = Inr s'"
  shows "config_ready s'"
proof -
  obtain g a where g: "initGlobalParams env s = Inr g" and a: "initAsyncAgents env g = Inr a"
    and s': "initEndpoints env a = Inr s'" and v: "sc_Version s = ConfigVersion"
    using assms by (auto simp: Init_def ebind_eq_Inr split: if_splits)
  note ok = initGlobalParams_ok [OF g]
  obtain ags where ags: "emap (\<lambda>_. init_agent env g) 0 (sc_AsyncAgents g) = Inr ags"
    and a_def: "a = g\<lparr>sc_AsyncAgents := ags\<rparr>"
    using a by (auto simp: initAsyncAgents_def ebind_eq_Inr)
  obtain es where es: "emap (\<lambda>_. init_endpoint env a) 0 (sc_Endpoints a) = Inr es"
    and s'_def: "s' = a\<lparr>sc_Endpoints := es\<rparr>"
    using s' by (auto simp: initEndpoints_def ebind_eq_Inr)
  have "agent_ready x" if "x \<in> set ags" for x
    using emap_Inr_set [OF ags that] init_agent_ready [OF _ ok(3,5)] by auto
  moreover have "endpoint_ready x" if "x \<in> set es" for x
    using emap_Inr_set [OF es that] init_endpoint_ready [of env a] ok(3,5) by (auto simp: a_def)
  ultimately show ?thesis using ok v by (simp add: config_ready_def s'_def a_def)
qed


section \<open>A configuration\<close>

definition zero_service :: service_config where
  "zero_service =
     \<lparr>sc_Name = [], sc_Endpoints = [], sc_AsyncAgents = [], sc_Timeout = 0, sc_CacheTTL = 0,
      sc_Host = [], sc_Port = 0, sc_Address = [], sc_Version = 0, sc_OutputEncoding = [],
      sc_ExtraConfig = [], sc_ReadTimeout = 0, sc_WriteTimeout = 0, sc_IdleTimeout = 0,
      sc_ReadHeaderTimeout = 0, sc_MaxHeaderBytes = 0, sc_DisableKeepAlives = False,
      sc_DisableCompression = False, sc_MaxIdleConns = 0, sc_MaxIdleConnsPerHost = 0,
      sc_IdleConnTimeout = 0, sc_ResponseHeaderTimeout = 0, sc_ExpectContinueTimeout = 0,
      sc_DialerTimeout = 0, sc_DialerFallbackDelay = 0, sc_DialerKeepAlive = 0,
      sc_DisableStrictREST = False, sc_Plugin = None, sc_TLS = None, sc_UseH2C = False,
      sc_Debug = False, sc_Echo = False, sc_SequentialStart = False,
      sc_AllowInsecureConnections = False, sc_ClientTLS = None, sc_DNSCacheTTL = 0,
      sc_MaxShutdownDuration = 0\<rparr>"

definition sample_init_env :: init_env where
  "sample_init_env =
     \<lparr>ie_title = to_upper, ie_ip_ok = (\<lambda>_. True), ie_show = (\<lambda>_. ''?''),
      ie_invalid = (\<lambda>p. Inr (invalidPattern p)), ie_sequential = is_sequential_param,
      ie_routing = ColonRouterPatternBuilder, ie_decoders = initDecoderRegister\<rparr>"

definition sample_init_backend :: backend where
  "sample_init_backend = zero_backend\<lparr>be_URLPattern := ''/a/{id}''\<rparr>"

definition sample_service :: service_config where
  "sample_service = zero_service\<lparr>sc_Version := 3, sc_Host := [''b:80''],
     sc_Endpoints := [zero_endpoint\<lparr>ep_Endpoint := ''/u/{id}'', ep_Backend := [sample_init_backend]\<rparr>]\<rparr>"

lemma sample_service_accepted: "\<not> isl (Init sample_init_env sample_service)"
  by code_simp


lemma upper_char_no_brace:
  assumes "is_url_key_char c"
  shows "upper_char c \<noteq> CHR ''{'' \<and> upper_char c \<noteq> CHR ''}''"
proof (cases "is_lower c")
  case True
  then have "of_char c \<le> (122 :: nat)" by (simp add: is_lower_def less_eq_char_def)
  then have "of_char (upper_char c) \<le> (90 :: nat)" using True by (simp add: upper_char_def)
  then show ?thesis by (cases "upper_char c = CHR ''{''"; cases "upper_char c = CHR ''}''") auto
next
  case False
  then show ?thesis using assms url_key_no_brace by (simp add: upper_char_def)
qed

definition sample_pieces :: "path_piece list" where
  "sample_pieces = [Lit ''/a/'', Hole ''id'']"

definition sample_path_request :: request where
  "sample_path_request =
     \<lparr>rq_Method = ''GET'', rq_URL = None, rq_Query = None, rq_Path = [], rq_Body = None,
      rq_Params = [(''Id'', ''42'')], rq_Headers = []\<rparr>"

lemma sample_mapping_accepted:
  "\<not> isl (initBackendURLMappings sample_init_env zero_endpoint 0 [''id''] sample_init_backend)"
  by code_simp

theorem url_pattern_to_path_witness:
  "rq_Path (GeneratePath (be_URLPattern (projr (initBackendURLMappings sample_init_env
      zero_endpoint 0 [''id''] sample_init_backend))) sample_path_request) = ''/a/42''"
proof -
  have run: "initBackendURLMappings sample_init_env zero_endpoint 0 [''id''] sample_init_backend =
      Inr (projr (initBackendURLMappings sample_init_env zero_endpoint 0 [''id''] sample_init_backend))"
    using sample_mapping_accepted by (simp add: sum.collapse)
  have title: "\<forall>c. is_url_key_char c \<longrightarrow> brace_free (ie_title sample_init_env [c])"
    using upper_char_no_brace by (fastforce simp: sample_init_env_def brace_free_def to_upper_def)
  have pieces: "\<forall>p \<in> set sample_pieces. cfg_piece_ok p" by code_simp
  have pat: "be_URLPattern sample_init_backend = concat (map cfg_text sample_pieces)"
      "prefix ''/'' (be_URLPattern sample_init_backend)"
    by code_simp+
  have params: "distinct (keys (rq_Params sample_path_request))"
      "\<forall>kv \<in> set (rq_Params sample_path_request). brace_free (fst kv) \<and> CHR ''{'' \<notin> set (snd kv)"
    by code_simp+
  have "concat (map (path_text \<circ> fill (rq_Params sample_path_request) \<circ>
      rename_hole (param_key (ie_title sample_init_env))) sample_pieces) = ''/a/42''"
    by code_simp
  with url_pattern_to_path [OF pieces title pat run params] show ?thesis by simp
qed

theorem url_mappings_checked_witness:
  "(\<exists>b'. initBackendURLMappings sample_init_env zero_endpoint 0 [''id''] sample_init_backend = Inr b') \<and>
   (\<nexists>b'. initBackendURLMappings sample_init_env zero_endpoint 0 [''name''] sample_init_backend = Inr b')"
proof -
  let ?good = "\<lambda>inputs. \<forall>out \<in> set (extractPlaceHoldersFromURLTemplate
      (CleanPath (be_URLPattern sample_init_backend)) simpleURLKeysPattern).
      ie_sequential sample_init_env out \<or> out \<in> set inputs"
  have "?good [''id'']" "\<not> ?good [''name'']" by code_simp+
  then show ?thesis by (simp only: url_mappings_checked) simp
qed

text \<open>
  Parameters that differ in the case of their first letter get the same key, so that one value
  takes the place of both.
\<close>

lemma keys_collide:
  "be_URLPattern (projr (initBackendURLMappings sample_init_env zero_endpoint 0 [''id'', ''Id'']
      (zero_backend\<lparr>be_URLPattern := ''/{id}/{Id}''\<rparr>))) = ''/{{.Id}}/{{.Id}}''"
  by code_simp

end
