(* ===== verification/Proxy_Formatter.thy ===== *)
theory Proxy_Formatter
  imports Config_Types
begin

text \<open>
  \<open>proxy/formatter.go\<close>: what a backend's answer becomes before it is merged. The entity formatter
  extracts the target, applies the allow list or the deny list, renames fields and wraps the data
  in the group; the flatmap formatter runs configured operations on a flattened tree instead.

  Maps the code changes in place are returned changed. The flatmap tree is the library
  \<open>github.com/krakend/flatmap\<close>, a parameter (\<open>flat_lib\<close>).
\<close>

section \<open>Allow lists\<close>

text \<open>
  \<open>buildDictPath(accumulator, fields)\<close> returns the map at a path of the dictionary, making the missing
  part (and replacing what is not a map); the caller then stores into it. Here the store is the
  argument \<open>f\<close>, applied to that map.
\<close>

fun buildDictPath ::
  "value gmap \<Rightarrow> string list \<Rightarrow> (value gmap \<Rightarrow> value gmap) \<Rightarrow> value gmap" where
  "buildDictPath p [] f = f p"
| "buildDictPath p (fld # flds) f =
     mput fld (VObj (buildDictPath
        (case obind (map_of p fld) as_obj of Some c \<Rightarrow> c | None \<Rightarrow> []) flds f)) p"

definition allow_insert :: "string list \<Rightarrow> value gmap \<Rightarrow> value gmap" where
  "allow_insert wlFields wlDict =
     buildDictPath wlDict (butlast wlFields) (mput (last wlFields) (VBool True))"

definition allow_dict :: "string list \<Rightarrow> value gmap" where
  "allow_dict al = fold (\<lambda>k. allow_insert (split_on CHR ''.'' k)) al []"

text \<open>
  \<open>AllowlistPrune(wlDict, inDict)\<close>: the result and the pruned \<open>inDict\<close>. The loop visits the keys
  of \<open>inDict\<close>; an entry the loop deletes (\<open>deleteSibling\<close>) is \<^const>\<open>None\<close>, and
  \<open>prune_entry\<close> puts an entry before what the loop makes of its siblings.
\<close>

definition prune_entry ::
  "string \<Rightarrow> value option \<Rightarrow> bool \<times> value gmap \<Rightarrow> bool \<times> value gmap" where
  "prune_entry k kept siblings =
     (case kept of None \<Rightarrow> siblings | Some v \<Rightarrow> (False, (k, v) # snd siblings))"

function AllowlistPrune :: "value gmap \<Rightarrow> value gmap \<Rightarrow> bool \<times> value gmap" where
  "AllowlistPrune wlDict [] = (True, [])"
| "AllowlistPrune wlDict ((k, v) # inDict) =
     prune_entry k
       (case map_of wlDict k of
           None \<Rightarrow> None
         | Some (VObj subWlDict) \<Rightarrow>
             (case v of
                VObj subInDict \<Rightarrow>
                  (case AllowlistPrune subWlDict subInDict of
                     (True, _) \<Rightarrow> None
                   | (False, sub) \<Rightarrow> Some (VObj sub))
              | _ \<Rightarrow> None)
         | Some _ \<Rightarrow> Some v)
       (AllowlistPrune wlDict inDict)"
  by pat_completeness auto
termination
  by (relation "measure (\<lambda>(wl, ind). size (VObj ind))") auto

text \<open>The filter built from an allow list, on the data of a response.\<close>

definition newAllowlistingFilter :: "string list \<Rightarrow> value gmap \<Rightarrow> value gmap option" where
  "newAllowlistingFilter al data =
     (case AllowlistPrune (allow_dict al) data of
        (canDelete, pruned) \<Rightarrow> Some (if canDelete then [] else pruned))"

section \<open>Deny lists\<close>

text \<open>
  A node of the tree is \<^const>\<open>VNil\<close> (delete it) or a map (look below). The type assertion of
  \<open>recDelete\<close> panics on any other node: the result is then \<^const>\<open>None\<close>.
\<close>

fun buildDenyTree :: "string list \<Rightarrow> value gmap \<Rightarrow> value gmap" where
  "buildDenyTree [] tree = tree"
| "buildDenyTree [n] tree = mput n VNil tree"
| "buildDenyTree (n # m # path) tree =
     (case map_of tree n of
        Some VNil \<Rightarrow> tree
      | Some (VObj childTree) \<Rightarrow> mput n (VObj (buildDenyTree (m # path) childTree)) tree
      | Some _ \<Rightarrow> mput n VNil tree
      | None \<Rightarrow> mput n (VObj (buildDenyTree (m # path) [])) tree)"

definition deny_tree :: "string list \<Rightarrow> value gmap" where
  "deny_tree bl = fold (\<lambda>key. buildDenyTree (split_on CHR ''.'' key)) bl []"

function recDelete :: "value gmap \<Rightarrow> value \<Rightarrow> value option" where
  "recDelete [] v = Some v"
| "recDelete ((rk, rv) # ref) v =
     (case v of
        VObj m \<Rightarrow>
          (case map_of m rk of
             None \<Rightarrow> recDelete ref v
           | Some dv \<Rightarrow>
               (case rv of
                  VNil \<Rightarrow> recDelete ref (VObj (mdel rk m))
                | VObj sub \<Rightarrow>
                    (case recDelete sub dv of
                       None \<Rightarrow> None
                     | Some dv' \<Rightarrow> recDelete ref (VObj (mput rk dv' m)))
                | _ \<Rightarrow> None))
      | _ \<Rightarrow> Some v)"
  by pat_completeness auto
termination
  by (relation "measure (\<lambda>(ref, v). size (VObj ref))") auto

definition newDenylistingFilter :: "string list \<Rightarrow> value gmap \<Rightarrow> value gmap option" where
  "newDenylistingFilter bl data = obind (recDelete (deny_tree bl) (VObj data)) as_obj"

section \<open>Targets and mappings\<close>

fun extract_parts :: "string list \<Rightarrow> value gmap \<Rightarrow> value gmap" where
  "extract_parts [] data = data"
| "extract_parts (part # parts) data =
     (case map_of data part of
        None \<Rightarrow> []
      | Some tmp \<Rightarrow> (case as_obj tmp of None \<Rightarrow> [] | Some d \<Rightarrow> extract_parts parts d))"

definition extractTarget :: "string \<Rightarrow> response \<Rightarrow> response" where
  "extractTarget target entity =
     entity\<lparr>rs_Data := Some (extract_parts (split_on CHR ''.'' target) (data_of entity))\<rparr>"

text \<open>The renaming loop; the list order is the order Go's \<open>range\<close> visits the mapping.\<close>

definition map_field :: "string \<times> string \<Rightarrow> value gmap \<Rightarrow> value gmap" where
  "map_field fn data =
     (case map_of data (fst fn) of
        None \<Rightarrow> data
      | Some v \<Rightarrow> mdel (fst fn) (mput (snd fn) v data))"

definition apply_mapping :: "string gmap \<Rightarrow> value gmap \<Rightarrow> value gmap" where
  "apply_mapping mapping data = fold map_field mapping data"

definition sanitized_mappings :: "string gmap \<Rightarrow> string gmap" where
  "sanitized_mappings mapping = map (\<lambda>(i, m). (i, hd (split_on CHR ''.'' m))) mapping"

section \<open>The entity formatter\<close>

record entityFormatter =
  ef_Target :: string
  ef_Prefix :: string
  ef_PropertyFilter :: "value gmap \<Rightarrow> value gmap option"
  ef_Mapping :: "string gmap"

definition wrap_group :: "string \<Rightarrow> response \<Rightarrow> response" where
  "wrap_group pre entity =
     (if pre = [] then entity
      else entity\<lparr>rs_Data := Some [(pre, VObj (data_of entity))]\<rparr>)"

definition entityFormatter_Format :: "entityFormatter \<Rightarrow> response \<Rightarrow> response option" where
  "entityFormatter_Format e entity =
     (let entity = (if ef_Target e = [] then entity else extractTarget (ef_Target e) entity) in
      case (if data_of entity = [] then Some entity
            else map_option (\<lambda>d. entity\<lparr>rs_Data := Some d\<rparr>)
                   (ef_PropertyFilter e (data_of entity))) of
        None \<Rightarrow> None
      | Some entity \<Rightarrow>
          Some (wrap_group (ef_Prefix e)
            (if data_of entity = [] then entity
             else entity\<lparr>rs_Data := Some (apply_mapping (ef_Mapping e) (data_of entity))\<rparr>)))"

section \<open>The flatmap formatter\<close>

record flatmapOp =
  fo_Type :: string
  fo_Args :: "string list list"

record flatmapFormatter =
  ff_Target :: string
  ff_Prefix :: string
  ff_Ops :: "flatmapOp list"

text \<open>\<open>tree.New\<close>, the operations on the tree, and its root read back as a map (nil if it is none).\<close>

record 't flat_lib =
  ft_New :: "value gmap \<Rightarrow> 't option"
  ft_Move :: "string list \<Rightarrow> string list \<Rightarrow> 't \<Rightarrow> 't"
  ft_Append :: "string list \<Rightarrow> string list \<Rightarrow> 't \<Rightarrow> 't"
  ft_Del :: "string list \<Rightarrow> 't \<Rightarrow> 't"
  ft_Get :: "'t \<Rightarrow> value gmap option"

text \<open>One operation: too few arguments to \<open>move\<close> or \<open>append\<close> is an index out of range.\<close>

definition flatmap_op :: "'t flat_lib \<Rightarrow> flatmapOp \<Rightarrow> 't \<Rightarrow> 't option" where
  "flatmap_op lib op t =
     (if fo_Type op = ''move'' then
        (case fo_Args op of a # b # _ \<Rightarrow> Some (ft_Move lib a b t) | _ \<Rightarrow> None)
      else if fo_Type op = ''append'' then
        (case fo_Args op of a # b # _ \<Rightarrow> Some (ft_Append lib a b t) | _ \<Rightarrow> None)
      else if fo_Type op = ''del'' then Some (fold (ft_Del lib) (fo_Args op) t)
      else Some t)"

fun flatmap_ops :: "'t flat_lib \<Rightarrow> flatmapOp list \<Rightarrow> 't \<Rightarrow> 't option" where
  "flatmap_ops lib [] t = Some t"
| "flatmap_ops lib (op # ops) t = obind (flatmap_op lib op t) (flatmap_ops lib ops)"

definition processOps :: "'t flat_lib \<Rightarrow> flatmapFormatter \<Rightarrow> response \<Rightarrow> response option" where
  "processOps lib e entity =
     (case ft_New lib (data_of entity) of
        None \<Rightarrow> Some entity
      | Some flatten \<Rightarrow>
          map_option (\<lambda>t. entity\<lparr>rs_Data := ft_Get lib t\<rparr>) (flatmap_ops lib (ff_Ops e) flatten))"

definition flatmapFormatter_Format ::
  "'t flat_lib \<Rightarrow> flatmapFormatter \<Rightarrow> response \<Rightarrow> response option" where
  "flatmapFormatter_Format lib e entity =
     map_option (wrap_group (ff_Prefix e))
       (processOps lib e
          (if ff_Target e = [] then entity else extractTarget (ff_Target e) entity))"

definition flatmap_parse_op :: "value \<Rightarrow> flatmapOp list" where
  "flatmap_parse_op v =
     (case as_obj v of
        None \<Rightarrow> []
      | Some m \<Rightarrow>
          (case obind (map_of m ''type'') as_str of
             None \<Rightarrow> []
           | Some t \<Rightarrow>
               [\<lparr>fo_Type = t,
                 fo_Args = (case obind (map_of m ''args'') as_arr of
                    None \<Rightarrow> []
                  | Some args \<Rightarrow> map (\<lambda>arg. case as_str arg of
                       Some s \<Rightarrow> split_on CHR ''.'' s | None \<Rightarrow> []) args)\<rparr>]))"

definition newFlatmapFormatter ::
  "extra_config \<Rightarrow> string \<Rightarrow> string \<Rightarrow> flatmapFormatter option" where
  "newFlatmapFormatter cfg target grp =
     (case section_of cfg proxy_Namespace of
        None \<Rightarrow> None
      | Some e \<Rightarrow>
          (case obind (map_of e ''flatmap_filter'') as_arr of
             None \<Rightarrow> None
           | Some vs \<Rightarrow>
               (let ops = concat (map flatmap_parse_op vs) in
                if ops = [] then None
                else Some \<lparr>ff_Target = target, ff_Prefix = grp, ff_Ops = ops\<rparr>)))"

section \<open>Choosing the formatter of a backend\<close>

datatype EntityFormatter = Flatmap flatmapFormatter | Entity entityFormatter

definition NewEntityFormatter :: "backend \<Rightarrow> EntityFormatter" where
  "NewEntityFormatter remote =
     (case newFlatmapFormatter (be_ExtraConfig remote) (be_Target remote) (be_Group remote) of
        Some ef \<Rightarrow> Flatmap ef
      | None \<Rightarrow>
          Entity \<lparr>ef_Target = be_Target remote, ef_Prefix = be_Group remote,
            ef_PropertyFilter =
              (if be_AllowList remote = [] then newDenylistingFilter (be_DenyList remote)
               else newAllowlistingFilter (be_AllowList remote)),
            ef_Mapping = sanitized_mappings (be_Mapping remote)\<rparr>)"

fun Format :: "'t flat_lib \<Rightarrow> EntityFormatter \<Rightarrow> response \<Rightarrow> response option" where
  "Format lib (Flatmap ff) r = flatmapFormatter_Format lib ff r"
| "Format lib (Entity ef) r = entityFormatter_Format ef r"

text \<open>
  The endpoint middleware: it dereferences the response without a test, so a nil response with a
  nil error is a panic.
\<close>

definition flatmap_proxy :: "'t flat_lib \<Rightarrow> flatmapFormatter \<Rightarrow> 'a proxy \<Rightarrow> 'a proxy" where
  "flatmap_proxy lib formatter next_p ctx request w =
     (case next_p ctx request w of
        (Panic s, r, w) \<Rightarrow> (Panic s, r, w)
      | (Ret resp (Some err), r, w) \<Rightarrow> (Ret resp (Some err), r, w)
      | (Ret None None, r, w) \<Rightarrow> (Panic ''nil pointer dereference'', r, w)
      | (Ret (Some resp) None, r, w) \<Rightarrow>
          (case flatmapFormatter_Format lib formatter resp of
             None \<Rightarrow> (Panic ''index out of range'', r, w)
           | Some res \<Rightarrow> (Ret (Some res) None, r, w)))"

definition NewFlatmapMiddleware ::
  "'t flat_lib \<Rightarrow> endpoint_config \<Rightarrow> 'a proxy list \<Rightarrow> 'a proxy built" where
  "NewFlatmapMiddleware lib cfg next_ps =
     (if length next_ps > 1 then BFatal
      else (case next_ps of
         [] \<Rightarrow> (case newFlatmapFormatter (ep_ExtraConfig cfg) [] [] of
                 None \<Rightarrow> BPanic
               | Some f \<Rightarrow> Built (\<lambda>ctx r w. (Panic ''index out of range'', r, w)))
       | p # _ \<Rightarrow>
           (case newFlatmapFormatter (ep_ExtraConfig cfg) [] [] of
              None \<Rightarrow> Built p
            | Some f \<Rightarrow> Built (flatmap_proxy lib f p))))"

section \<open>What an allow list keeps\<close>

text \<open>\<open>allow_covers wl p\<close>: a leaf of the dictionary lies on the path \<open>p\<close>.\<close>

fun allow_covers :: "value gmap \<Rightarrow> string list \<Rightarrow> bool" where
  "allow_covers wl [] = False"
| "allow_covers wl (k # p) =
     (case map_of wl k of
        None \<Rightarrow> False
      | Some (VObj sub) \<Rightarrow> allow_covers sub p
      | Some _ \<Rightarrow> True)"

lemma allow_insert_simps:
  "allow_insert [x] wl = mput x (VBool True) wl"
  "allow_insert (x # y # ys) wl =
     mput x (VObj (allow_insert (y # ys)
       (case obind (map_of wl x) as_obj of Some c \<Rightarrow> c | None \<Rightarrow> []))) wl"
  by (simp_all add: allow_insert_def)

lemma allow_covers_insert_sound:
  "path \<noteq> [] \<Longrightarrow> allow_covers (allow_insert path wl) p \<Longrightarrow> prefix path p \<or> allow_covers wl p"
proof (induction path arbitrary: wl p rule: induct_list012)
  case 1
  then show ?case by simp
next
  case (2 x)
  then show ?case
    by (cases p) (auto simp: allow_insert_simps gmap_simps split: if_splits)
next
  case (3 x y ys)
  show ?case
  proof (cases p)
    case Nil
    with 3 show ?thesis by simp
  next
    case (Cons k p')
    show ?thesis
    proof (cases "k = x")
      case True
      with 3 Cons have "prefix (y # ys) p' \<or>
          allow_covers (case obind (map_of wl x) as_obj of Some c \<Rightarrow> c | None \<Rightarrow> []) p'"
        by (auto simp: allow_insert_simps gmap_simps)
      with Cons True show ?thesis
        by (cases p'; cases "map_of wl x") (auto split: option.splits go_val_splits)
    next
      case False
      with 3 Cons show ?thesis by (auto simp: allow_insert_simps gmap_simps)
    qed
  qed
qed

lemma allow_covers_insert:
  "path \<noteq> [] \<Longrightarrow> \<not> allow_covers wl (butlast path) \<Longrightarrow>
   allow_covers (allow_insert path wl) p \<longleftrightarrow> prefix path p \<or> allow_covers wl p"
proof (induction path arbitrary: wl p rule: induct_list012)
  case 1
  then show ?case by simp
next
  case (2 x)
  then show ?case
    by (cases p) (auto simp: allow_insert_simps gmap_simps split: if_splits)
next
  case (3 x y ys)
  show ?case
  proof (cases p)
    case Nil
    with 3 show ?thesis by simp
  next
    case (Cons k p')
    show ?thesis
    proof (cases "k = x")
      case True
      let ?c = "case obind (map_of wl x) as_obj of Some c \<Rightarrow> c | None \<Rightarrow> []"
      have c: "allow_covers wl (x # q) \<longleftrightarrow> allow_covers ?c q" for q
        using 3(4)
        by (cases q; cases "map_of wl x") (auto split: go_val_splits)
      have nc: "\<not> allow_covers ?c (butlast (y # ys))"
        using 3(4) c by simp
      with 3(2) [of ?c p'] c Cons True show ?thesis
        by (simp add: allow_insert_simps gmap_simps)
    next
      case False
      with Cons show ?thesis by (auto simp: allow_insert_simps gmap_simps)
    qed
  qed
qed

lemma allow_dict_snoc:
  "allow_dict (al @ [k]) = allow_insert (split_on CHR ''.'' k) (allow_dict al)"
  by (simp add: allow_dict_def)

lemma allow_dict_sound:
  "allow_covers (allow_dict al) p \<Longrightarrow> \<exists>k \<in> set al. prefix (split_on CHR ''.'' k) p"
proof (induction al rule: rev_induct)
  case Nil
  then show ?case by (cases p) (simp_all add: allow_dict_def)
next
  case (snoc k al)
  then show ?case
    using allow_covers_insert_sound [of "split_on CHR ''.'' k" "allow_dict al" p]
    by (auto simp: allow_dict_snoc)
qed

text \<open>Exact when no entry extends an earlier one.\<close>

definition no_extension :: "string list \<Rightarrow> bool" where
  "no_extension al \<longleftrightarrow>
     sorted_wrt (\<lambda>k k'. \<not> strict_prefix (split_on CHR ''.'' k) (split_on CHR ''.'' k')) al"

lemma allow_dict_covers:
  "no_extension al \<Longrightarrow>
   allow_covers (allow_dict al) p \<longleftrightarrow> (\<exists>k \<in> set al. prefix (split_on CHR ''.'' k) p)"
proof (induction al arbitrary: p rule: rev_induct)
  case Nil
  then show ?case by (cases p) (simp_all add: allow_dict_def)
next
  case (snoc k al)
  let ?path = "split_on CHR ''.'' k"
  have ne: "no_extension al" and fresh: "\<forall>k' \<in> set al. \<not> strict_prefix (split_on CHR ''.'' k') ?path"
    using snoc.prems by (auto simp: no_extension_def sorted_wrt_append)
  have "\<not> prefix q (butlast ?path)" if "\<not> strict_prefix q ?path" for q
    using that strict_prefixI' [of ?path "butlast ?path" "last ?path" "[]"]
    by (metis append_butlast_last_id prefix_order.le_less_trans split_on_not_Nil strict_prefixI')
  with fresh have "\<not> allow_covers (allow_dict al) (butlast ?path)"
    using snoc.IH [OF ne] by blast
  then show ?case
    using snoc.IH [OF ne] by (auto simp: allow_dict_snoc allow_covers_insert)
qed

text \<open>One level of the pruning: what an entry becomes.\<close>

definition prune_keep :: "value gmap \<Rightarrow> string \<Rightarrow> value \<Rightarrow> value option" where
  "prune_keep wl k v =
     (case map_of wl k of
        None \<Rightarrow> None
      | Some (VObj sub) \<Rightarrow>
          (case v of
             VObj m \<Rightarrow>
               (case AllowlistPrune sub m of (True, _) \<Rightarrow> None | (False, m') \<Rightarrow> Some (VObj m'))
           | _ \<Rightarrow> None)
      | Some _ \<Rightarrow> Some v)"

lemma AllowlistPrune_Cons:
  "AllowlistPrune wl ((k, v) # m) = prune_entry k (prune_keep wl k v) (AllowlistPrune wl m)"
  by (simp add: prune_keep_def cong: option.case_cong go_val_cong)

lemma AllowlistPrune_empty: "fst (AllowlistPrune wl m) \<longleftrightarrow> snd (AllowlistPrune wl m) = []"
proof (induction m)
  case Nil
  then show ?case by simp
next
  case (Cons kv m)
  then show ?case
    by (cases kv)
      (auto simp: AllowlistPrune_Cons prune_entry_def simp del: AllowlistPrune.simps
        split: option.split)
qed

lemma AllowlistPrune_keys: "fst ` set (snd (AllowlistPrune wl m)) \<subseteq> fst ` set m"
proof (induction m)
  case Nil
  then show ?case by simp
next
  case (Cons kv m)
  then show ?case
    by (cases kv)
      (auto simp: AllowlistPrune_Cons prune_entry_def simp del: AllowlistPrune.simps
        split: option.split)
qed

lemma AllowlistPrune_lookup:
  "distinct (keys m) \<Longrightarrow>
   map_of (snd (AllowlistPrune wl m)) k = obind (map_of m k) (prune_keep wl k)"
proof (induction m)
  case Nil
  then show ?case by simp
next
  case (Cons kv m)
  obtain k' v where kv: "kv = (k', v)" by (cases kv)
  from Cons.prems have "k' \<notin> fst ` set (snd (AllowlistPrune wl m))"
    using AllowlistPrune_keys [of wl m] by (auto simp: kv)
  then have "map_of (snd (AllowlistPrune wl m)) k' = None"
    by (simp add: map_of_eq_None_iff)
  with Cons show ?case
    by (auto simp: kv AllowlistPrune_Cons prune_entry_def simp del: AllowlistPrune.simps
        split: option.split)
qed

lemma newAllowlistingFilter_eq:
  "newAllowlistingFilter al data = Some (snd (AllowlistPrune (allow_dict al) data))"
  using AllowlistPrune_empty [of "allow_dict al" data]
  by (auto simp: newAllowlistingFilter_def split: prod.split)

lemma AllowlistPrune_covered:
  "wf_obj m \<Longrightarrow> allow_covers wl p \<Longrightarrow>
   vlookup (VObj (snd (AllowlistPrune wl m))) p = vlookup (VObj m) p"
proof (induction p arbitrary: wl m)
  case Nil
  then show ?case by simp
next
  case (Cons k p)
  note look = AllowlistPrune_lookup [OF wf_objD [OF Cons.prems(1)], of wl k]
  show ?case
  proof (cases "map_of m k")
    case None
    then show ?thesis by (simp add: look)
  next
    case (Some v)
    obtain node where node: "map_of wl k = Some node"
      using Cons.prems(2) by (auto split: option.splits)
    show ?thesis
    proof (cases "\<exists>sub. node = VObj sub")
      case False
      then have "prune_keep wl k v = Some v"
        using node by (cases node) (simp_all add: prune_keep_def)
      with Some show ?thesis by (simp add: look)
    next
      case True
      then obtain sub where sub: "node = VObj sub" by blast
      with Cons.prems(2) node have cov: "allow_covers sub p" by simp
      then obtain k' p' where p: "p = k' # p'" by (cases p) auto
      show ?thesis
      proof (cases "as_obj v")
        case None
        with node sub Some p show ?thesis
          by (cases v) (simp_all add: look prune_keep_def)
      next
        case (Some m')
        with \<open>map_of m k = Some v\<close> Cons.prems(1) have "wf_obj m'"
          using wf_obj_lookup by fastforce
        then have "vlookup (VObj (snd (AllowlistPrune sub m'))) p = vlookup (VObj m') p"
          using cov by (rule Cons.IH)
        with Some \<open>map_of m k = Some v\<close> node sub p AllowlistPrune_empty [of sub m'] show ?thesis
          by (cases "AllowlistPrune sub m'") (auto simp: look prune_keep_def split: bool.splits)
      qed
    qed
  qed
qed

lemma AllowlistPrune_uncovered:
  "wf_obj m \<Longrightarrow> \<not> allow_covers wl p \<Longrightarrow> p \<noteq> [] \<Longrightarrow>
   vlookup (VObj (snd (AllowlistPrune wl m))) p = Some w \<Longrightarrow> \<exists>o'. w = VObj o' \<and> o' \<noteq> []"
proof (induction p arbitrary: wl m)
  case Nil
  then show ?case by simp
next
  case (Cons k p)
  note look = AllowlistPrune_lookup [OF wf_objD [OF Cons.prems(1)], of wl k]
  from Cons.prems(4) obtain v v' where v: "map_of m k = Some v"
    and v': "prune_keep wl k v = Some v'" and w: "vlookup v' p = Some w"
    by (auto simp: look obind_eq_Some split: option.splits)
  from v' Cons.prems(2) obtain sub mm m' where sub: "map_of wl k = Some (VObj sub)"
    and mm: "v = VObj mm" and pr: "AllowlistPrune sub mm = (False, m')" and vo: "v' = VObj m'"
    by (auto simp: prune_keep_def split: option.splits go_val_splits prod.splits bool.splits)
  have wf: "wf_obj mm" using wf_obj_lookup [OF Cons.prems(1) v] mm by simp
  show ?case
  proof (cases "p = []")
    case True
    with w vo pr AllowlistPrune_empty [of sub mm] show ?thesis by auto
  next
    case False
    with Cons.IH [OF wf, of sub] Cons.prems(2) sub w vo pr show ?thesis by auto
  qed
qed

text \<open>
  Nothing leaks through an allow list, whatever its entries and their order: every value that is
  not an object and that the filter leaves in the data was there before, at the same path, and an
  entry of the list is a prefix of that path.
\<close>

theorem allow_list_sound:
  assumes "wf_obj data" and "newAllowlistingFilter al data = Some out"
    and "vlookup (VObj out) p = Some w" and "is_leaf w"
  shows "vlookup (VObj data) p = Some w \<and> (\<exists>k \<in> set al. prefix (split_on CHR ''.'' k) p)"
proof -
  from assms(2) have out: "out = snd (AllowlistPrune (allow_dict al) data)"
    by (simp add: newAllowlistingFilter_eq)
  have "p \<noteq> []" using assms(3,4) by auto
  with AllowlistPrune_uncovered [OF assms(1)] assms(3,4) out
  have "allow_covers (allow_dict al) p" by fastforce
  with AllowlistPrune_covered [OF assms(1)] assms(3) out allow_dict_sound show ?thesis
    by auto
qed

theorem allow_list_sound_witness:
  "vlookup (VObj [(''a'', VObj [(''b'', VInt 1), (''c'', VInt 2)]), (''d'', VNil)]) [''a'', ''b'']
     = Some (VInt 1) \<and>
   (\<exists>k \<in> set [''a.b'', ''x'']. prefix (split_on CHR ''.'' k) [''a'', ''b''])"
  by (rule allow_list_sound [where out = "[(''a'', VObj [(''b'', VInt 1)])]"]) code_simp+

text \<open>
  C14. When no entry of the allow list extends an earlier one, the filter is exact: it never fails
  and the data keeps precisely the values under the listed paths, each where it was.
\<close>

theorem allow_list_exact:
  assumes "wf_obj data" and "no_extension al"
  shows "\<exists>out. newAllowlistingFilter al data = Some out \<and>
    (\<forall>p w. is_leaf w \<longrightarrow>
      (vlookup (VObj out) p = Some w \<longleftrightarrow>
       vlookup (VObj data) p = Some w \<and> (\<exists>k \<in> set al. prefix (split_on CHR ''.'' k) p)))"
proof -
  let ?out = "snd (AllowlistPrune (allow_dict al) data)"
  have "vlookup (VObj ?out) p = Some w \<longleftrightarrow>
      vlookup (VObj data) p = Some w \<and> (\<exists>k \<in> set al. prefix (split_on CHR ''.'' k) p)"
    if leaf: "is_leaf w" for p w
  proof (cases "allow_covers (allow_dict al) p")
    case True
    then show ?thesis
      using AllowlistPrune_covered [OF assms(1)] allow_dict_covers [OF assms(2)] by auto
  next
    case False
    have "vlookup (VObj ?out) p \<noteq> Some w"
    proof (cases "p = []")
      case True
      with leaf show ?thesis by auto
    next
      case nn: False
      show ?thesis using AllowlistPrune_uncovered [OF assms(1) False nn] leaf by fastforce
    qed
    then show ?thesis using False allow_dict_covers [OF assms(2)] by auto
  qed
  then show ?thesis by (simp add: newAllowlistingFilter_eq)
qed

theorem allow_list_exact_witness:
  "\<exists>out. newAllowlistingFilter [''a.b''] [(''a'', VObj [(''b'', VInt 1), (''c'', VInt 2)])] =
      Some out \<and>
    (\<forall>p w. is_leaf w \<longrightarrow>
      (vlookup (VObj out) p = Some w \<longleftrightarrow>
       vlookup (VObj [(''a'', VObj [(''b'', VInt 1), (''c'', VInt 2)])]) p = Some w \<and>
       (\<exists>k \<in> set [''a.b'']. prefix (split_on CHR ''.'' k) p)))"
  by (rule allow_list_exact) code_simp+

text \<open>An entry that extends an earlier one takes back what the earlier one allowed.\<close>

lemma allow_list_order_matters:
  "newAllowlistingFilter [''a'', ''a.b''] [(''a'', VObj [(''b'', VInt 1), (''c'', VInt 2)])] =
     Some [(''a'', VObj [(''b'', VInt 1)])]"
  "newAllowlistingFilter [''a.b'', ''a''] [(''a'', VObj [(''b'', VInt 1), (''c'', VInt 2)])] =
     Some [(''a'', VObj [(''b'', VInt 1), (''c'', VInt 2)])]"
  by code_simp+

section \<open>What a deny list removes\<close>

text \<open>The shape of the trees the code builds: only \<^const>\<open>VNil\<close> and maps.\<close>

fun deny_node :: "value \<Rightarrow> bool" and deny_ok :: "value gmap \<Rightarrow> bool" where
  "deny_node VNil = True"
| "deny_node (VObj t) = deny_ok t"
| "deny_node _ = False"
| "deny_ok [] = True"
| "deny_ok ((k, v) # t) = (map_of t k = None \<and> deny_node v \<and> deny_ok t)"

fun deny_covers :: "value gmap \<Rightarrow> string list \<Rightarrow> bool" where
  "deny_covers tree [] = False"
| "deny_covers tree (k # p) =
     (case map_of tree k of
        None \<Rightarrow> False
      | Some (VObj sub) \<Rightarrow> deny_covers sub p
      | Some _ \<Rightarrow> True)"

lemma deny_ok_iff: "deny_ok t \<longleftrightarrow> distinct (keys t) \<and> (\<forall>kv \<in> set t. deny_node (snd kv))"
proof (induction t)
  case Nil
  then show ?case by simp
next
  case (Cons kv t)
  then show ?case by (cases kv) (auto simp: map_of_eq_None_iff)
qed

lemma deny_node_cases:
  assumes "deny_node v"
  obtains (cut) "v = VNil" | (node) sub where "v = VObj sub" and "deny_ok sub"
  using assms by (cases v) auto

lemma deny_ok_lookup: "deny_ok t \<Longrightarrow> map_of t k = Some v \<Longrightarrow> deny_node v"
  using map_of_SomeD [of t k v] by (fastforce simp: deny_ok_iff)

lemma deny_ok_mput [simp]: "deny_ok t \<Longrightarrow> deny_node v \<Longrightarrow> deny_ok (mput k v t)"
  using set_mput_subset [of k v t] by (fastforce simp: deny_ok_iff)

lemma buildDenyTree_ok [simp]: "deny_ok tree \<Longrightarrow> deny_ok (buildDenyTree path tree)"
proof (induction path tree rule: buildDenyTree.induct)
  case (3 n m path tree)
  then show ?case
    using deny_ok_lookup [OF 3(3), of n] by (auto split: option.split go_val_split)
qed simp_all

lemma buildDenyTree_covers:
  "deny_ok tree \<Longrightarrow> path \<noteq> [] \<Longrightarrow>
   deny_covers (buildDenyTree path tree) p \<longleftrightarrow> prefix path p \<or> deny_covers tree p"
proof (induction path tree arbitrary: p rule: buildDenyTree.induct)
  case (1 tree)
  then show ?case by simp
next
  case (2 n tree)
  then show ?case by (cases p) (auto simp: gmap_simps)
next
  case (3 n m path tree)
  show ?case
  proof (cases p)
    case Nil
    then show ?thesis by simp
  next
    case (Cons k p')
    show ?thesis
    proof (cases "map_of tree n")
      case None
      with 3(1) [OF None, of p'] Cons show ?thesis
        by (cases p') (auto simp: gmap_simps)
    next
      case (Some node)
      from deny_ok_lookup [OF 3(3) Some] show ?thesis
      proof (cases rule: deny_node_cases)
        case cut
        with Some Cons show ?thesis by auto
      next
        case (node sub)
        with Some Cons 3(2) [OF Some, of sub p'] show ?thesis
          by (auto simp: gmap_simps)
      qed
    qed
  qed
qed

lemma deny_tree_snoc: "deny_tree (bl @ [k]) = buildDenyTree (split_on CHR ''.'' k) (deny_tree bl)"
  by (simp add: deny_tree_def)

lemma deny_tree_ok [simp]: "deny_ok (deny_tree bl)"
  by (induction bl rule: rev_induct) (simp_all add: deny_tree_snoc, simp add: deny_tree_def)

lemma deny_tree_covers:
  "deny_covers (deny_tree bl) p \<longleftrightarrow> (\<exists>k \<in> set bl. prefix (split_on CHR ''.'' k) p)"
proof (induction bl rule: rev_induct)
  case Nil
  then show ?case by (cases p) (simp_all add: deny_tree_def)
next
  case (snoc k bl)
  then show ?case by (auto simp: deny_tree_snoc buildDenyTree_covers)
qed

text \<open>One level of the deletion.\<close>

definition deny_keep :: "value gmap \<Rightarrow> string \<Rightarrow> value \<Rightarrow> value option" where
  "deny_keep ref k v =
     (case map_of ref k of
        None \<Rightarrow> Some v
      | Some (VObj sub) \<Rightarrow> recDelete sub v
      | Some _ \<Rightarrow> None)"

lemma recDelete_leaf: "as_obj v = None \<Longrightarrow> recDelete ref v = Some v"
  by (cases "(ref, v)" rule: recDelete.cases; cases v) simp_all

text \<open>What the first entry of the tree adds, in the three cases of the loop.\<close>

lemma deny_keep_absent:
  "map_of m rk = None \<Longrightarrow>
   obind (map_of m k) (deny_keep ((rk, rv) # ref) k) = obind (map_of m k) (deny_keep ref k)"
  by (cases "k = rk") (simp_all add: deny_keep_def obind_def split: option.split)

lemma deny_keep_cut:
  "obind (map_of (mdel rk m) k) (deny_keep ref k) = obind (map_of m k) (deny_keep ((rk, VNil) # ref) k)"
  by (cases "k = rk") (auto simp: gmap_simps deny_keep_def obind_def split: option.split)

lemma deny_keep_node:
  "map_of ref rk = None \<Longrightarrow> map_of m rk = Some dv \<Longrightarrow> recDelete sub dv = Some dv' \<Longrightarrow>
   obind (map_of (mput rk dv' m) k) (deny_keep ref k) =
   obind (map_of m k) (deny_keep ((rk, VObj sub) # ref) k)"
  by (cases "k = rk") (auto simp: gmap_simps deny_keep_def obind_def split: option.split)

lemma recDelete_level:
  "deny_ok ref \<Longrightarrow> wf_value v \<Longrightarrow>
   \<exists>v'. recDelete ref v = Some v' \<and> wf_value v' \<and>
     (\<forall>m. v = VObj m \<longrightarrow>
       (\<exists>m'. v' = VObj m' \<and> (\<forall>k. map_of m' k = obind (map_of m k) (deny_keep ref k))))"
proof (induction ref v rule: recDelete.induct)
  case (1 v)
  then show ?case
    by (auto simp: deny_keep_def obind_def split: option.split)
next
  case (2 rk rv ref v)
  note IH = 2
  from IH(5) have fresh: "map_of ref rk = None" and node: "deny_node rv" and ok: "deny_ok ref"
    by simp_all
  show ?case
  proof (cases "as_obj v")
    case None
    then show ?thesis using IH(6) recDelete_leaf [OF None] by (auto simp: as_obj_None)
  next
    case (Some m)
    then have v: "v = VObj m" by simp
    show ?thesis
    proof (cases "map_of m rk")
      case None
      then show ?thesis using IH(1) [OF v None ok IH(6)] v by (simp add: deny_keep_absent)
    next
      case (Some dv)
      from node show ?thesis
      proof (cases rule: deny_node_cases)
        case cut
        have wf: "wf_value (VObj (mdel rk m))" using IH(6) v by simp
        show ?thesis using IH(2) [OF v Some cut ok wf] v Some cut by (auto simp: deny_keep_cut)
      next
        case (node sub)
        have wf_dv: "wf_value dv" using wf_obj_lookup [of m rk dv] IH(6) v Some by simp
        obtain dv' where dv': "recDelete sub dv = Some dv'" "wf_value dv'"
          using IH(3) [OF v Some node wf_dv] by (elim exE conjE) (rule that)
        have wf: "wf_value (VObj (mput rk dv' m))" using IH(6) v dv'(2) by simp
        show ?thesis
          using IH(4) [OF v Some node(1) dv'(1) ok wf] v Some node(1) dv'(1)
          by (auto simp: deny_keep_node [OF fresh Some dv'(1)])
      qed
    qed
  qed
qed

text \<open>Two values that agree on everything but the fields of objects.\<close>

definition same_kind :: "value option \<Rightarrow> value option \<Rightarrow> bool" where
  "same_kind x y \<longleftrightarrow> x = y \<or> (\<exists>m m'. x = Some (VObj m) \<and> y = Some (VObj m'))"

lemma recDelete_vlookup:
  "deny_ok ref \<Longrightarrow> wf_value v \<Longrightarrow> recDelete ref v = Some v' \<Longrightarrow>
   (if as_obj v \<noteq> None \<and> deny_covers ref p then vlookup v' p = None
    else same_kind (vlookup v' p) (vlookup v p))"
proof (induction p arbitrary: ref v v')
  case Nil
  then show ?case
    using recDelete_level [OF Nil(1,2)] recDelete_leaf [of v ref]
    by (cases v) (auto simp: same_kind_def)
next
  case (Cons k p)
  show ?case
  proof (cases "as_obj v")
    case None
    with Cons.prems(3) recDelete_leaf [OF None] show ?thesis by (simp add: same_kind_def)
  next
    case (Some m)
    then have v: "v = VObj m" by simp
    obtain m' where v': "v' = VObj m'"
      and look: "\<And>k. map_of m' k = obind (map_of m k) (deny_keep ref k)"
      using recDelete_level [OF Cons.prems(1,2)] Cons.prems(3) v by auto
    show ?thesis
    proof (cases "map_of m k")
      case None
      then show ?thesis using v v' look by (simp add: same_kind_def)
    next
      case (Some w)
      have wf: "wf_value w" using wf_obj_lookup [of m k w] Cons.prems(2) v Some by simp
      show ?thesis
      proof (cases "map_of ref k")
        case None
        then show ?thesis using v v' look Some by (simp add: deny_keep_def same_kind_def)
      next
        case Some': (Some node)
        from deny_ok_lookup [OF Cons.prems(1) Some'] show ?thesis
        proof (cases rule: deny_node_cases)
          case cut
          then show ?thesis using v v' look Some Some' by (simp add: deny_keep_def)
        next
          case (node sub)
          obtain w' where w': "recDelete sub w = Some w'"
            using recDelete_level [OF node(2) wf] by (elim exE conjE) (rule that)
          have "as_obj w = None \<Longrightarrow> deny_covers sub p \<Longrightarrow> vlookup w' p = None"
            using recDelete_leaf [of w sub] w' by (cases p) (auto simp: vlookup_not_obj simp del: vlookup.simps)
          then show ?thesis
            using Cons.IH [OF node(2) wf w'] v v' look Some Some' node w'
            by (auto simp: deny_keep_def as_obj_None split: if_splits)
        qed
      qed
    qed
  qed
qed

lemma deny_list_total: "wf_obj data \<Longrightarrow> \<exists>out. newDenylistingFilter bl data = Some out \<and> wf_obj out"
  using recDelete_level [of "deny_tree bl" "VObj data"]
  by (auto simp: newDenylistingFilter_def)

text \<open>
  C15. A deny list never panics (no type assertion of the deletion fails on a tree the code builds)
  and is exact for every list, in any order and with any overlaps: a path is gone if and only if an
  entry is a prefix of it, and every other value is kept where it was.
\<close>

theorem deny_list_exact:
  assumes "wf_obj data"
  shows "\<exists>out. newDenylistingFilter bl data = Some out \<and> wf_obj out \<and>
    (\<forall>p. if \<exists>k \<in> set bl. prefix (split_on CHR ''.'' k) p then vlookup (VObj out) p = None
         else same_kind (vlookup (VObj out) p) (vlookup (VObj data) p))"
proof -
  have wf: "wf_value (VObj data)" using assms by simp
  obtain out where out: "recDelete (deny_tree bl) (VObj data) = Some (VObj out)" "wf_obj out"
    using recDelete_level [OF deny_tree_ok wf, of bl] by auto
  then show ?thesis
    using recDelete_vlookup [OF deny_tree_ok wf out(1)]
    by (simp add: newDenylistingFilter_def deny_tree_covers)
qed

theorem deny_list_exact_witness:
  "\<exists>out. newDenylistingFilter [''a.b'', ''a''] [(''a'', VObj [(''b'', VInt 1)]), (''c'', VNil)] =
      Some out \<and> wf_obj out \<and>
    (\<forall>p. if \<exists>k \<in> set [''a.b'', ''a'']. prefix (split_on CHR ''.'' k) p
         then vlookup (VObj out) p = None
         else same_kind (vlookup (VObj out) p)
                (vlookup (VObj [(''a'', VObj [(''b'', VInt 1)]), (''c'', VNil)]) p))"
  by (rule deny_list_exact) code_simp

section \<open>Renaming\<close>

lemma map_of_map_field:
  "map_of (map_field fn data) =
     (case map_of data (fst fn) of
        None \<Rightarrow> map_of data
      | Some v \<Rightarrow> (map_of data)(snd fn \<mapsto> v, fst fn := None))"
  by (simp add: map_field_def gmap_simps split: option.split)

lemma apply_mapping_simps [simp]:
  "apply_mapping [] data = data"
  "apply_mapping (fn # mapping) data = apply_mapping mapping (map_field fn data)"
  by (simp_all add: apply_mapping_def)

lemma wf_map_field [simp]: "wf_obj data \<Longrightarrow> wf_obj (map_field fn data)"
  by (auto simp: map_field_def wf_obj_lookup split: option.split)

lemma wf_apply_mapping [simp]: "wf_obj data \<Longrightarrow> wf_obj (apply_mapping mapping data)"
  by (induction mapping arbitrary: data) simp_all

text \<open>No value is made up: each one was there under a name the mapping leads from.\<close>

lemma apply_mapping_origin:
  "map_of (apply_mapping mapping data) k' = Some v \<Longrightarrow>
   \<exists>k. (k, k') \<in> (set mapping)\<^sup>* \<and> map_of data k = Some v"
proof (induction mapping arbitrary: data)
  case Nil
  then show ?case by auto
next
  case (Cons fn mapping)
  from Cons.IH [of "map_field fn data"] Cons.prems obtain k
    where k: "(k, k') \<in> (set mapping)\<^sup>*" "map_of (map_field fn data) k = Some v" by auto
  have sub: "(set mapping)\<^sup>* \<subseteq> (set (fn # mapping))\<^sup>*" by (intro rtrancl_mono) auto
  show ?case
  proof (cases "k = snd fn \<and> map_of data (fst fn) = Some v")
    case True
    then have "(fst fn, k') \<in> (set (fn # mapping))\<^sup>*"
      using k(1) sub by (auto intro: converse_rtrancl_into_rtrancl [of _ k])
    with True show ?thesis by blast
  next
    case False
    with k(2) have "map_of data k = Some v"
      by (auto simp: map_of_map_field split: option.splits if_splits)
    with k(1) sub show ?thesis by blast
  qed
qed

text \<open>
  Renaming is exact, and independent of the order in which Go visits the mapping, as soon as
  no new name is also a former one and no two fields get the same new name: former names are gone,
  a new name holds the renamed field (what was there before is overwritten, and stays when the
  former field is missing), everything else is kept.
\<close>

theorem mapping_exact:
  assumes "distinct (map fst mapping)" and "distinct (map snd mapping)"
    and "set (map fst mapping) \<inter> set (map snd mapping) = {}"
  shows "map_of (apply_mapping mapping data) k =
    (if k \<in> fst ` set mapping then None
     else case map_of (map prod.swap mapping) k of
            None \<Rightarrow> map_of data k
          | Some f \<Rightarrow> (case map_of data f of None \<Rightarrow> map_of data k | Some v \<Rightarrow> Some v))"
  using assms
proof (induction mapping arbitrary: data)
  case Nil
  then show ?case by simp
next
  case (Cons fn mapping)
  obtain f n where fn: "fn = (f, n)" by (cases fn)
  have IH: "map_of (apply_mapping mapping (map_field fn data)) k =
    (if k \<in> fst ` set mapping then None
     else case map_of (map prod.swap mapping) k of
            None \<Rightarrow> map_of (map_field fn data) k
          | Some f' \<Rightarrow> (case map_of (map_field fn data) f' of
               None \<Rightarrow> map_of (map_field fn data) k | Some v \<Rightarrow> Some v))"
    using Cons.prems by (intro Cons.IH) auto
  have fresh: "f \<notin> fst ` set mapping" "n \<notin> snd ` set mapping" "f \<noteq> n"
      "n \<notin> fst ` set mapping" "f \<notin> snd ` set mapping"
      "fst ` set mapping \<inter> snd ` set mapping = {}"
    using Cons.prems by (auto simp: fn)
  have ren: "f' \<noteq> f \<and> f' \<noteq> n \<and> k \<noteq> n"
    if "map_of (map prod.swap mapping) k = Some f'" for f'
  proof -
    have "(f', k) \<in> set mapping" using map_of_SomeD [OF that] by auto
    then have "f' \<in> fst ` set mapping" and "k \<in> snd ` set mapping" by force+
    then show ?thesis using fresh by auto
  qed
  have none: "map_of (map prod.swap mapping) f = None"
    using fresh(5) by (auto simp: map_of_eq_None_iff image_image)
  show ?case
    using IH ren none fresh
    by (auto simp: fn map_of_map_field split: option.splits if_splits)
qed

theorem mapping_exact_witness:
  "map_of (apply_mapping [(''a'', ''x''), (''b'', ''y'')] [(''b'', VInt 2), (''x'', VInt 3)]) ''y'' =
    (if ''y'' \<in> fst ` set [(''a'', ''x''), (''b'', ''y'')] then None
     else case map_of (map prod.swap [(''a'', ''x''), (''b'', ''y'')]) ''y'' of
            None \<Rightarrow> map_of [(''b'', VInt 2), (''x'', VInt 3)] ''y''
          | Some f \<Rightarrow> (case map_of [(''b'', VInt 2), (''x'', VInt 3)] f of
              None \<Rightarrow> map_of [(''b'', VInt 2), (''x'', VInt 3)] ''y'' | Some v \<Rightarrow> Some v))"
  by (rule mapping_exact) code_simp+

text \<open>A field mapped to its own name is deleted, and a chain of names depends on the order.\<close>

lemma mapping_to_itself_deletes:
  "apply_mapping (sanitized_mappings [(''a'', ''a.b'')]) [(''a'', VInt 1)] = []"
  by code_simp

lemma mapping_chain_order_matters:
  "apply_mapping [(''a'', ''b''), (''b'', ''c'')] [(''a'', VInt 1)] = [(''c'', VInt 1)]"
  "apply_mapping [(''b'', ''c''), (''a'', ''b'')] [(''a'', VInt 1)] = [(''b'', VInt 1)]"
  by code_simp+

section \<open>The formatter as a whole\<close>

lemma vlookup_append:
  "vlookup v (p @ q) = obind (vlookup v p) (\<lambda>w. vlookup w q)"
proof (induction p arbitrary: v)
  case Nil
  then show ?case by simp
next
  case (Cons k p)
  then show ?case by (cases v) (simp_all split: option.split)
qed

lemma extract_parts_vlookup:
  "extract_parts ps data =
     (case obind (vlookup (VObj data) ps) as_obj of None \<Rightarrow> [] | Some m \<Rightarrow> m)"
proof (induction ps arbitrary: data)
  case Nil
  then show ?case by simp
next
  case (Cons k ps)
  show ?case
  proof (cases "map_of data k")
    case (Some v)
    then show ?thesis
      using Cons.IH by (cases v; cases ps) simp_all
  qed simp
qed

lemma extract_parts_lookup:
  assumes "vlookup (VObj (extract_parts ps data)) p = Some w" and "p \<noteq> []"
  shows "vlookup (VObj data) (ps @ p) = Some w"
  using assms
  by (cases p; cases "obind (vlookup (VObj data) ps) as_obj")
    (auto simp: extract_parts_vlookup vlookup_append obind_eq_Some simp del: vlookup.simps
      simp: vlookup.simps(2))

lemma wf_vlookup: "wf_value v \<Longrightarrow> vlookup v p = Some w \<Longrightarrow> wf_value w"
proof (induction p arbitrary: v)
  case Nil
  then show ?case by simp
next
  case (Cons k p)
  then show ?case by (cases v) (auto intro: wf_obj_lookup split: option.splits)
qed

lemma wf_extract_parts [simp]: "wf_obj data \<Longrightarrow> wf_obj (extract_parts ps data)"
  using wf_vlookup [of "VObj data" ps]
  by (auto simp: extract_parts_vlookup obind_eq_Some split: option.split)

text \<open>
  What the callers of a formatter rely on: only the data changes. The HTTP response parser and the
  GraphQL one are proved against it.
\<close>

locale entity_formatter =
  fixes format :: "response \<Rightarrow> response option"
  assumes frame: "format r = Some r' \<Longrightarrow> \<exists>d. r' = r\<lparr>rs_Data := d\<rparr>"
begin

lemma complete_kept: "format r = Some r' \<Longrightarrow> rs_IsComplete r' = rs_IsComplete r"
  using frame by fastforce

lemma status_kept: "format r = Some r' \<Longrightarrow> rs_StatusCode r' = rs_StatusCode r"
  using frame by fastforce

lemma headers_kept: "format r = Some r' \<Longrightarrow> rs_Headers r' = rs_Headers r"
  using frame by fastforce

lemma io_kept: "format r = Some r' \<Longrightarrow> rs_Io r' = rs_Io r"
  using frame by fastforce

end

lemma set_data_twice [simp]: "r\<lparr>rs_Data := d, rs_Data := d'\<rparr> = r\<lparr>rs_Data := d'\<rparr>"
  by simp

lemma set_data_self: "\<exists>d. (r::response) = r\<lparr>rs_Data := d\<rparr>"
  by (rule exI [of _ "rs_Data r"]) simp

lemma wrap_group_frame: "\<exists>d. wrap_group g (r\<lparr>rs_Data := d'\<rparr>) = r\<lparr>rs_Data := d\<rparr>"
  by (auto simp: wrap_group_def intro: exI [of _ d'])

lemma target_frame: "\<exists>d. (if t = [] then r else extractTarget t r) = r\<lparr>rs_Data := d\<rparr>"
  using set_data_self [of r] by (cases "t = []") (auto simp: extractTarget_def)

lemma Format_frame: "Format lib ef r = Some r' \<Longrightarrow> \<exists>d. r' = r\<lparr>rs_Data := d\<rparr>"
proof (cases ef)
  case (Flatmap ff)
  obtain d0 where d0: "(if ff_Target ff = [] then r else extractTarget (ff_Target ff) r) =
      r\<lparr>rs_Data := d0\<rparr>"
    using target_frame by blast
  assume "Format lib ef r = Some r'"
  then obtain d1 where "r' = wrap_group (ff_Prefix ff) (r\<lparr>rs_Data := d1\<rparr>)"
    by (auto simp: Flatmap flatmapFormatter_Format_def d0 processOps_def split: option.splits)
  then show ?thesis using wrap_group_frame by metis
next
  case (Entity e)
  obtain d0 where d0: "(if ef_Target e = [] then r else extractTarget (ef_Target e) r) =
      r\<lparr>rs_Data := d0\<rparr>"
    using target_frame by blast
  assume "Format lib ef r = Some r'"
  then obtain d1 where "r' = wrap_group (ef_Prefix e) (r\<lparr>rs_Data := d1\<rparr>)"
    by (auto simp: Entity entityFormatter_Format_def d0 Let_def split: option.splits if_splits)
  then show ?thesis using wrap_group_frame by metis
qed

interpretation formatter: entity_formatter "Format lib ef" for lib ef
  by unfold_locales (rule Format_frame)

text \<open>The stages of the entity formatter of a backend, on the data alone.\<close>

definition backend_filter :: "backend \<Rightarrow> value gmap \<Rightarrow> value gmap option" where
  "backend_filter b =
     (if be_AllowList b = [] then newDenylistingFilter (be_DenyList b)
      else newAllowlistingFilter (be_AllowList b))"

definition format_data :: "backend \<Rightarrow> value gmap \<Rightarrow> value gmap option" where
  "format_data b data =
     (let d = (if be_Target b = [] then data
               else extract_parts (split_on CHR ''.'' (be_Target b)) data) in
      if d = [] then Some []
      else map_option (apply_mapping (sanitized_mappings (be_Mapping b))) (backend_filter b d))"

lemma apply_mapping_Nil [simp]: "apply_mapping mapping [] = []"
  by (induction mapping) (simp_all add: map_field_def)

lemma Format_entity_data:
  assumes "newFlatmapFormatter (be_ExtraConfig b) (be_Target b) (be_Group b) = None"
    and "Format lib (NewEntityFormatter b) r = Some r'"
  shows "\<exists>d. format_data b (data_of r) = Some d \<and>
    data_of r' = (if be_Group b = [] then d else [(be_Group b, VObj d)])"
  using assms
  by (auto simp: NewEntityFormatter_def entityFormatter_Format_def format_data_def Let_def
      backend_filter_def wrap_group_def extractTarget_def split: option.splits if_splits)

lemma backend_filter_total: "wf_obj d \<Longrightarrow> \<exists>out. backend_filter b d = Some out"
  using deny_list_total by (auto simp: backend_filter_def newAllowlistingFilter_eq)

lemma Format_entity_total:
  assumes "newFlatmapFormatter (be_ExtraConfig b) (be_Target b) (be_Group b) = None"
    and "wf_obj (data_of r)"
  shows "Format lib (NewEntityFormatter b) r \<noteq> None"
proof -
  let ?r = "if be_Target b = [] then r else extractTarget (be_Target b) r"
  have "wf_obj (data_of ?r)"
    using assms(2) by (simp add: extractTarget_def)
  from backend_filter_total [OF this, of b] show ?thesis
    using assms(1)
    by (auto simp: NewEntityFormatter_def entityFormatter_Format_def Let_def backend_filter_def)
qed

text \<open>
  The paths under which a backend's formatter may put a value: the group, then a name the mapping
  leads to, then the path below; \<open>backend_source\<close> relates it to the path in the decoded answer.
\<close>

definition backend_source :: "backend \<Rightarrow> string list \<Rightarrow> string list \<Rightarrow> bool" where
  "backend_source b out_path in_path \<longleftrightarrow>
     (\<exists>k k' p. (k, k') \<in> (set (sanitized_mappings (be_Mapping b)))\<^sup>* \<and>
       out_path = (if be_Group b = [] then [] else [be_Group b]) @ k' # p \<and>
       in_path = (if be_Target b = [] then [] else split_on CHR ''.'' (be_Target b)) @ k # p \<and>
       (if be_AllowList b = [] then \<forall>e \<in> set (be_DenyList b). \<not> prefix (split_on CHR ''.'' e) (k # p)
        else \<exists>e \<in> set (be_AllowList b). prefix (split_on CHR ''.'' e) (k # p)))"

lemma backend_filter_sound:
  assumes "wf_obj d" and "backend_filter b d = Some d'"
    and "vlookup (VObj d') p = Some w" and "is_leaf w"
  shows "vlookup (VObj d) p = Some w \<and>
    (if be_AllowList b = [] then \<forall>e \<in> set (be_DenyList b). \<not> prefix (split_on CHR ''.'' e) p
     else \<exists>e \<in> set (be_AllowList b). prefix (split_on CHR ''.'' e) p)"
proof (cases "be_AllowList b = []")
  case True
  then have rd: "recDelete (deny_tree (be_DenyList b)) (VObj d) = Some (VObj d')"
    using assms(2) by (simp add: backend_filter_def newDenylistingFilter_def obind_eq_Some)
  have "wf_value (VObj d)" using assms(1) by simp
  from recDelete_vlookup [OF deny_tree_ok this rd, of p] True assms(3,4) show ?thesis
    by (auto simp: deny_tree_covers same_kind_def split: if_splits)
next
  case False
  then have d': "d' = snd (AllowlistPrune (allow_dict (be_AllowList b)) d)"
    using assms(2) by (simp add: backend_filter_def newAllowlistingFilter_eq)
  have "p \<noteq> []" using assms(3,4) by auto
  with AllowlistPrune_uncovered [OF assms(1)] assms(3,4) d'
  have cov: "allow_covers (allow_dict (be_AllowList b)) p" by fastforce
  with AllowlistPrune_covered [OF assms(1) cov] assms(3) d' allow_dict_sound [OF cov] False
  show ?thesis by simp
qed

lemma format_data_sound:
  assumes "wf_obj data" and "format_data b data = Some d"
    and "vlookup (VObj d) (k' # p) = Some w" and "is_leaf w"
  shows "\<exists>k. (k, k') \<in> (set (sanitized_mappings (be_Mapping b)))\<^sup>* \<and>
    vlookup (VObj data)
      ((if be_Target b = [] then [] else split_on CHR ''.'' (be_Target b)) @ k # p) = Some w \<and>
    (if be_AllowList b = [] then \<forall>e \<in> set (be_DenyList b). \<not> prefix (split_on CHR ''.'' e) (k # p)
     else \<exists>e \<in> set (be_AllowList b). prefix (split_on CHR ''.'' e) (k # p))"
proof -
  let ?t = "if be_Target b = [] then data
    else extract_parts (split_on CHR ''.'' (be_Target b)) data"
  have wf: "wf_obj ?t" using assms(1) by simp
  obtain f where f: "backend_filter b ?t = Some f"
    and d: "d = apply_mapping (sanitized_mappings (be_Mapping b)) f"
    using assms(2,3) by (auto simp: format_data_def Let_def split: if_splits)
  from assms(3) obtain v where v: "map_of d k' = Some v" and vp: "vlookup v p = Some w"
    by (auto split: option.splits)
  from apply_mapping_origin [OF v [unfolded d]] obtain k
    where k: "(k, k') \<in> (set (sanitized_mappings (be_Mapping b)))\<^sup>*" "map_of f k = Some v" by blast
  have "vlookup (VObj f) (k # p) = Some w" using k(2) vp by simp
  note snd = backend_filter_sound [OF wf f this assms(4)]
  then have "vlookup (VObj data)
      ((if be_Target b = [] then [] else split_on CHR ''.'' (be_Target b)) @ k # p) = Some w"
    using extract_parts_lookup [of "split_on CHR ''.'' (be_Target b)" data "k # p" w]
    by (simp split: if_splits)
  with k(1) snd show ?thesis by blast
qed

lemma backend_format_values:
  assumes "newFlatmapFormatter (be_ExtraConfig b) (be_Target b) (be_Group b) = None"
    and "wf_obj (data_of r)"
  shows "\<exists>d. Format lib (NewEntityFormatter b) r = Some (r\<lparr>rs_Data := d\<rparr>) \<and>
    (\<forall>out_path w. is_leaf w \<and> vlookup (VObj (data_of (r\<lparr>rs_Data := d\<rparr>))) out_path = Some w \<longrightarrow>
      (\<exists>in_path. backend_source b out_path in_path \<and>
         vlookup (VObj (data_of r)) in_path = Some w))"
proof -
  obtain r' where r': "Format lib (NewEntityFormatter b) r = Some r'"
    using Format_entity_total [OF assms] by blast
  obtain d where d: "r' = r\<lparr>rs_Data := d\<rparr>"
    using formatter.frame [OF r'] by blast
  obtain fd where fd: "format_data b (data_of r) = Some fd"
    and out: "data_of r' = (if be_Group b = [] then fd else [(be_Group b, VObj fd)])"
    using Format_entity_data [OF assms(1) r'] by blast
  have "\<exists>in_path. backend_source b out_path in_path \<and> vlookup (VObj (data_of r)) in_path = Some w"
    if leaf: "is_leaf w" and look: "vlookup (VObj (data_of r')) out_path = Some w" for out_path w
  proof -
    obtain k' p where op: "out_path = (if be_Group b = [] then [] else [be_Group b]) @ k' # p"
      and lk: "vlookup (VObj fd) (k' # p) = Some w"
    proof (cases "be_Group b = []")
      case True
      with look out leaf that show ?thesis by (cases out_path) auto
    next
      case False
      then obtain k' p where "out_path = be_Group b # k' # p"
        using look out leaf by (cases out_path; cases "tl out_path") (auto split: if_splits)
      with False look out that [of k' p] show ?thesis by simp
    qed
    from format_data_sound [OF assms(2) fd lk leaf] op show ?thesis
      unfolding backend_source_def by blast
  qed
  with r' d show ?thesis by blast
qed

text \<open>
  C13. The formatter of a backend (without flatmap operations) always returns a response, changes
  nothing but its data, and every value of it that is not an object comes from the decoded answer:
  from under the target, at a path the allow list covers (or the deny list does not), moved only by
  the mapping and the group.
\<close>

theorem backend_formatter_sound:
  assumes "newFlatmapFormatter (be_ExtraConfig b) (be_Target b) (be_Group b) = None"
    and "wf_obj (data_of r)"
  shows "\<exists>d. Format lib (NewEntityFormatter b) r = Some (r\<lparr>rs_Data := d\<rparr>) \<and>
    (\<forall>out_path w. is_leaf w \<and> vlookup (VObj (data_of (r\<lparr>rs_Data := d\<rparr>))) out_path = Some w \<longrightarrow>
      (\<exists>in_path. backend_source b out_path in_path \<and>
         vlookup (VObj (data_of r)) in_path = Some w))"
  by (rule backend_format_values [OF assms])

definition sample_flat_lib :: "unit flat_lib" where
  "sample_flat_lib =
     \<lparr>ft_New = (\<lambda>_. None), ft_Move = (\<lambda>_ _ t. t), ft_Append = (\<lambda>_ _ t. t), ft_Del = (\<lambda>_ t. t),
      ft_Get = (\<lambda>_. None)\<rparr>"

definition sample_backend :: backend where
  "sample_backend = zero_backend\<lparr>be_Target := ''data'', be_Group := ''g'',
     be_AllowList := [''a.b''], be_Mapping := [(''a'', ''x.y'')]\<rparr>"

definition sample_answer :: response where
  "sample_answer = new_response
     (Some [(''data'', VObj [(''a'', VObj [(''b'', VInt 1), (''c'', VInt 2)])])]) True"

theorem backend_formatter_sound_witness:
  "\<exists>d. Format sample_flat_lib (NewEntityFormatter sample_backend) sample_answer =
      Some (sample_answer\<lparr>rs_Data := d\<rparr>) \<and>
    (\<forall>out_path w. is_leaf w \<and>
        vlookup (VObj (data_of (sample_answer\<lparr>rs_Data := d\<rparr>))) out_path = Some w \<longrightarrow>
      (\<exists>in_path. backend_source sample_backend out_path in_path \<and>
         vlookup (VObj (data_of sample_answer)) in_path = Some w))"
  by (rule backend_formatter_sound) code_simp+

text \<open>The same backend, evaluated.\<close>

lemma sample_backend_formats:
  "map_option data_of (Format sample_flat_lib (NewEntityFormatter sample_backend) sample_answer) =
     Some [(''g'', VObj [(''x'', VObj [(''b'', VInt 1)])])]"
  by code_simp

text \<open>An operation of the flatmap filter with too few arguments panics when a response arrives.\<close>

lemma flatmap_missing_argument:
  "flatmap_op lib \<lparr>fo_Type = ''move'', fo_Args = [[''a'']]\<rparr> t = None"
  by (simp add: flatmap_op_def)

end
