(* ===== verification/Proxy_Merging.thy ===== *)
theory Proxy_Merging
  imports Config_Types
begin

text \<open>
  \<open>proxy/merging.go\<close> and the combiner register of \<open>proxy/register.go\<close>: the accumulator that
  folds the answers of the backends into one response, the response combiners, and the choices the
  configuration makes (merger, combiner, cloning). The two mergers that drive the accumulator are
  in \<open>Proxy_Parallel\<close> and \<open>Proxy_Sequential\<close>.
\<close>

section \<open>Combiners\<close>

text \<open>
  A combiner gets the expected number of parts and the parts, and gives the merged response.
  Maps are shared in Go: the second component is the index of the part whose \<open>Data\<close> map is the map
  of the result, filled in place, and \<^const>\<open>None\<close> when the result has a map of its own.
\<close>

type_synonym combiner = "nat \<Rightarrow> response option list \<Rightarrow> response \<times> nat option"

text \<open>One round of the loop of \<open>combineData\<close>: \<open>isComplete\<close>, and \<open>retResponse\<close> with its origin.\<close>

definition combine_step ::
  "nat \<times> response option \<Rightarrow> bool \<times> (response \<times> nat) option \<Rightarrow> bool \<times> (response \<times> nat) option" where
  "combine_step ip st =
     (case ip of (i, part) \<Rightarrow> case st of (isComplete, ret) \<Rightarrow>
        (case obind part rs_Data of
           None \<Rightarrow> (False, ret)
         | Some d \<Rightarrow>
             (let isComplete = (isComplete \<and> (case part of None \<Rightarrow> False | Some p \<Rightarrow> rs_IsComplete p)) in
              case ret of
                None \<Rightarrow> (isComplete, Some (new_response (Some d) isComplete, i))
              | Some (r, o') \<Rightarrow>
                  (isComplete, Some (r\<lparr>rs_Data := Some (mput_all d (data_of r))\<rparr>, o')))))"

definition combineData :: combiner where
  "combineData tot parts =
     (case fold combine_step (enumerate 0 parts) (length parts = tot, None) of
        (isComplete, None) \<Rightarrow> (new_response (Some []) isComplete, None)
      | (isComplete, Some (r, i)) \<Rightarrow> (r\<lparr>rs_IsComplete := isComplete\<rparr>, Some i))"

text \<open>The register of combiners: an \<open>Untyped\<close> register and a fallback.\<close>

record combinerRegister =
  cr_data :: "combiner untyped"
  cr_fallback :: combiner

definition newCombinerRegister :: "combiner gmap \<Rightarrow> combiner \<Rightarrow> combinerRegister" where
  "newCombinerRegister data fallback =
     \<lparr>cr_data = fold (\<lambda>(k, v) r. Untyped_Register k v r) data NewUntyped, cr_fallback = fallback\<rparr>"

definition GetResponseCombiner :: "combinerRegister \<Rightarrow> string \<Rightarrow> combiner \<times> bool" where
  "GetResponseCombiner r name =
     (case Untyped_Get (cr_data r) name of
        None \<Rightarrow> (cr_fallback r, False)
      | Some v \<Rightarrow> (v, True))"

definition SetResponseCombiner ::
  "string \<Rightarrow> combiner \<Rightarrow> combinerRegister \<Rightarrow> combinerRegister" where
  "SetResponseCombiner name rc r = r\<lparr>cr_data := Untyped_Register name rc (cr_data r)\<rparr>"

definition initResponseCombiners :: combinerRegister where
  "initResponseCombiners = newCombinerRegister [(''default'', combineData)] combineData"

definition RegisterResponseCombiner ::
  "string \<Rightarrow> combiner \<Rightarrow> combinerRegister \<Rightarrow> combinerRegister" where
  "RegisterResponseCombiner name f responseCombiners = SetResponseCombiner name f responseCombiners"

section \<open>Choices of the configuration\<close>

text \<open>\<open>v.(string)\<close> panics on any other kind of value: then the name is \<^const>\<open>None\<close>.\<close>

definition getResponseCombinerName :: "combinerRegister \<Rightarrow> extra_config \<Rightarrow> string option" where
  "getResponseCombinerName reg extra =
     (case section_of extra proxy_Namespace of
        None \<Rightarrow> Some ''default''
      | Some e \<Rightarrow>
          (case map_of e ''combiner'' of
             None \<Rightarrow> Some ''default''
           | Some v \<Rightarrow>
               (case as_str v of
                  None \<Rightarrow> None
                | Some n \<Rightarrow> Some (if snd (GetResponseCombiner reg n) then n else ''default''))))"

definition getResponseCombiner :: "combinerRegister \<Rightarrow> extra_config \<Rightarrow> combiner option" where
  "getResponseCombiner reg extra =
     map_option (\<lambda>n. fst (GetResponseCombiner reg n)) (getResponseCombinerName reg extra)"

text \<open>
  \<open>mergers\<close>, the package variable, by name: the two built in and what \<open>RegisterMergerFactory\<close>
  adds. \<open>getMergerFactory\<close> picks one; the lookup of a built-in name in the map is the entry there.
\<close>

datatype merger = ParallelMerge | SequentialMerge | CustomMerger string

definition mergers :: "merger gmap" where
  "mergers = [(''sequential'', SequentialMerge), (''parallel'', ParallelMerge)]"

definition RegisterMergerFactory :: "string \<Rightarrow> merger \<Rightarrow> merger gmap \<Rightarrow> merger gmap" where
  "RegisterMergerFactory name m ms = mput name m ms"

definition getMergerFactory :: "merger gmap \<Rightarrow> extra_config \<Rightarrow> merger option \<times> string" where
  "getMergerFactory ms cfg =
     (let parallel = (map_of ms ''parallel'', ''parallel'') in
      case section_of cfg proxy_Namespace of
        None \<Rightarrow> parallel
      | Some m \<Rightarrow>
          (case map_of m ''strategy'' of
             None \<Rightarrow>
               (case map_of m ''sequential'' of
                  Some (VBool True) \<Rightarrow> (map_of ms ''sequential'', ''sequential'')
                | _ \<Rightarrow> parallel)
           | Some v \<Rightarrow>
               (case as_str v of
                  None \<Rightarrow> parallel
                | Some t \<Rightarrow>
                    (case map_of ms t of None \<Rightarrow> parallel | Some mf \<Rightarrow> (Some mf, t)))))"

definition forceDeepClone :: "endpoint_config \<Rightarrow> bool" where
  "forceDeepClone cfg =
     (case section_of (ep_ExtraConfig cfg) proxy_Namespace of
        None \<Rightarrow> False
      | Some e \<Rightarrow>
          (case map_of e ''force_sandboxed_request'' of
             Some v \<Rightarrow> as_bool v = Some True
           | None \<Rightarrow> False))"

definition hasUnsafeBackends :: "endpoint_config \<Rightarrow> bool" where
  "hasUnsafeBackends cfg =
     (if length (ep_Backend cfg) = 1 then False
      else list_ex (\<lambda>b. to_upper (be_Method b) \<noteq> ''GET'' \<and> to_upper (be_Method b) \<noteq> ''HEAD'')
             (ep_Backend cfg))"

section \<open>The accumulator\<close>

text \<open>
  \<open>ac_owner\<close> is not a field of the struct: it names the part whose \<open>Data\<close> map the accumulated map
  is (Go shares it), by the number the caller gives the part.
\<close>

record incrementalMergeAccumulator =
  ac_pending :: int
  ac_data :: "response option"
  ac_errs :: "go_err list"
  ac_owner :: "nat option"

definition newIncrementalMergeAccumulator :: "nat \<Rightarrow> incrementalMergeAccumulator" where
  "newIncrementalMergeAccumulator tot =
     \<lparr>ac_pending = int tot, ac_data = None, ac_errs = [], ac_owner = None\<rparr>"

definition acc_Merge ::
  "combiner \<Rightarrow> nat \<Rightarrow> response option \<Rightarrow> go_err option \<Rightarrow> incrementalMergeAccumulator \<Rightarrow>
     incrementalMergeAccumulator" where
  "acc_Merge rc part res err i =
     (let i = i\<lparr>ac_pending := ac_pending i - 1\<rparr> in
      case err of
        Some e \<Rightarrow>
          i\<lparr>ac_errs := ac_errs i @ [e],
            ac_data := map_option (\<lambda>d. d\<lparr>rs_IsComplete := False\<rparr>) (ac_data i)\<rparr>
      | None \<Rightarrow>
          (case res of
             None \<Rightarrow> i\<lparr>ac_errs := ac_errs i @ [ENullResult]\<rparr>
           | Some r \<Rightarrow>
               (case ac_data i of
                  None \<Rightarrow> i\<lparr>ac_data := Some r, ac_owner := Some part\<rparr>
                | Some d \<Rightarrow>
                    (case rc 2 [Some d, Some r] of
                       (m, origin) \<Rightarrow>
                         i\<lparr>ac_data := Some m,
                           ac_owner := (case origin of
                              None \<Rightarrow> None
                            | Some 0 \<Rightarrow> ac_owner i
                            | Some _ \<Rightarrow> Some part)\<rparr>))))"

definition newMergeError :: "go_err list \<Rightarrow> go_err option" where
  "newMergeError errs = (if errs = [] then None else Some (EMerge errs))"

definition acc_Result :: "incrementalMergeAccumulator \<Rightarrow> response option \<times> go_err option" where
  "acc_Result i =
     (case ac_data i of
        None \<Rightarrow> (None, newMergeError (ac_errs i))
      | Some d \<Rightarrow>
          (Some (if ac_pending i > 0 \<or> ac_errs i \<noteq> [] then d\<lparr>rs_IsComplete := False\<rparr> else d),
           newMergeError (ac_errs i)))"

section \<open>What a merger needs of a combiner\<close>

text \<open>
  The contract: the later part wins field by field, and the result is complete exactly when both
  parts are and both have data. The lemmas below fold it over any sequence of answers.
\<close>

datatype msg = MErr go_err | MResp response

fun acc_msg ::
  "combiner \<Rightarrow> nat \<Rightarrow> msg \<Rightarrow> incrementalMergeAccumulator \<Rightarrow> incrementalMergeAccumulator" where
  "acc_msg rc part (MErr e) acc = acc_Merge rc part None (Some e) acc"
| "acc_msg rc part (MResp r) acc = acc_Merge rc part (Some r) None acc"

definition acc_run ::
  "combiner \<Rightarrow> msg list \<Rightarrow> incrementalMergeAccumulator \<Rightarrow> incrementalMergeAccumulator" where
  "acc_run rc ms acc = fold (acc_msg rc 0) ms acc"

fun msg_err :: "msg \<Rightarrow> go_err list" where
  "msg_err (MErr e) = [e]"
| "msg_err (MResp r) = []"

fun msg_resp :: "msg \<Rightarrow> response list" where
  "msg_resp (MErr e) = []"
| "msg_resp (MResp r) = [r]"

definition msg_errs :: "msg list \<Rightarrow> go_err list" where
  "msg_errs ms = concat (map msg_err ms)"

definition msg_resps :: "msg list \<Rightarrow> response list" where
  "msg_resps ms = concat (map msg_resp ms)"

text \<open>The data of several responses, later ones over earlier ones.\<close>

definition overlay :: "response list \<Rightarrow> (string \<Rightarrow> value option)" where
  "overlay rs = foldl (\<lambda>m r. m ++ map_of (data_of r)) Map.empty rs"

definition wf_resp :: "response \<Rightarrow> bool" where
  "wf_resp r \<longleftrightarrow> distinct (keys (data_of r))"

lemma msg_simps [simp]:
  "msg_errs [] = []" "msg_errs (m # ms) = msg_err m @ msg_errs ms"
  "msg_errs (ms @ ms') = msg_errs ms @ msg_errs ms'"
  "msg_resps [] = []" "msg_resps (m # ms) = msg_resp m @ msg_resps ms"
  "msg_resps (ms @ ms') = msg_resps ms @ msg_resps ms'"
  by (simp_all add: msg_errs_def msg_resps_def)

lemma acc_run_simps [simp]:
  "acc_run rc [] acc = acc"
  "acc_run rc (ms @ [m]) acc = acc_msg rc 0 m (acc_run rc ms acc)"
  by (simp_all add: acc_run_def)

lemma overlay_simps [simp]:
  "overlay [] = Map.empty" "overlay [r] = map_of (data_of r)" "overlay (rs @ [r]) = overlay rs ++ map_of (data_of r)"
  by (simp_all add: overlay_def)

lemma wf_resp_complete [simp]: "wf_resp (r\<lparr>rs_IsComplete := c\<rparr>) = wf_resp r"
  by (simp add: wf_resp_def)

text \<open>\<open>all_whole rs\<close>: every response is complete and, when there are several, has data.\<close>

definition all_whole :: "response list \<Rightarrow> bool" where
  "all_whole rs \<longleftrightarrow> (\<forall>r \<in> set rs. rs_IsComplete r \<and> (length rs > 1 \<longrightarrow> rs_Data r \<noteq> None))"

locale response_combiner =
  fixes rc :: combiner
  assumes rc_data: "wf_resp a \<Longrightarrow> wf_resp b \<Longrightarrow>
      wf_resp (fst (rc 2 [Some a, Some b])) \<and>
      map_of (data_of (fst (rc 2 [Some a, Some b]))) = map_of (data_of a) ++ map_of (data_of b)"
    and rc_whole: "rs_IsComplete (fst (rc 2 [Some a, Some b])) \<longleftrightarrow>
      rs_IsComplete a \<and> rs_IsComplete b \<and> rs_Data a \<noteq> None \<and> rs_Data b \<noteq> None"
    and rc_not_nil: "rs_Data (fst (rc 2 [Some a, Some b])) \<noteq> None"
begin

definition acc_ok :: "msg list \<Rightarrow> incrementalMergeAccumulator \<Rightarrow> bool" where
  "acc_ok ms acc \<longleftrightarrow>
     ac_errs acc = msg_errs ms \<and>
     (case ac_data acc of
        None \<Rightarrow> msg_resps ms = []
      | Some d \<Rightarrow> msg_resps ms \<noteq> [] \<and> wf_resp d \<and> map_of (data_of d) = overlay (msg_resps ms) \<and>
          (length (msg_resps ms) > 1 \<longrightarrow> rs_Data d \<noteq> None) \<and>
          (length (msg_resps ms) = 1 \<longrightarrow> rs_Data d = rs_Data (hd (msg_resps ms))) \<and>
          (rs_IsComplete d \<longrightarrow> all_whole (msg_resps ms)) \<and>
          (msg_errs ms = [] \<longrightarrow> all_whole (msg_resps ms) \<longrightarrow> rs_IsComplete d))"

lemma acc_ok_err:
  assumes "acc_ok ms acc"
  shows "acc_ok (ms @ [MErr e]) (acc_msg rc k (MErr e) acc)"
  using assms
  by (cases "ac_data acc") (simp_all add: acc_ok_def acc_Merge_def data_of_def)

lemma acc_ok_resp:
  assumes "acc_ok ms acc" and "wf_resp r"
  shows "acc_ok (ms @ [MResp r]) (acc_msg rc k (MResp r) acc)"
proof (cases "ac_data acc")
  case None
  with assms show ?thesis
    by (simp add: acc_ok_def acc_Merge_def all_whole_def)
next
  case (Some d)
  let ?m = "fst (rc 2 [Some d, Some r])"
  have acc': "ac_data (acc_msg rc k (MResp r) acc) = Some ?m"
      "ac_errs (acc_msg rc k (MResp r) acc) = ac_errs acc"
    using Some by (simp_all add: acc_Merge_def Let_def split: prod.split)
  have wf: "wf_resp d" using assms(1) Some by (simp add: acc_ok_def)
  let ?rs = "msg_resps ms"
  have ne: "?rs \<noteq> []" using assms(1) Some by (simp add: acc_ok_def)
  have nil: "rs_Data d \<noteq> None" if "length ?rs > 1"
    using assms(1) Some that by (simp add: acc_ok_def)
  have one: "?rs = [r0] \<Longrightarrow> rs_Data d = rs_Data r0" for r0
    using assms(1) Some by (simp add: acc_ok_def)
  have whole: "all_whole (?rs @ [r]) \<longleftrightarrow>
      all_whole ?rs \<and> rs_IsComplete r \<and> rs_Data r \<noteq> None \<and> (\<forall>r' \<in> set ?rs. rs_Data r' \<noteq> None)"
    using ne by (auto simp: all_whole_def)
  have d_nil: "rs_Data d \<noteq> None" if "\<forall>r' \<in> set ?rs. rs_Data r' \<noteq> None"
    using ne nil one that by (cases ?rs; cases "tl ?rs") auto
  have d_nil': "\<forall>r' \<in> set ?rs. rs_Data r' \<noteq> None" if "rs_Data d \<noteq> None" "all_whole ?rs"
    using ne one that by (cases ?rs; cases "tl ?rs") (auto simp: all_whole_def)
  have c1: "all_whole (?rs @ [r])" if "rs_IsComplete ?m"
  proof -
    have "all_whole ?rs" and "rs_IsComplete r" "rs_Data d \<noteq> None" "rs_Data r \<noteq> None"
      using that assms(1) Some rc_whole [of d r] by (simp_all add: acc_ok_def)
    then show ?thesis using d_nil' whole by blast
  qed
  have c2: "rs_IsComplete ?m" if "msg_errs ms = []" and w: "all_whole (?rs @ [r])"
  proof -
    have "rs_IsComplete d" using that whole assms(1) Some by (simp add: acc_ok_def)
    then show ?thesis using w whole d_nil rc_whole [of d r] by blast
  qed
  have data: "wf_resp ?m \<and> map_of (data_of ?m) = overlay (?rs @ [r])"
    using rc_data [OF wf assms(2)] assms(1) Some by (simp add: acc_ok_def)
  have len: "length (?rs @ [r]) > 1" using ne by (cases ?rs) auto
  have "ac_errs (acc_msg rc k (MResp r) acc) = msg_errs (ms @ [MResp r])"
    using acc'(2) assms(1) by (simp add: acc_ok_def)
  then show ?thesis
    using acc'(1) c1 c2 data len rc_not_nil [of d r]
    by (simp add: acc_ok_def del: acc_msg.simps)
qed

lemma acc_ok_run:
  "(\<forall>r \<in> set (msg_resps ms). wf_resp r) \<Longrightarrow>
   acc_ok ms (acc_run rc ms (newIncrementalMergeAccumulator n))"
proof (induction ms rule: rev_induct)
  case Nil
  then show ?case by (simp add: acc_ok_def newIncrementalMergeAccumulator_def)
next
  case (snoc m ms)
  then show ?case by (cases m) (auto intro!: acc_ok_err acc_ok_resp simp del: acc_msg.simps)
qed

lemma acc_run_pending:
  "ac_pending (acc_run rc ms (newIncrementalMergeAccumulator n)) = int n - int (length ms)"
proof (induction ms rule: rev_induct)
  case Nil
  then show ?case by (simp add: newIncrementalMergeAccumulator_def)
next
  case (snoc m ms)
  then show ?case
    by (cases m) (auto simp: acc_Merge_def Let_def split: option.split prod.split)
qed

text \<open>The result of an accumulator, and of the whole fold.\<close>

lemma acc_ok_result:
  assumes "acc_ok ms acc" and "ac_pending acc > 0 \<longleftrightarrow> \<not> settled"
    and "acc_Result acc = (res, err)"
  shows "err = newMergeError (msg_errs ms) \<and>
    (res = None \<longleftrightarrow> msg_resps ms = []) \<and>
    (\<forall>d. res = Some d \<longrightarrow> wf_resp d \<and> map_of (data_of d) = overlay (msg_resps ms) \<and>
       (rs_IsComplete d \<longleftrightarrow> settled \<and> msg_errs ms = [] \<and> all_whole (msg_resps ms)))"
proof (cases "ac_data acc")
  case None
  with assms show ?thesis by (auto simp: acc_ok_def acc_Result_def)
next
  case (Some d)
  with assms(3) have "res = Some (if ac_pending acc > 0 \<or> ac_errs acc \<noteq> []
      then d\<lparr>rs_IsComplete := False\<rparr> else d)" and "err = newMergeError (ac_errs acc)"
    by (simp_all add: acc_Result_def)
  with assms(1,2) Some show ?thesis
    by (auto simp add: acc_ok_def simp del: data_of_simps(1,2))
qed

lemma acc_result:
  assumes "\<forall>r \<in> set (msg_resps ms). wf_resp r" and "length ms \<le> n"
    and "acc_Result (acc_run rc ms (newIncrementalMergeAccumulator n)) = (res, err)"
  shows "err = newMergeError (msg_errs ms) \<and>
    (res = None \<longleftrightarrow> msg_resps ms = []) \<and>
    (\<forall>d. res = Some d \<longrightarrow> wf_resp d \<and> map_of (data_of d) = overlay (msg_resps ms) \<and>
       (rs_IsComplete d \<longleftrightarrow> length ms = n \<and> msg_errs ms = [] \<and> all_whole (msg_resps ms)))"
  using acc_run_pending [of ms n] assms(2)
  by (intro acc_ok_result [OF acc_ok_run [OF assms(1)] _ assms(3)]) auto

end

section \<open>The default combiner keeps the contract\<close>

lemma combineData_two:
  "combineData 2 [Some a, Some b] =
     (case rs_Data a of
        None \<Rightarrow>
          (case rs_Data b of
             None \<Rightarrow> (new_response (Some []) False, None)
           | Some db \<Rightarrow> (new_response (Some db) False, Some 1))
      | Some da \<Rightarrow>
          (case rs_Data b of
             None \<Rightarrow> (new_response (Some da) False, Some 0)
           | Some db \<Rightarrow>
               (new_response (Some (mput_all db da)) (rs_IsComplete a \<and> rs_IsComplete b), Some 0)))"
  by (auto simp: combineData_def combine_step_def new_response_def data_of_def Let_def
      split: option.split)

interpretation default_combiner: response_combiner combineData
proof
  fix a b :: response
  assume wf: "wf_resp a" "wf_resp b"
  show "wf_resp (fst (combineData 2 [Some a, Some b])) \<and>
      map_of (data_of (fst (combineData 2 [Some a, Some b]))) =
        map_of (data_of a) ++ map_of (data_of b)"
    using wf
    by (auto simp: combineData_two wf_resp_def data_of_def gmap_simps new_response_def
        split: option.splits)
next
  fix a b :: response
  show "rs_IsComplete (fst (combineData 2 [Some a, Some b])) \<longleftrightarrow>
      rs_IsComplete a \<and> rs_IsComplete b \<and> rs_Data a \<noteq> None \<and> rs_Data b \<noteq> None"
    by (auto simp: combineData_two split: option.splits)
  show "rs_Data (fst (combineData 2 [Some a, Some b])) \<noteq> None"
    by (auto simp: combineData_two split: option.splits)
qed

lemmas default_merge_facts = default_combiner.acc_result

text \<open>
  C1. Merging with the default combiner is exact for any sequence of answers: the error is the list
  of all errors in order (nil when there are none), there is a response as soon as one backend
  answered, each of its fields is that of the last answer that has the field, and it is complete if
  and only if every expected answer came, none failed, all were complete and (when there are
  several) none had nil data.
\<close>

theorem default_merge_exact:
  assumes "\<forall>r \<in> set (msg_resps ms). wf_resp r" and "length ms \<le> n"
    and "acc_Result (acc_run combineData ms (newIncrementalMergeAccumulator n)) = (res, err)"
  shows "err = newMergeError (msg_errs ms) \<and>
    (res = None \<longleftrightarrow> msg_resps ms = []) \<and>
    (\<forall>d. res = Some d \<longrightarrow> wf_resp d \<and> map_of (data_of d) = overlay (msg_resps ms) \<and>
       (rs_IsComplete d \<longleftrightarrow> length ms = n \<and> msg_errs ms = [] \<and> all_whole (msg_resps ms)))"
  using assms by (rule default_combiner.acc_result)

definition sample_msgs :: "msg list" where
  "sample_msgs =
     [MResp (new_response (Some [(''a'', VInt 1)]) True), MErr ENoHosts,
      MResp (new_response (Some [(''a'', VInt 2), (''b'', VNil)]) True)]"

lemma sample_msgs_ok:
  "\<forall>r \<in> set (msg_resps sample_msgs). wf_resp r" "length sample_msgs \<le> 3"
  by (simp_all add: sample_msgs_def wf_resp_def new_response_def)

lemma sample_msgs_result:
  "acc_Result (acc_run combineData sample_msgs (newIncrementalMergeAccumulator 3)) =
     (Some (new_response (Some [(''a'', VInt 2), (''b'', VNil)]) False), newMergeError [ENoHosts])"
  by code_simp

theorem default_merge_exact_witness:
  "newMergeError [ENoHosts] = newMergeError (msg_errs sample_msgs) \<and>
   map_of [(''a'', VInt 2), (''b'', VNil)] = overlay (msg_resps sample_msgs) \<and>
   \<not> (length sample_msgs = 3 \<and> msg_errs sample_msgs = [] \<and> all_whole (msg_resps sample_msgs))"
  using default_merge_exact [OF sample_msgs_ok sample_msgs_result]
  by (simp add: new_response_def data_of_def)

text \<open>The order of the answers does not matter to responses with different fields.\<close>

lemma overlay_None: "overlay rs k = None \<longleftrightarrow> (\<forall>r \<in> set rs. map_of (data_of r) k = None)"
  by (induction rs rule: rev_induct) (auto simp: map_add_def split: option.splits)

lemma overlay_Some: "overlay rs k = Some v \<Longrightarrow> \<exists>r \<in> set rs. map_of (data_of r) k = Some v"
  by (induction rs rule: rev_induct) (auto simp: map_add_def split: option.splits)

lemma overlay_lookup:
  assumes "r \<in> set rs" and "map_of (data_of r) k = Some v"
    and "\<forall>r' \<in> set rs. \<forall>v'. map_of (data_of r') k = Some v' \<longrightarrow> v' = v"
  shows "overlay rs k = Some v"
proof (cases "overlay rs k")
  case None
  with assms(1,2) show ?thesis by (simp add: overlay_None)
next
  case (Some v')
  with overlay_Some [OF Some] assms(3) show ?thesis by blast
qed

text \<open>Fields no two responses share: then only the responses matter, not their order.\<close>

definition disjoint_fields :: "response list \<Rightarrow> bool" where
  "disjoint_fields rs \<longleftrightarrow>
     (\<forall>r \<in> set rs. \<forall>r' \<in> set rs. \<forall>k v v'.
        map_of (data_of r) k = Some v \<longrightarrow> map_of (data_of r') k = Some v' \<longrightarrow> v = v')"

lemma overlay_order:
  assumes "disjoint_fields rs" and "set rs = set rs'"
  shows "overlay rs = overlay rs'"
proof
  fix k
  show "overlay rs k = overlay rs' k"
  proof (cases "overlay rs k")
    case None
    then show ?thesis using assms(2) overlay_None by metis
  next
    case (Some v)
    then obtain r where r: "r \<in> set rs" "map_of (data_of r) k = Some v"
      using overlay_Some by blast
    then have "overlay rs' k = Some v"
      using assms by (intro overlay_lookup [of r]) (auto simp: disjoint_fields_def)
    with Some show ?thesis by simp
  qed
qed

section \<open>Laws of the choices\<close>

lemma initResponseCombiners_get:
  "GetResponseCombiner initResponseCombiners n = (combineData, n = ''default'')"
  by (simp add: GetResponseCombiner_def initResponseCombiners_def newCombinerRegister_def
      Untyped_Get_Register)

text \<open>
  Whatever combiners are registered, a configuration that names one (by a string) gets it, and
  one that names none, or an unknown one, gets what is registered as \<open>default\<close>; only a name that
  is not a string panics.
\<close>

theorem getResponseCombiner_cases:
  "getResponseCombiner reg extra =
     (case obind (section_of extra proxy_Namespace) (\<lambda>e. map_of e ''combiner'') of
        None \<Rightarrow> Some (fst (GetResponseCombiner reg ''default''))
      | Some v \<Rightarrow>
          (case as_str v of
             None \<Rightarrow> None
           | Some n \<Rightarrow>
               Some (case Untyped_Get (cr_data reg) n of
                  Some rc \<Rightarrow> rc | None \<Rightarrow> fst (GetResponseCombiner reg ''default''))))"
  by (simp add: getResponseCombiner_def getResponseCombinerName_def GetResponseCombiner_def
      obind_def split: option.split)

text \<open>The merger a configuration selects is always one that is registered.\<close>

lemma getMergerFactory_registered:
  assumes "has_key ms ''parallel''" and "has_key ms ''sequential''"
  shows "\<exists>m. fst (getMergerFactory ms cfg) = Some m \<and>
    map_of ms (snd (getMergerFactory ms cfg)) = Some m"
  using assms
  by (auto simp: getMergerFactory_def Let_def split: option.split go_val_split bool.split)

lemma hasUnsafeBackends_single: "length (ep_Backend cfg) = 1 \<Longrightarrow> \<not> hasUnsafeBackends cfg"
  by (simp add: hasUnsafeBackends_def)

end
