(* ===== verification/Proxy_Parallel.thy ===== *)
theory Proxy_Parallel
  imports Proxy_Merging
begin

text \<open>
  \<open>parallelMerge\<close> of \<open>proxy/merging.go\<close> as a step relation: one goroutine (\<open>requestPart\<close>) per
  backend that is not filtered out, each putting one message into one of two buffered channels,
  and the caller receiving as many messages as there are goroutines.

  \<open>outs i\<close> is what the proxy of backend \<open>i\<close> returns in this execution (a response and an error,
  both possibly nil); it is arbitrary, like the moment each goroutine ends and the moment the
  context ends. A panic in a goroutine ends the whole process and is not modelled here.
\<close>

section \<open>States and steps\<close>

type_synonym filterer = "(request \<Rightarrow> bool) option"

text \<open>The filters may be fewer than the backends, and nil entries let the backend through.\<close>

definition filtered_out :: "filterer list \<Rightarrow> request \<Rightarrow> nat \<Rightarrow> bool" where
  "filtered_out filters request i =
     (if i < length filters then
        (case filters ! i of None \<Rightarrow> False | Some f \<Rightarrow> \<not> f request)
      else False)"

definition launched :: "filterer list \<Rightarrow> request \<Rightarrow> nat \<Rightarrow> nat list" where
  "launched filters request n = filter (\<lambda>i. \<not> filtered_out filters request i) [0..<n]"

type_synonym outcomes = "nat \<Rightarrow> response option \<times> go_err option"

text \<open>
  \<open>pm_running\<close> are the goroutines that have not sent yet, \<open>pm_parts\<close> and \<open>pm_failed\<close> the
  buffered channels, \<open>pm_done\<close> the local context, \<open>pm_i\<close> the counter of the receiving loop.
\<close>

record pmerge =
  pm_running :: "nat list"
  pm_parts :: "response list"
  pm_failed :: "go_err list"
  pm_done :: "go_err option"
  pm_i :: nat
  pm_acc :: incrementalMergeAccumulator
  pm_result :: "(response option \<times> go_err option) option"

definition pm_init :: "nat list \<Rightarrow> pmerge" where
  "pm_init ls =
     \<lparr>pm_running = ls, pm_parts = [], pm_failed = [], pm_done = None, pm_i = 0,
      pm_acc = newIncrementalMergeAccumulator (length ls), pm_result = None\<rparr>"

text \<open>
  \<open>cap\<close> is the capacity of both channels (\<open>len(next)\<close>), \<open>n\<close> the number of goroutines. A send
  waits for room; the last select of \<open>requestPart\<close> may also take the context's end when it came.
\<close>

inductive pm_step ::
  "combiner \<Rightarrow> outcomes \<Rightarrow> nat \<Rightarrow> nat \<Rightarrow> pmerge \<Rightarrow> pmerge \<Rightarrow> bool"
  for rc :: combiner and outs :: outcomes and cap :: nat and n :: nat where
  send_err: "\<lbrakk>i \<in> set (pm_running s); outs i = (r, Some e); length (pm_failed s) < cap\<rbrakk> \<Longrightarrow>
    pm_step rc outs cap n s
      (s\<lparr>pm_running := remove1 i (pm_running s), pm_failed := pm_failed s @ [e]\<rparr>)"
| send_nil: "\<lbrakk>i \<in> set (pm_running s); outs i = (None, None); length (pm_failed s) < cap\<rbrakk> \<Longrightarrow>
    pm_step rc outs cap n s
      (s\<lparr>pm_running := remove1 i (pm_running s), pm_failed := pm_failed s @ [ENullResult]\<rparr>)"
| send_part: "\<lbrakk>i \<in> set (pm_running s); outs i = (Some r, None); length (pm_parts s) < cap\<rbrakk> \<Longrightarrow>
    pm_step rc outs cap n s
      (s\<lparr>pm_running := remove1 i (pm_running s), pm_parts := pm_parts s @ [r]\<rparr>)"
| send_ctx: "\<lbrakk>i \<in> set (pm_running s); outs i = (Some r, None); pm_done s = Some e;
      length (pm_failed s) < cap\<rbrakk> \<Longrightarrow>
    pm_step rc outs cap n s
      (s\<lparr>pm_running := remove1 i (pm_running s), pm_failed := pm_failed s @ [e]\<rparr>)"
| ctx_end: "pm_done s = None \<Longrightarrow> pm_step rc outs cap n s (s\<lparr>pm_done := Some e\<rparr>)"
| recv_failed: "\<lbrakk>pm_i s < n; pm_failed s = e # es\<rbrakk> \<Longrightarrow>
    pm_step rc outs cap n s
      (s\<lparr>pm_failed := es, pm_i := Suc (pm_i s), pm_acc := acc_Merge rc 0 None (Some e) (pm_acc s)\<rparr>)"
| recv_part: "\<lbrakk>pm_i s < n; pm_parts s = r # rs\<rbrakk> \<Longrightarrow>
    pm_step rc outs cap n s
      (s\<lparr>pm_parts := rs, pm_i := Suc (pm_i s), pm_acc := acc_Merge rc 0 (Some r) None (pm_acc s)\<rparr>)"
| return: "\<lbrakk>\<not> pm_i s < n; pm_result s = None\<rbrakk> \<Longrightarrow>
    pm_step rc outs cap n s (s\<lparr>pm_result := Some (acc_Result (pm_acc s))\<rparr>)"

inductive_cases pm_stepE: "pm_step rc outs cap n s t"

section \<open>The messages a run delivers\<close>

text \<open>The message of each backend; with the context's end it may be that error instead.\<close>

definition own_msg :: "outcomes \<Rightarrow> nat \<Rightarrow> msg" where
  "own_msg outs i =
     (case outs i of
        (_, Some e) \<Rightarrow> MErr e
      | (None, None) \<Rightarrow> MErr ENullResult
      | (Some r, None) \<Rightarrow> MResp r)"

lemma own_msg_simps:
  "outs i = (r, Some e) \<Longrightarrow> own_msg outs i = MErr e"
  "outs i = (None, None) \<Longrightarrow> own_msg outs i = MErr ENullResult"
  "outs i = (Some a, None) \<Longrightarrow> own_msg outs i = MResp a"
  by (simp_all add: own_msg_def split: option.split)

definition may_send :: "outcomes \<Rightarrow> go_err option \<Rightarrow> nat \<Rightarrow> msg \<Rightarrow> bool" where
  "may_send outs d i m \<longleftrightarrow>
     m = own_msg outs i \<or> (\<exists>r e. own_msg outs i = MResp r \<and> d = Some e \<and> m = MErr e)"

definition pm_buffered :: "pmerge \<Rightarrow> msg list" where
  "pm_buffered s = map MErr (pm_failed s) @ map MResp (pm_parts s)"

text \<open>
  The invariant: \<open>sent\<close> are the goroutines that ended with what each sent, \<open>got\<close> the messages the
  caller received, in order. Nothing is lost or made up, and the accumulator is the fold of \<open>got\<close>.
\<close>

definition pm_inv :: "combiner \<Rightarrow> outcomes \<Rightarrow> nat list \<Rightarrow> pmerge \<Rightarrow> bool" where
  "pm_inv rc outs ls s \<longleftrightarrow>
     (\<exists>sent got.
        mset (map fst sent) + mset (pm_running s) = mset ls \<and>
        mset (map snd sent) = mset got + mset (pm_buffered s) \<and>
        (\<forall>im \<in> set sent. may_send outs (pm_done s) (fst im) (snd im)) \<and>
        length got = pm_i s \<and>
        pm_acc s = acc_run rc got (newIncrementalMergeAccumulator (length ls)) \<and>
        (\<forall>res. pm_result s = Some res \<longrightarrow> pm_i s = length ls \<and> res = acc_Result (pm_acc s)))"

lemma pm_inv_init: "pm_inv rc outs ls (pm_init ls)"
  unfolding pm_inv_def
  by (intro exI [of _ "[]"]) (simp add: pm_init_def pm_buffered_def)

lemma pm_inv_count:
  assumes "pm_inv rc outs ls s"
  shows "length (pm_running s) + length (pm_failed s) + length (pm_parts s) + pm_i s = length ls"
proof -
  obtain sent got where g: "mset (map fst sent) + mset (pm_running s) = mset ls"
      "mset (map snd sent) = mset got + mset (pm_buffered s)" "length got = pm_i s"
    using assms unfolding pm_inv_def by blast
  have "size (mset (map fst sent) + mset (pm_running s)) = length ls"
    by (simp only: g(1) size_mset)
  moreover have "size (mset (map snd sent)) = length got + length (pm_buffered s)"
    by (simp only: g(2) size_union size_mset)
  ultimately show ?thesis using g(3) by (simp add: pm_buffered_def)
qed

lemma pm_inv_send:
  assumes "pm_inv rc outs ls s" and "i \<in> set (pm_running s)" and "may_send outs (pm_done s) i m"
    and t: "pm_running t = remove1 i (pm_running s)"
      "mset (pm_buffered t) = mset (pm_buffered s) + {#m#}"
      "pm_done t = pm_done s" "pm_i t = pm_i s" "pm_acc t = pm_acc s" "pm_result t = pm_result s"
  shows "pm_inv rc outs ls t"
proof -
  obtain sent got where g: "mset (map fst sent) + mset (pm_running s) = mset ls"
      "mset (map snd sent) = mset got + mset (pm_buffered s)"
      "\<forall>im \<in> set sent. may_send outs (pm_done s) (fst im) (snd im)"
      "length got = pm_i s"
      "pm_acc s = acc_run rc got (newIncrementalMergeAccumulator (length ls))"
      "\<forall>res. pm_result s = Some res \<longrightarrow> pm_i s = length ls \<and> res = acc_Result (pm_acc s)"
    using assms(1) unfolding pm_inv_def by blast
  have "mset (pm_running s) = add_mset i (mset (pm_running t))"
    using assms(2) t(1) by simp
  then have "mset (map fst (sent @ [(i, m)])) + mset (pm_running t) = mset ls"
    using g(1) by simp
  moreover have "mset (map snd (sent @ [(i, m)])) = mset got + mset (pm_buffered t)"
    using g(2) t(2) by simp
  ultimately show ?thesis
    unfolding pm_inv_def using g(3-6) assms(3) t
    by (intro exI [of _ "sent @ [(i, m)]"] exI [of _ got]) auto
qed

lemma pm_inv_recv:
  assumes "pm_inv rc outs ls s" and "pm_i s < length ls"
    and t: "pm_running t = pm_running s"
      "mset (pm_buffered s) = mset (pm_buffered t) + {#m#}"
      "pm_done t = pm_done s" "pm_i t = Suc (pm_i s)" "pm_acc t = acc_msg rc 0 m (pm_acc s)"
      "pm_result t = pm_result s"
  shows "pm_inv rc outs ls t"
proof -
  obtain sent got where g: "mset (map fst sent) + mset (pm_running s) = mset ls"
      "mset (map snd sent) = mset got + mset (pm_buffered s)"
      "\<forall>im \<in> set sent. may_send outs (pm_done s) (fst im) (snd im)"
      "length got = pm_i s"
      "pm_acc s = acc_run rc got (newIncrementalMergeAccumulator (length ls))"
      "\<forall>res. pm_result s = Some res \<longrightarrow> pm_i s = length ls \<and> res = acc_Result (pm_acc s)"
    using assms(1) unfolding pm_inv_def by blast
  have "mset (map snd sent) = mset (got @ [m]) + mset (pm_buffered t)"
    using g(2) t(2) by simp
  moreover have "pm_result s = None" using g(6) assms(2) by (cases "pm_result s") auto
  ultimately show ?thesis
    unfolding pm_inv_def using g(1,3-5) t
    by (intro exI [of _ sent] exI [of _ "got @ [m]"]) simp
qed

lemma pm_inv_ctx:
  assumes "pm_inv rc outs ls s" and "pm_done s = None"
  shows "pm_inv rc outs ls (s\<lparr>pm_done := Some e\<rparr>)"
proof -
  obtain sent got where g: "mset (map fst sent) + mset (pm_running s) = mset ls"
      "mset (map snd sent) = mset got + mset (pm_buffered s)"
      "\<forall>im \<in> set sent. may_send outs (pm_done s) (fst im) (snd im)"
      "length got = pm_i s"
      "pm_acc s = acc_run rc got (newIncrementalMergeAccumulator (length ls))"
      "\<forall>res. pm_result s = Some res \<longrightarrow> pm_i s = length ls \<and> res = acc_Result (pm_acc s)"
    using assms(1) unfolding pm_inv_def by blast
  have "\<forall>im \<in> set sent. may_send outs (Some e) (fst im) (snd im)"
    using g(3) assms(2) by (auto simp: may_send_def)
  then show ?thesis
    unfolding pm_inv_def using g
    by (intro exI [of _ sent] exI [of _ got]) (simp add: pm_buffered_def)
qed

lemma pm_inv_return:
  assumes "pm_inv rc outs ls s" and "\<not> pm_i s < length ls"
  shows "pm_inv rc outs ls (s\<lparr>pm_result := Some (acc_Result (pm_acc s))\<rparr>)"
  using assms pm_inv_count [OF assms(1)] unfolding pm_inv_def pm_buffered_def
  by auto

lemma pm_inv_step:
  assumes "pm_step rc outs cap (length ls) s t" and "pm_inv rc outs ls s"
  shows "pm_inv rc outs ls t"
  using assms(1)
proof cases
  case (send_err i r e)
  then show ?thesis
    by (intro pm_inv_send [OF assms(2), of i "MErr e"])
      (simp_all add: may_send_def own_msg_simps pm_buffered_def)
next
  case (send_nil i)
  then show ?thesis
    by (intro pm_inv_send [OF assms(2), of i "MErr ENullResult"])
      (simp_all add: may_send_def own_msg_simps pm_buffered_def)
next
  case (send_part i r)
  then show ?thesis
    by (intro pm_inv_send [OF assms(2), of i "MResp r"])
      (simp_all add: may_send_def own_msg_simps pm_buffered_def)
next
  case (send_ctx i r e)
  then show ?thesis
    by (intro pm_inv_send [OF assms(2), of i "MErr e"])
      (simp_all add: may_send_def own_msg_simps pm_buffered_def)
next
  case (ctx_end e)
  then show ?thesis by (simp add: pm_inv_ctx [OF assms(2)])
next
  case (recv_failed e es)
  then show ?thesis
    by (intro pm_inv_recv [OF assms(2), of _ "MErr e"]) (simp_all add: pm_buffered_def)
next
  case (recv_part r rs)
  then show ?thesis
    by (intro pm_inv_recv [OF assms(2), of _ "MResp r"]) (simp_all add: pm_buffered_def)
next
  case return
  then show ?thesis by (simp add: pm_inv_return [OF assms(2)])
qed

lemma pm_inv_reach:
  "(pm_step rc outs cap (length ls))\<^sup>*\<^sup>* (pm_init ls) s \<Longrightarrow> pm_inv rc outs ls s"
  by (induction rule: rtranclp_induct) (auto intro: pm_inv_init pm_inv_step)

text \<open>What has arrived when the merge returns.\<close>

lemma pm_inv_final:
  assumes "pm_inv rc outs ls s" and "pm_result s = Some res"
  shows "\<exists>sent. mset (map fst sent) = mset ls \<and>
    (\<forall>im \<in> set sent. may_send outs (pm_done s) (fst im) (snd im)) \<and>
    (\<exists>got. mset got = mset (map snd sent) \<and>
      res = acc_Result (acc_run rc got (newIncrementalMergeAccumulator (length ls))))"
proof -
  obtain sent got where g: "mset (map fst sent) + mset (pm_running s) = mset ls"
      "mset (map snd sent) = mset got + mset (pm_buffered s)"
      "\<forall>im \<in> set sent. may_send outs (pm_done s) (fst im) (snd im)"
      "pm_acc s = acc_run rc got (newIncrementalMergeAccumulator (length ls))"
      "pm_i s = length ls" "res = acc_Result (pm_acc s)"
    using assms unfolding pm_inv_def by blast
  have "pm_running s = []" "pm_buffered s = []"
    using pm_inv_count [OF assms(1)] g(5) by (auto simp: pm_buffered_def)
  then show ?thesis using g by (intro exI [of _ sent] conjI exI [of _ got]) auto
qed

section \<open>Progress\<close>

text \<open>
  The measure: two units per goroutine that has not sent, one per buffered message, one for the
  context and one for the return. Every step takes at least one.
\<close>

definition pm_left :: "pmerge \<Rightarrow> nat" where
  "pm_left s = 2 * length (pm_running s) + length (pm_failed s) + length (pm_parts s)
     + (if pm_done s = None then 1 else 0) + (if pm_result s = None then 1 else 0)"

lemma length_remove1_Suc: "i \<in> set xs \<Longrightarrow> length xs = Suc (length (remove1 i xs))"
  by (induction xs) auto

lemma pm_step_left: "pm_step rc outs cap n s t \<Longrightarrow> pm_left t < pm_left s"
  by (erule pm_stepE) (auto simp: pm_left_def dest: length_remove1_Suc)

lemma pm_steps_left: "(pm_step rc outs cap n ^^ k) s t \<Longrightarrow> k + pm_left t \<le> pm_left s"
proof (induction k arbitrary: t)
  case 0
  then show ?case by simp
next
  case (Suc k)
  then obtain u where "(pm_step rc outs cap n ^^ k) s u" "pm_step rc outs cap n u t" by auto
  with Suc.IH [of u] pm_step_left [of rc outs cap n u t] show ?case by simp
qed

lemma pm_inv_progress:
  assumes "pm_inv rc outs ls s" and "length ls \<le> cap" and "pm_result s = None"
  shows "\<exists>t. pm_step rc outs cap (length ls) s t"
proof -
  note count = pm_inv_count [OF assms(1)]
  consider (run) i rn where "pm_running s = i # rn" | (fail) e es where "pm_failed s = e # es"
    | (part) r rs where "pm_parts s = r # rs"
    | (idle) "pm_running s = []" "pm_failed s = []" "pm_parts s = []"
    by (cases "pm_running s"; cases "pm_failed s"; cases "pm_parts s") auto
  then show ?thesis
  proof cases
    case run
    then have i: "i \<in> set (pm_running s)" by simp
    have room: "length (pm_failed s) < cap" "length (pm_parts s) < cap"
      using count run assms(2) by auto
    obtain r e where o: "outs i = (r, e)" by (cases "outs i")
    show ?thesis
      using i room o by (cases e; cases r) (blast intro: pm_step.intros)+
  next
    case fail
    then have "pm_i s < length ls" using count by simp
    with fail show ?thesis by (blast intro: pm_step.intros)
  next
    case part
    then have "pm_i s < length ls" using count by simp
    with part show ?thesis by (blast intro: pm_step.intros)
  next
    case idle
    then have "\<not> pm_i s < length ls" using count by simp
    with assms(3) show ?thesis by (blast intro: pm_step.intros)
  qed
qed


section \<open>The result\<close>

lemma msg_errs_mset: "mset ms = mset ms' \<Longrightarrow> mset (msg_errs ms) = mset (msg_errs ms')"
proof -
  have "mset (msg_errs ms) = \<Sum>\<^sub># (image_mset (\<lambda>m. mset (msg_err m)) (mset ms))" for ms
    by (induction ms) simp_all
  then show "mset ms = mset ms' \<Longrightarrow> mset (msg_errs ms) = mset (msg_errs ms')" by simp
qed

lemma msg_resps_mset: "mset ms = mset ms' \<Longrightarrow> mset (msg_resps ms) = mset (msg_resps ms')"
proof -
  have "mset (msg_resps ms) = \<Sum>\<^sub># (image_mset (\<lambda>m. mset (msg_resp m)) (mset ms))" for ms
    by (induction ms) simp_all
  then show "mset ms = mset ms' \<Longrightarrow> mset (msg_resps ms) = mset (msg_resps ms')" by simp
qed

lemma all_whole_mset: "mset rs = mset rs' \<Longrightarrow> all_whole rs = all_whole rs'"
  using mset_eq_setD [of rs rs'] mset_eq_length [of rs rs'] by (simp add: all_whole_def)

lemma msg_resps_set: "r \<in> set (msg_resps ms) \<longleftrightarrow> MResp r \<in> set ms"
proof (induction ms)
  case Nil
  then show ?case by simp
next
  case (Cons m ms)
  then show ?case by (cases m) auto
qed

text \<open>Without the context's end the messages are the backends' own.\<close>

lemma own_msgs_sent:
  assumes "mset (map fst sent) = mset ls" and "\<forall>im \<in> set sent. may_send outs None (fst im) (snd im)"
  shows "mset (map snd sent) = mset (map (own_msg outs) ls)"
proof -
  have "map snd sent = map (own_msg outs) (map fst sent)"
    using assms(2) by (induction sent) (auto simp: may_send_def)
  then have "mset (map snd sent) = image_mset (own_msg outs) (mset (map fst sent))"
    by (metis mset_map)
  then show ?thesis using assms(1) by simp
qed

text \<open>
  C7. When the context does not end before the backends answer and their answers share no field
  (or agree on it), every schedule of a parallel merge gives the same result: the data is the union
  of the answers, the error lists all failures (a nil answer being one), there is no response only
  when no backend answered, and the response is complete exactly when nobody failed, every answer
  was complete and, when there are several, had data.
\<close>

theorem parallel_merge_deterministic:
  assumes run: "(pm_step combineData outs cap (length ls))\<^sup>*\<^sup>* (pm_init ls) s"
    and fin: "pm_result s = Some (res, err)" and "pm_done s = None"
    and wf: "\<forall>i \<in> set ls. \<forall>r. own_msg outs i = MResp r \<longrightarrow> wf_resp r"
    and disj: "disjoint_fields (msg_resps (map (own_msg outs) ls))"
  shows "let rs = msg_resps (map (own_msg outs) ls); es = msg_errs (map (own_msg outs) ls) in
    (\<exists>es'. mset es' = mset es \<and> err = newMergeError es') \<and>
    (res = None \<longleftrightarrow> rs = []) \<and>
    (\<forall>d. res = Some d \<longrightarrow> map_of (data_of d) = overlay rs \<and>
       (rs_IsComplete d \<longleftrightarrow> es = [] \<and> all_whole rs))"
proof -
  let ?own = "map (own_msg outs) ls"
  obtain sent got where sent: "mset (map fst sent) = mset ls"
      "\<forall>im \<in> set sent. may_send outs (pm_done s) (fst im) (snd im)"
    and got: "mset got = mset (map snd sent)"
      "acc_Result (acc_run combineData got (newIncrementalMergeAccumulator (length ls))) = (res, err)"
    using pm_inv_final [OF pm_inv_reach [OF run] fin] by auto
  have ms: "mset got = mset ?own"
    using own_msgs_sent [OF sent(1)] sent(2) got(1) assms(3) by simp
  have resps: "mset (msg_resps got) = mset (msg_resps ?own)"
    by (rule msg_resps_mset [OF ms])
  have errs: "mset (msg_errs got) = mset (msg_errs ?own)"
    by (rule msg_errs_mset [OF ms])
  have same_set: "set (msg_resps got) = set (msg_resps ?own)"
    by (rule mset_eq_setD [OF resps])
  have wf': "\<forall>r \<in> set (msg_resps got). wf_resp r"
    using wf by (auto simp: same_set msg_resps_set)
  have len: "length got = length ls" using mset_eq_length [OF ms] by simp
  note res = default_merge_facts [OF wf' eq_imp_le [OF len] got(2)]
  have "overlay (msg_resps got) = overlay (msg_resps ?own)"
    using overlay_order [of "msg_resps ?own" "msg_resps got"] disj same_set by simp
  moreover have "msg_errs got = [] \<longleftrightarrow> msg_errs ?own = []"
    using errs by (metis mset_zero_iff)
  moreover have "msg_resps got = [] \<longleftrightarrow> msg_resps ?own = []"
    using resps by (metis mset_zero_iff)
  ultimately show ?thesis
    using res errs len all_whole_mset [OF resps] by (auto simp: Let_def)
qed

text \<open>
  Whatever the schedule and whenever the context ends, a parallel merge does not overstate its
  result: each field of the response is one some launched backend answered, and the response is
  complete only if every launched backend answered, with a complete response and no error.
\<close>

theorem parallel_merge_sound:
  assumes run: "(pm_step combineData outs cap (length ls))\<^sup>*\<^sup>* (pm_init ls) s"
    and fin: "pm_result s = Some (Some d, err)"
    and wf: "\<forall>i \<in> set ls. \<forall>r. own_msg outs i = MResp r \<longrightarrow> wf_resp r"
  shows "(\<forall>k v. map_of (data_of d) k = Some v \<longrightarrow>
      (\<exists>i \<in> set ls. \<exists>r. outs i = (Some r, None) \<and> map_of (data_of r) k = Some v)) \<and>
    (rs_IsComplete d \<longrightarrow> err = None \<and>
      (\<forall>i \<in> set ls. \<exists>r. outs i = (Some r, None) \<and> rs_IsComplete r))"
proof -
  obtain sent got where sent: "mset (map fst sent) = mset ls"
      "\<forall>im \<in> set sent. may_send outs (pm_done s) (fst im) (snd im)"
    and got: "mset got = mset (map snd sent)"
      "acc_Result (acc_run combineData got (newIncrementalMergeAccumulator (length ls))) = (Some d, err)"
    using pm_inv_final [OF pm_inv_reach [OF run] fin] by auto
  have own: "own_msg outs i = MResp r \<longleftrightarrow> outs i = (Some r, None)" for i r
    by (auto simp: own_msg_def split: prod.splits option.splits)
  have origin: "fst im \<in> set ls \<and> (\<forall>r. snd im = MResp r \<longrightarrow> outs (fst im) = (Some r, None))"
    if "im \<in> set sent" for im
    using that sent(2) mset_eq_setD [OF sent(1)] by (auto simp: may_send_def own)
  have ans: "\<exists>i \<in> set ls. outs i = (Some r, None)" if "r \<in> set (msg_resps got)" for r
    using that mset_eq_setD [OF got(1)] origin by (fastforce simp: msg_resps_set)
  have wf': "\<forall>r \<in> set (msg_resps got). wf_resp r"
    using ans wf own by blast
  have "length got = length ls" using mset_eq_length [OF got(1)] mset_eq_length [OF sent(1)] by simp
  note res = default_merge_facts [OF wf' eq_imp_le [OF this] got(2)]
  have "\<exists>r. outs i = (Some r, None) \<and> rs_IsComplete r"
    if "rs_IsComplete d" and "i \<in> set ls" for i
  proof -
    have "i \<in> set (map fst sent)" using that(2) mset_eq_setD [OF sent(1)] by simp
    then obtain m where m: "(i, m) \<in> set sent" by auto
    then have in_got: "m \<in> set got" using mset_eq_setD [OF got(1)] by force
    have "msg_errs got = []" using res that(1) by simp
    then have "msg_err m = []" using in_got by (simp add: msg_errs_def)
    then obtain r where r: "m = MResp r" by (cases m) auto
    then have "r \<in> set (msg_resps got)" using in_got by (simp add: msg_resps_set)
    with res that(1) have "rs_IsComplete r" by (simp add: all_whole_def)
    with origin [OF m] r show ?thesis by simp
  qed
  moreover have "err = None" if "rs_IsComplete d"
    using res that by (simp add: newMergeError_def)
  moreover have "\<exists>i \<in> set ls. \<exists>r. outs i = (Some r, None) \<and> map_of (data_of r) k = Some v"
    if "map_of (data_of d) k = Some v" for k v
  proof -
    have "overlay (msg_resps got) k = Some v" using res that by simp
    then obtain r where "r \<in> set (msg_resps got)" "map_of (data_of r) k = Some v"
      using overlay_Some by blast
    with ans show ?thesis by blast
  qed
  ultimately show ?thesis by blast
qed

section \<open>A run\<close>

text \<open>Two backends; the second one answers first.\<close>

definition sample_outs :: outcomes where
  "sample_outs i =
     (if i = 0 then (Some (new_response (Some [(''a'', VInt 1)]) True), None)
      else (Some (new_response (Some [(''b'', VInt 2)]) True), None))"

definition sample_final :: pmerge where
  "sample_final =
     \<lparr>pm_running = [], pm_parts = [], pm_failed = [], pm_done = None, pm_i = 2,
      pm_acc = \<lparr>ac_pending = 0,
        ac_data = Some (new_response (Some [(''b'', VInt 2), (''a'', VInt 1)]) True),
        ac_errs = [], ac_owner = Some 0\<rparr>,
      pm_result = Some (Some (new_response (Some [(''b'', VInt 2), (''a'', VInt 1)]) True), None)\<rparr>"

lemma sample_run:
  "(pm_step combineData sample_outs 2 2)\<^sup>*\<^sup>* (pm_init [0, 1]) sample_final"
  apply (rule converse_rtranclp_into_rtranclp)
   apply (rule pm_step.send_part [where i = 1])
     apply (simp_all add: pm_init_def sample_outs_def)
  apply (rule converse_rtranclp_into_rtranclp)
   apply (rule pm_step.send_part [where i = 0])
     apply (simp_all add: sample_outs_def)
  apply (rule converse_rtranclp_into_rtranclp)
   apply (rule pm_step.recv_part)
    apply simp_all
  apply (rule converse_rtranclp_into_rtranclp)
   apply (rule pm_step.recv_part)
    apply simp_all
  apply (rule converse_rtranclp_into_rtranclp)
   apply (rule pm_step.return)
    apply simp_all
  apply (simp add: sample_final_def acc_Merge_def newIncrementalMergeAccumulator_def
      combineData_two acc_Result_def newMergeError_def new_response_def flip: numeral_2_eq_2)
  done


theorem parallel_merge_deterministic_witness:
  "let rs = msg_resps (map (own_msg sample_outs) [0, 1]);
       es = msg_errs (map (own_msg sample_outs) [0, 1]) in
    (\<exists>es'. mset es' = mset es \<and> None = newMergeError es') \<and>
    (Some (new_response (Some [(''b'', VInt 2), (''a'', VInt 1)]) True) = None \<longleftrightarrow> rs = []) \<and>
    (\<forall>d. Some (new_response (Some [(''b'', VInt 2), (''a'', VInt 1)]) True) = Some d \<longrightarrow>
       map_of (data_of d) = overlay rs \<and> (rs_IsComplete d \<longleftrightarrow> es = [] \<and> all_whole rs))"
proof (rule parallel_merge_deterministic)
  show "(pm_step combineData sample_outs 2 (length [0::nat, 1]))\<^sup>*\<^sup>* (pm_init [0, 1]) sample_final"
    using sample_run by (simp flip: numeral_2_eq_2)
qed (auto simp: sample_final_def sample_outs_def own_msg_def wf_resp_def disjoint_fields_def
    new_response_def data_of_def split: if_splits)

theorem parallel_merge_sound_witness:
  "(\<exists>i \<in> set [0, 1]. \<exists>r. sample_outs i = (Some r, None) \<and> map_of (data_of r) ''b'' = Some (VInt 2)) \<and>
   (\<exists>r. sample_outs 0 = (Some r, None) \<and> rs_IsComplete r)"
proof -
  let ?d = "new_response (Some [(''b'', VInt 2), (''a'', VInt 1)]) True"
  have run: "(pm_step combineData sample_outs 2 (length [0::nat, 1]))\<^sup>*\<^sup>* (pm_init [0, 1]) sample_final"
    using sample_run by (simp flip: numeral_2_eq_2)
  have "(\<forall>k v. map_of (data_of ?d) k = Some v \<longrightarrow>
      (\<exists>i \<in> set [0, 1]. \<exists>r. sample_outs i = (Some r, None) \<and> map_of (data_of r) k = Some v)) \<and>
    (rs_IsComplete ?d \<longrightarrow> (None :: go_err option) = None \<and>
      (\<forall>i \<in> set [0, 1]. \<exists>r. sample_outs i = (Some r, None) \<and> rs_IsComplete r))"
    by (rule parallel_merge_sound [OF run])
      (auto simp: sample_final_def sample_outs_def own_msg_def wf_resp_def new_response_def
        split: if_splits)
  then show ?thesis by (simp add: new_response_def data_of_def)
qed

end
