(* ===== verification/Proxy_Sequential.thy ===== *)
theory Proxy_Sequential
  imports Proxy_Parallel Go_Regexp
begin

text \<open>
  \<open>sequentialMerge\<close> and \<open>sequentialMergerConfig\<close> of \<open>proxy/merging.go\<close>, and the middleware that
  chooses between the mergers. The backends are called one after the other; values of earlier
  answers become parameters of the later requests.

  Parameters of the model: \<open>show_v\<close> is the verb \<open>%v\<close> and \<open>fmt_float\<close> is
  \<open>strconv.FormatFloat(f, 'E', -1, 32)\<close>; \<open>pick i\<close> says which side of the select of
  \<open>sequentialRequestPart\<close> is taken when both are ready; \<open>reqClone\<close> and \<open>after\<close> are the way
  the request is cloned and what the merger's own request is once the callee had its clone
  (a shallow clone shares the maps).
\<close>

section \<open>Which values are propagated\<close>

record sequentialBackendReplacement =
  br_backendIndex :: nat
  br_destination :: string
  br_source :: "string list"
  br_fullResponse :: bool

definition is_path_char :: "char \<Rightarrow> bool" where
  "is_path_char c \<longleftrightarrow>
     is_lower c \<or> is_upper c \<or> is_digit c \<or> c = CHR ''_'' \<or> c = CHR ''-'' \<or> c = CHR ''.''"

text \<open>\<open>[Rr]esp(\d+)_?([\w-.]+)?\<close> and \<open>\{\{\.Resp(\d+)_([\w-.]+)\}\}\<close>.\<close>

definition rePropagatedParams :: re where
  "rePropagatedParams =
     RSeq (RClass (\<lambda>c. c = CHR ''R'' \<or> c = CHR ''r''))
       (RSeq (RLit ''esp'')
         (RSeq (RCap (RPlus is_digit))
           (RSeq (ROpt (RLit ''_'')) (ROpt (RCap (RPlus is_path_char))))))"

definition reUrlPatterns :: re where
  "reUrlPatterns =
     RSeq (RLit ''{{.Resp'')
       (RSeq (RCap (RPlus is_digit))
         (RSeq (RLit ''_'') (RSeq (RCap (RPlus is_path_char)) (RLit ''}}''))))"

definition destKeyGenerator :: "string \<Rightarrow> string \<Rightarrow> string" where
  "destKeyGenerator i t = ''Resp'' @ i @ (if t = [] then [] else ''_'' @ t)"

text \<open>The replacement of one match of either expression (two groups each).\<close>

definition replacement_of :: "(nat \<Rightarrow> bool) \<Rightarrow> string list \<Rightarrow> sequentialBackendReplacement list" where
  "replacement_of ok match =
     (case match of
        [_, i, t] \<Rightarrow>
          (case Atoi_digits i of
             None \<Rightarrow> []
           | Some n \<Rightarrow>
               if ok n then
                 [\<lparr>br_backendIndex = n, br_destination = destKeyGenerator i t,
                   br_source = split_on CHR ''.'' t, br_fullResponse = (t = [])\<rparr>]
               else [])
      | _ \<Rightarrow> [])"

text \<open>\<open>p.(string)\<close> panics on a parameter that is not a string: \<^const>\<open>None\<close>.\<close>

fun all_strings :: "value list \<Rightarrow> string list option" where
  "all_strings [] = Some []"
| "all_strings (p # ps) = obind (as_str p) (\<lambda>s. map_option (Cons s) (all_strings ps))"

definition propagated_params :: "endpoint_config \<Rightarrow> string list option" where
  "propagated_params cfg =
     (case obind (section_of (ep_ExtraConfig cfg) proxy_Namespace)
             (\<lambda>e. obind (map_of e ''sequential_propagated_params'') as_arr) of
        None \<Rightarrow> Some []
      | Some a \<Rightarrow> all_strings a)"

definition url_replacements :: "string \<Rightarrow> sequentialBackendReplacement list" where
  "url_replacements pattern =
     concat (map (replacement_of (\<lambda>_. True)) (find_all reUrlPatterns pattern))"

definition param_replacements :: "nat \<Rightarrow> string \<Rightarrow> sequentialBackendReplacement list" where
  "param_replacements totalBackends p =
     concat (map (replacement_of (\<lambda>n. n < totalBackends)) (find_all rePropagatedParams p))"

definition sequentialMergerConfig ::
  "endpoint_config \<Rightarrow> sequentialBackendReplacement list list option" where
  "sequentialMergerConfig cfg =
     map_option
       (\<lambda>params. map (\<lambda>(i, b).
          url_replacements (be_URLPattern b) @
          (if i > 0 then concat (map (param_replacements (length (ep_Backend cfg))) params) else []))
        (enumerate 0 (ep_Backend cfg)))
       (propagated_params cfg)"

section \<open>The merge\<close>

text \<open>
  \<open>sq_parts\<close> are the answers kept for the propagation, \<open>sq_registry\<close> the values already
  propagated.
\<close>

record 'a seqmerge =
  sq_request :: request
  sq_parts :: "response option list"
  sq_acc :: incrementalMergeAccumulator
  sq_registry :: "string gmap"
  sq_world :: "'a world_scheme"

definition set_param :: "string \<Rightarrow> string \<Rightarrow> 'a seqmerge \<Rightarrow> 'a seqmerge" where
  "set_param k v st =
     st\<lparr>sq_request := (sq_request st)\<lparr>rq_Params := mput k v (rq_Params (sq_request st))\<rparr>\<rparr>"

definition propagate :: "string \<Rightarrow> string \<Rightarrow> 'a seqmerge \<Rightarrow> 'a seqmerge" where
  "propagate k v st = (set_param k v st)\<lparr>sq_registry := mput k v (sq_registry st)\<rparr>"

text \<open>
  \<open>parts[j].Data\<close> as it is at that point: when the accumulated map is the map of that part, the
  fields merged since are in it.
\<close>

definition part_data :: "'a seqmerge \<Rightarrow> nat \<Rightarrow> value gmap" where
  "part_data st j =
     (if ac_owner (sq_acc st) = Some j then
        (case ac_data (sq_acc st) of None \<Rightarrow> [] | Some d \<Rightarrow> data_of d)
      else (case sq_parts st ! j of None \<Rightarrow> [] | Some p \<Rightarrow> data_of p))"

text \<open>Reading a part's \<open>Io\<close> empties it, also in the accumulated response while that is the part.\<close>

definition drained :: "response \<Rightarrow> response" where
  "drained p = p\<lparr>rs_Io := map_option (\<lambda>rd. ([], snd rd)) (rs_Io p)\<rparr>"

definition drain_io :: "nat \<Rightarrow> 'a seqmerge \<Rightarrow> 'a seqmerge" where
  "drain_io j st =
     st\<lparr>sq_parts := (sq_parts st)[j := map_option drained (sq_parts st ! j)],
        sq_acc := (if ac_owner (sq_acc st) = Some j
          then (sq_acc st)\<lparr>ac_data := map_option drained (ac_data (sq_acc st))\<rparr>
          else sq_acc st)\<rparr>"

fun walk_source :: "value gmap \<Rightarrow> string list \<Rightarrow> value gmap" where
  "walk_source data [] = data"
| "walk_source data (k # ks) =
     (case map_of data k of
        None \<Rightarrow> data
      | Some v \<Rightarrow> (case as_obj v of None \<Rightarrow> data | Some clean \<Rightarrow> walk_source clean ks))"

fun param_text :: "(64 word \<Rightarrow> string) \<Rightarrow> (value \<Rightarrow> string) \<Rightarrow> value \<Rightarrow> string" where
  "param_text fmt_float show_v (VArr xs) = join '','' (map show_v xs)"
| "param_text fmt_float show_v (VStr s) = s"
| "param_text fmt_float show_v (VInt i) = itoa i"
| "param_text fmt_float show_v (VFloat f) = fmt_float f"
| "param_text fmt_float show_v (VBool b) = (if b then ''true'' else ''false'')"
| "param_text fmt_float show_v v = show_v v"

definition apply_replacement ::
  "(value \<Rightarrow> string) \<Rightarrow> nat \<Rightarrow> sequentialBackendReplacement \<Rightarrow> 'a seqmerge \<Rightarrow> 'a seqmerge" where
  "apply_replacement param i r st =
     (let j = br_backendIndex r in
      if j \<ge> i \<or> sq_parts st ! j = None then st
      else
        (let data = walk_source (part_data st j) (butlast (br_source r)) in
         case map_of (sq_registry st) (br_destination r) of
           Some (c # found) \<Rightarrow> set_param (br_destination r) (c # found) st
         | _ \<Rightarrow>
             if br_fullResponse r then
               (case obind (sq_parts st ! j) rs_Io of
                  None \<Rightarrow> st
                | Some rd \<Rightarrow>
                    (case ReadAll rd of
                       Inl e \<Rightarrow> drain_io j st
                     | Inr buf \<Rightarrow> propagate (br_destination r) buf (drain_io j st)))
             else
               (case map_of data (last (br_source r)) of
                  None \<Rightarrow> st
                | Some v \<Rightarrow> propagate (br_destination r) (param v) st)))"

record seq_env =
  se_reqClone :: "request \<Rightarrow> request"
  se_after :: "request \<Rightarrow> request \<Rightarrow> request"
  se_combiner :: combiner
  se_repls :: "sequentialBackendReplacement list list"
  se_filters :: "filterer list"
  se_param :: "value \<Rightarrow> string"
  se_pick :: "nat \<Rightarrow> bool"

text \<open>\<open>sequentialRequestPart\<close>: the message one backend leads to.\<close>

definition seq_msg ::
  "bool \<Rightarrow> go_err option \<Rightarrow> response option \<Rightarrow> go_err option \<Rightarrow> msg" where
  "seq_msg pick cerr resp err =
     (case err of
        Some e \<Rightarrow> MErr e
      | None \<Rightarrow>
          (case resp of
             None \<Rightarrow> MErr ENullResult
           | Some r \<Rightarrow>
               (case cerr of
                  None \<Rightarrow> MResp r
                | Some e \<Rightarrow> if pick then MErr e else MResp r)))"

definition seq_result :: "'a seqmerge \<Rightarrow> pres \<times> request \<times> 'a world_scheme" where
  "seq_result st =
     (case acc_Result (sq_acc st) of (res, err) \<Rightarrow> (Ret res err, sq_request st, sq_world st))"

definition before_call :: "seq_env \<Rightarrow> nat \<Rightarrow> 'a seqmerge \<Rightarrow> 'a seqmerge" where
  "before_call env i st =
     (if i > 0 then fold (apply_replacement (se_param env) i) (se_repls env ! i) st else st)"

definition skip_backend :: "nat \<Rightarrow> 'a seqmerge \<Rightarrow> 'a seqmerge" where
  "skip_backend i st =
     st\<lparr>sq_parts := (sq_parts st)[i := Some (new_response (Some []) True)],
        sq_acc := (sq_acc st)\<lparr>ac_pending := ac_pending (sq_acc st) - 1\<rparr>\<rparr>"

definition after_call ::
  "seq_env \<Rightarrow> nat \<Rightarrow> msg \<Rightarrow> request \<Rightarrow> 'a world_scheme \<Rightarrow> 'a seqmerge \<Rightarrow> 'a seqmerge" where
  "after_call env i m r' w' st =
     st\<lparr>sq_request := se_after env (sq_request st) r', sq_world := w',
        sq_acc := acc_msg (se_combiner env) i m (sq_acc st)\<rparr>"

fun seq_loop ::
  "seq_env \<Rightarrow> ctx \<Rightarrow> nat \<Rightarrow> 'a proxy list \<Rightarrow> 'a seqmerge \<Rightarrow> pres \<times> request \<times> 'a world_scheme" where
  "seq_loop env localCtx i [] st = seq_result st"
| "seq_loop env localCtx i (n # next_ps) st =
     (let st = before_call env i st in
      if filtered_out (se_filters env) (sq_request st) i
      then seq_loop env localCtx (Suc i) next_ps (skip_backend i st)
      else
        (case n localCtx (se_reqClone env (sq_request st)) (sq_world st) of
           (Panic s, r', w') \<Rightarrow> (Panic s, se_after env (sq_request st) r', w')
         | (Ret resp err, r', w') \<Rightarrow>
             (case seq_msg (se_pick env i) (ctx_err localCtx w') resp err of
                MErr e \<Rightarrow>
                  if i = 0 then (Ret None (Some e), se_after env (sq_request st) r', w')
                  else seq_result (after_call env i (MErr e) r' w' st)
              | MResp resp \<Rightarrow>
                  (let st' = after_call env i (MResp resp) r' w' st in
                   if \<not> rs_IsComplete resp then seq_result st'
                   else seq_loop env localCtx (Suc i) next_ps
                     (st'\<lparr>sq_parts := (sq_parts st')[i := Some resp]\<rparr>)))))"

definition sequentialMerge :: "seq_env \<Rightarrow> int \<Rightarrow> 'a proxy list \<Rightarrow> 'a proxy" where
  "sequentialMerge env timeout next_ps ctx request w =
     seq_loop env (with_timeout ctx timeout w) 0 next_ps
       \<lparr>sq_request = request, sq_parts = replicate (length next_ps) None,
        sq_acc = newIncrementalMergeAccumulator (length next_ps), sq_registry = [],
        sq_world = w\<rparr>"

section \<open>The result of a sequential merge\<close>

text \<open>The accumulator of a run that has delivered the messages \<open>ms\<close> and skipped some backends.\<close>

definition seq_acc_ok ::
  "nat \<Rightarrow> nat \<Rightarrow> msg list \<Rightarrow> incrementalMergeAccumulator \<Rightarrow> bool" where
  "seq_acc_ok n skipped ms acc \<longleftrightarrow>
     default_combiner.acc_ok ms acc \<and> ac_pending acc = int n - int skipped - int (length ms)"

lemmas default_acc_ok_def = default_combiner.acc_ok_def

lemma apply_replacement_frame:
  assumes "seq_acc_ok n k ms (sq_acc st)"
  shows "seq_acc_ok n k ms (sq_acc (apply_replacement param i r st)) \<and>
    sq_world (apply_replacement param i r st) = sq_world st \<and>
    length (sq_parts (apply_replacement param i r st)) = length (sq_parts st)"
proof -
  have drain: "seq_acc_ok n k ms (sq_acc (drain_io j st)) \<and> sq_world (drain_io j st) = sq_world st
      \<and> length (sq_parts (drain_io j st)) = length (sq_parts st)" for j
    using assms
    by (cases "ac_data (sq_acc st)")
      (auto simp: drain_io_def drained_def seq_acc_ok_def default_acc_ok_def wf_resp_def data_of_def)
  then show ?thesis
    using assms
    by (auto simp: apply_replacement_def Let_def propagate_def set_param_def
        split: option.split list.split sum.split)
qed

lemma before_call_frame:
  assumes "seq_acc_ok n k ms (sq_acc st)"
  shows "seq_acc_ok n k ms (sq_acc (before_call env i st)) \<and>
    sq_world (before_call env i st) = sq_world st \<and>
    length (sq_parts (before_call env i st)) = length (sq_parts st)"
proof -
  have "seq_acc_ok n k ms (sq_acc (fold (apply_replacement param i) rs st)) \<and>
      sq_world (fold (apply_replacement param i) rs st) = sq_world st \<and>
      length (sq_parts (fold (apply_replacement param i) rs st)) = length (sq_parts st)" for param rs
    using assms
  proof (induction rs arbitrary: st)
    case Nil
    then show ?case by simp
  next
    case (Cons r rs)
    from Cons.IH [of "apply_replacement param i r st"]
      apply_replacement_frame [OF Cons.prems, of param i r] show ?case by simp
  qed
  then show ?thesis using assms by (simp add: before_call_def)
qed

lemma skip_backend_acc:
  "seq_acc_ok n k ms (sq_acc st) \<Longrightarrow> seq_acc_ok n (Suc k) ms (sq_acc (skip_backend i st))"
  by (simp add: skip_backend_def seq_acc_ok_def default_acc_ok_def)

lemma acc_msg_pending: "ac_pending (acc_msg rc i m acc) = ac_pending acc - 1"
  by (cases m) (auto simp: acc_Merge_def Let_def split: option.split prod.split)

lemma after_call_acc:
  assumes "seq_acc_ok n k ms (sq_acc st)" and "\<forall>r. m = MResp r \<longrightarrow> wf_resp r"
    and "se_combiner env = combineData"
  shows "seq_acc_ok n k (ms @ [m]) (sq_acc (after_call env i m r' w' st))"
  using assms default_combiner.acc_ok_err default_combiner.acc_ok_resp
  by (cases m) (auto simp: after_call_def seq_acc_ok_def acc_msg_pending simp del: acc_msg.simps)

lemma seq_acc_result:
  assumes "seq_acc_ok n k ms acc" and "length ms + k \<le> n" and "acc_Result acc = (res, err)"
  shows "err = newMergeError (msg_errs ms) \<and>
    (res = None \<longleftrightarrow> msg_resps ms = []) \<and>
    (\<forall>d. res = Some d \<longrightarrow> map_of (data_of d) = overlay (msg_resps ms) \<and>
       (rs_IsComplete d \<longleftrightarrow> length ms + k = n \<and> msg_errs ms = [] \<and> all_whole (msg_resps ms)))"
proof -
  have "ac_pending acc > 0 \<longleftrightarrow> \<not> length ms + k = n"
    using assms(1,2) by (auto simp: seq_acc_ok_def)
  from default_combiner.acc_ok_result [OF _ this assms(3), of ms] assms(1) show ?thesis
    by (auto simp: seq_acc_ok_def)
qed

text \<open>A message that lets the merge go on, and the calls a list of messages comes from.\<close>

definition goes_on :: "msg \<Rightarrow> bool" where
  "goes_on m \<longleftrightarrow> (\<exists>r. m = MResp r \<and> rs_IsComplete r)"

definition seq_called :: "'a proxy list \<Rightarrow> nat \<times> msg \<Rightarrow> bool" where
  "seq_called nexts im \<longleftrightarrow>
     fst im < length nexts \<and>
     (\<exists>c r w resp err pick cerr. fst ((nexts ! fst im) c r w) = Ret resp err \<and>
        snd im = seq_msg pick cerr resp err)"

definition proxies_wf :: "'a proxy list \<Rightarrow> bool" where
  "proxies_wf nexts \<longleftrightarrow>
     (\<forall>p \<in> set nexts. \<forall>c r w resp err. fst (p c r w) = Ret (Some resp) err \<longrightarrow> wf_resp resp)"

lemma seq_msg_resp: "seq_msg pick cerr resp err = MResp r \<Longrightarrow> resp = Some r \<and> err = None"
  by (auto simp: seq_msg_def split: option.splits if_splits)

text \<open>
  From any point of the loop on: it ends with the failure of the first backend, with the result of
  a message that does not go on, or with the result of all of them.
\<close>

definition seq_outcome ::
  "'a proxy list \<Rightarrow> nat \<Rightarrow> nat \<Rightarrow> (nat \<times> msg) list \<Rightarrow> response option \<Rightarrow> go_err option \<Rightarrow> bool" where
  "seq_outcome nexts n k called res err \<longleftrightarrow>
     (let ms = map snd called in
      sorted_wrt (<) (map fst called) \<and> (\<forall>im \<in> set called. seq_called nexts im) \<and>
      (\<forall>m \<in> set (butlast ms). goes_on m) \<and>
      (length ms + k = n \<or> ms \<noteq> [] \<and> \<not> goes_on (last ms) \<and> length ms + k \<le> n) \<and>
      err = newMergeError (msg_errs ms) \<and>
      (res = None \<longleftrightarrow> msg_resps ms = []) \<and>
      (\<forall>d. res = Some d \<longrightarrow> map_of (data_of d) = overlay (msg_resps ms) \<and>
         (rs_IsComplete d \<longleftrightarrow> length ms + k = n \<and> msg_errs ms = [] \<and> all_whole (msg_resps ms))))"

lemma seq_outcomeI:
  assumes "seq_acc_ok n k (map snd called) acc" and "acc_Result acc = (res, err)"
    and "sorted_wrt (<) (map fst called)" and "\<forall>im \<in> set called. seq_called nexts im"
    and "\<forall>m \<in> set (butlast (map snd called)). goes_on m"
    and "length called + k = n \<or> called \<noteq> [] \<and> \<not> goes_on (snd (last called)) \<and> length called + k \<le> n"
  shows "seq_outcome nexts n k called res err"
proof -
  have "length (map snd called) + k \<le> n" using assms(6) by auto
  from seq_acc_result [OF assms(1) this assms(2)] assms(3-6) show ?thesis
    by (auto simp: seq_outcome_def Let_def last_map)
qed

text \<open>The state of the loop before backend \<open>i\<close>.\<close>

definition seq_inv ::
  "'a proxy list \<Rightarrow> nat \<Rightarrow> nat \<Rightarrow> (nat \<times> msg) list \<Rightarrow> incrementalMergeAccumulator \<Rightarrow> bool" where
  "seq_inv nexts i k called acc \<longleftrightarrow>
     seq_acc_ok (length nexts) k (map snd called) acc \<and> length called + k = i \<and>
     i \<le> length nexts \<and> sorted_wrt (<) (map fst called) \<and>
     (\<forall>im \<in> set called. seq_called nexts im \<and> fst im < i \<and> goes_on (snd im))"

lemma seq_inv_end:
  assumes "seq_inv nexts (length nexts) k called acc" and "acc_Result acc = (res, err)"
  shows "seq_outcome nexts (length nexts) k called res err"
  by (rule seq_outcomeI [where acc = acc])
    (use assms in \<open>auto simp: seq_inv_def dest!: in_set_butlastD\<close>)

lemma seq_inv_skip:
  assumes "seq_inv nexts i k called (sq_acc st)" and "i < length nexts"
  shows "seq_inv nexts (Suc i) (Suc k) called (sq_acc (skip_backend i st))"
  using assms skip_backend_acc by (auto simp: seq_inv_def)

lemma seq_inv_before:
  "seq_inv nexts i k called (sq_acc st) \<Longrightarrow> seq_inv nexts i k called (sq_acc (before_call env i st))"
  using before_call_frame [of "length nexts" k "map snd called" st env i]
  by (simp add: seq_inv_def)

lemma seq_inv_go_on:
  assumes "seq_inv nexts i k called (sq_acc st)" and "i < length nexts"
    and "seq_called nexts (i, m)" and "\<forall>r. m = MResp r \<longrightarrow> wf_resp r" and "goes_on m"
    and "se_combiner env = combineData"
  shows "seq_inv nexts (Suc i) k (called @ [(i, m)]) (sq_acc (after_call env i m r' w' st))"
  using assms after_call_acc [of "length nexts" k "map snd called" st m env i r' w']
  by (auto simp: seq_inv_def sorted_wrt_append)

lemma seq_inv_stop:
  assumes "seq_inv nexts i k called (sq_acc st)" and "i < length nexts"
    and "seq_called nexts (i, m)" and "\<forall>r. m = MResp r \<longrightarrow> wf_resp r" and "\<not> goes_on m"
    and "se_combiner env = combineData"
    and "acc_Result (sq_acc (after_call env i m r' w' st)) = (res, err)"
  shows "seq_outcome nexts (length nexts) k (called @ [(i, m)]) res err"
  by (rule seq_outcomeI [where acc = "sq_acc (after_call env i m r' w' st)"])
    (use assms after_call_acc [of "length nexts" k "map snd called" st m env i r' w'] in
      \<open>auto simp: seq_inv_def sorted_wrt_append\<close>)

lemma seq_call_msg:
  assumes "proxies_wf nexts" and "i < length nexts" and "nexts ! i = n"
    and "n c r w = (Ret resp e, r1, w1)"
  shows "seq_called nexts (i, seq_msg pick (ctx_err c w1) resp e)"
    and "\<forall>r. seq_msg pick (ctx_err c w1) resp e = MResp r \<longrightarrow> wf_resp r"
proof -
  show "seq_called nexts (i, seq_msg pick (ctx_err c w1) resp e)"
    using assms(2-4) unfolding seq_called_def fst_conv snd_conv by (metis fst_conv)
  have "n \<in> set nexts" using assms(2,3) by auto
  moreover have "fst (n c r w) = Ret (Some r0) None"
    if "seq_msg pick (ctx_err c w1) resp e = MResp r0" for r0
    using seq_msg_resp that assms(4) by fastforce
  ultimately show "\<forall>r. seq_msg pick (ctx_err c w1) resp e = MResp r \<longrightarrow> wf_resp r"
    using assms(1) unfolding proxies_wf_def by blast
qed

text \<open>
  What a call that is not skipped leads to: the error of the first backend, the end of the loop with
  what has been merged, or the next backend.
\<close>

lemma seq_loop_call:
  assumes "seq_loop env c i (n # ns) st = (Ret res err, r', w')"
    and "\<not> filtered_out (se_filters env) (sq_request (before_call env i st)) i"
    and "n c (se_reqClone env (sq_request (before_call env i st))) (sq_world (before_call env i st)) =
      (Ret resp e, r1, w1)"
    and "m = seq_msg (se_pick env i) (ctx_err c w1) resp e"
    and "st' = after_call env i m r1 w1 (before_call env i st)"
  obtains (first) e' where "res = None" and "err = Some e'"
    | (stop) "\<not> goes_on m" and "acc_Result (sq_acc st') = (res, err)"
    | (go) resp' where "m = MResp resp'" and "rs_IsComplete resp'"
        and "seq_loop env c (Suc i) ns (st'\<lparr>sq_parts := (sq_parts st')[i := Some resp']\<rparr>) =
          (Ret res err, r', w')"
proof (cases m)
  case (MErr e')
  then have "\<not> goes_on m" by (simp add: goes_on_def)
  moreover note sm = assms(4) [unfolded MErr, symmetric]
  ultimately show thesis
    using assms(1-3,5) first stop unfolding MErr
    by (cases "i = 0") (auto simp: sm Let_def seq_result_def split: prod.splits)
next
  case (MResp resp')
  note sm = assms(4) [unfolded MResp, symmetric]
  show thesis
  proof (cases "rs_IsComplete resp'")
    case True
    with assms(1-3,5) MResp show thesis by (intro go [of resp']) (simp_all add: sm Let_def)
  next
    case False
    then have "\<not> goes_on m" using MResp by (simp add: goes_on_def)
    moreover have "acc_Result (sq_acc st') = (res, err)"
      using assms(1-3,5) MResp False by (simp add: sm Let_def seq_result_def split: prod.splits)
    ultimately show thesis by (rule stop)
  qed
qed

lemma seq_loop_outcome:
  assumes "se_combiner env = combineData" and "proxies_wf nexts"
    and "seq_loop env c i ns st = (Ret res err, r', w')"
    and "ns = drop i nexts" and "seq_inv nexts i k called (sq_acc st)"
  shows "(\<exists>e. res = None \<and> err = Some e) \<or>
    (\<exists>called' k'. seq_outcome nexts (length nexts) k' called' res err)"
  using assms(3-5)
proof (induction ns arbitrary: i st called k)
  case Nil
  then have i: "i = length nexts" by (simp add: seq_inv_def)
  from Nil have "acc_Result (sq_acc st) = (res, err)"
    by (simp add: seq_result_def split: prod.splits)
  with Nil(3) i seq_inv_end show ?case by blast
next
  case (Cons n ns)
  let ?st1 = "before_call env i st"
  have i: "i < length nexts" using Cons(3) by (metis drop_all list.distinct(1) not_le)
  then have n: "nexts ! i = n" and ns: "ns = drop (Suc i) nexts"
    using Cons(3) Cons_nth_drop_Suc [OF i] by (metis list.inject)+
  have inv: "seq_inv nexts i k called (sq_acc ?st1)" by (rule seq_inv_before [OF Cons(4)])
  show ?case
  proof (cases "filtered_out (se_filters env) (sq_request ?st1) i")
    case True
    with Cons(2) have "seq_loop env c (Suc i) ns (skip_backend i ?st1) = (Ret res err, r', w')"
      by (simp add: Let_def)
    from Cons(1) [OF this ns seq_inv_skip [OF inv i]] show ?thesis .
  next
    case False
    obtain resp e r1 w1 where
      call: "n c (se_reqClone env (sq_request ?st1)) (sq_world ?st1) = (Ret resp e, r1, w1)"
      using Cons(2) False
      by (cases "n c (se_reqClone env (sq_request ?st1)) (sq_world ?st1)" rule: prod_cases3;
          cases "fst (n c (se_reqClone env (sq_request ?st1)) (sq_world ?st1))")
        (auto simp: Let_def)
    let ?m = "seq_msg (se_pick env i) (ctx_err c w1) resp e"
    note sent = seq_call_msg [OF assms(2) i n call, of "se_pick env i"]
    show ?thesis
      using Cons(2) False call refl refl
    proof (cases rule: seq_loop_call)
      case (first e')
      then show ?thesis by blast
    next
      case stop
      with seq_inv_stop [OF inv i sent _ assms(1)] show ?thesis by blast
    next
      case (go resp')
      have "seq_inv nexts (Suc i) k (called @ [(i, ?m)]) (sq_acc (after_call env i ?m r1 w1 ?st1))"
        using seq_inv_go_on [OF inv i sent _ assms(1), of r1 w1] go by (simp add: goes_on_def)
      with Cons(1) [OF go(3) ns] show ?thesis by simp
    qed
  qed
qed


text \<open>
  The first backend decides alone: when it fails, or answers nothing, the merge returns its bare
  error at once; when its answer is incomplete, the merge returns that answer at once. In both cases
  no other backend is called: the world is the one the first call left.
\<close>

theorem sequential_first_decides:
  assumes "\<not> filtered_out (se_filters env) request 0"
    and "n (with_timeout ctx timeout w) (se_reqClone env request) w = (Ret resp err, r', w')"
    and "ctx_err (with_timeout ctx timeout w) w' = None"
  shows "sequentialMerge env timeout (n # ns) ctx request w =
      (case (resp, err) of
         (_, Some e) \<Rightarrow> (Ret None (Some e), se_after env request r', w')
       | (None, None) \<Rightarrow> (Ret None (Some ENullResult), se_after env request r', w')
       | (Some d, None) \<Rightarrow>
           if rs_IsComplete d then sequentialMerge env timeout (n # ns) ctx request w
           else (Ret (Some d) None, se_after env request r', w'))"
  using assms
  by (auto simp: sequentialMerge_def before_call_def seq_msg_def seq_result_def after_call_def
      acc_Merge_def acc_Result_def newIncrementalMergeAccumulator_def newMergeError_def Let_def
      split: option.split)

section \<open>Propagation\<close>

text \<open>
  Replacements with the same destination have the same source: the code derives both from the
  same two submatches.
\<close>

definition coherent :: "sequentialBackendReplacement list \<Rightarrow> bool" where
  "coherent rs \<longleftrightarrow>
     (\<forall>r \<in> set rs. \<forall>r' \<in> set rs. br_destination r = br_destination r' \<longrightarrow> r = r')"

lemma walk_source_vlookup:
  assumes "vlookup (VObj data) (ks @ [k]) = Some v"
  shows "map_of (walk_source data ks) k = Some v"
  using assms
proof (induction ks arbitrary: data)
  case Nil
  then show ?case by (simp split: option.splits)
next
  case (Cons k' ks)
  then obtain x where x: "map_of data k' = Some x" "vlookup x (ks @ [k]) = Some v"
    by (auto split: option.splits)
  then obtain m where m: "x = VObj m"
    by (cases x; cases ks) auto
  with Cons.IH [of m] x show ?case by simp
qed

text \<open>What a replacement does not touch: the parts' data, and other destinations.\<close>

lemma nth_update_self:
  "(xs[i := f (xs ! i)]) ! j = (if i = j \<and> i < length xs then f (xs ! j) else xs ! j)"
  by (cases "i < length xs") (auto simp: not_less list_update_beyond)

lemma data_of_drained [simp]: "data_of (drained p) = data_of p"
  by (simp add: data_of_def drained_def)

lemma drain_io_data [simp]: "part_data (drain_io i st) j = part_data st j"
  by (cases "ac_data (sq_acc st)"; cases "sq_parts st ! j")
    (auto simp add: part_data_def drain_io_def nth_update_self)

lemma drain_io_more [simp]:
  "sq_registry (drain_io i st) = sq_registry st" "sq_request (drain_io i st) = sq_request st"
  "sq_parts (drain_io i st) ! j = None \<longleftrightarrow> sq_parts st ! j = None"
  by (simp_all add: drain_io_def nth_update_self)

lemma propagate_simps [simp]:
  "part_data (propagate k v st) j = part_data st j" "sq_parts (propagate k v st) = sq_parts st"
  "sq_registry (propagate k v st) = mput k v (sq_registry st)"
  "rq_Params (sq_request (propagate k v st)) = mput k v (rq_Params (sq_request st))"
  "part_data (set_param k v st) j = part_data st j" "sq_parts (set_param k v st) = sq_parts st"
  "sq_registry (set_param k v st) = sq_registry st"
  "rq_Params (sq_request (set_param k v st)) = mput k v (rq_Params (sq_request st))"
  by (simp_all add: propagate_def set_param_def part_data_def)

lemma apply_replacement_other:
  "part_data (apply_replacement param i r st) j = part_data st j"
  "sq_parts (apply_replacement param i r st) ! j = None \<longleftrightarrow> sq_parts st ! j = None"
  "br_destination r \<noteq> k \<Longrightarrow>
     map_of (sq_registry (apply_replacement param i r st)) k = map_of (sq_registry st) k"
  "br_destination r \<noteq> k \<Longrightarrow>
     map_of (rq_Params (sq_request (apply_replacement param i r st))) k =
     map_of (rq_Params (sq_request st)) k"
  by (auto simp: apply_replacement_def Let_def gmap_simps
      split: option.split list.split sum.split)

lemma apply_replacement_found:
  assumes "br_backendIndex r < i" and "sq_parts st ! br_backendIndex r \<noteq> None"
    and "map_of (sq_registry st) (br_destination r) = Some (c # found)"
  shows "apply_replacement param i r st = set_param (br_destination r) (c # found) st"
  using assms by (auto simp add: apply_replacement_def Let_def)

lemma apply_replacement_value:
  assumes "br_backendIndex r < i" and "sq_parts st ! br_backendIndex r \<noteq> None"
    and "map_of (sq_registry st) (br_destination r) \<in> {None, Some [], Some (param v)}"
    and "\<not> br_fullResponse r" and "br_source r \<noteq> []"
    and "vlookup (VObj (part_data st (br_backendIndex r))) (br_source r) = Some v"
  shows "map_of (rq_Params (sq_request (apply_replacement param i r st))) (br_destination r) =
      Some (param v) \<and>
    map_of (sq_registry (apply_replacement param i r st)) (br_destination r) = Some (param v)"
proof -
  have "map_of (walk_source (part_data st (br_backendIndex r)) (butlast (br_source r)))
      (last (br_source r)) = Some v"
    using assms(5,6) by (intro walk_source_vlookup) simp
  then show ?thesis
    using assms(1-4)
    by (auto simp: apply_replacement_def Let_def gmap_simps split: list.split option.split)
qed

text \<open>A fact one replacement establishes, and the others for its destination keep.\<close>

lemma before_call_reaches:
  assumes rs: "r \<in> set (se_repls env ! i)" "0 < i"
    and one: "\<And>r' st. r' \<in> set (se_repls env ! i) \<Longrightarrow> br_destination r' = br_destination r \<Longrightarrow>
      P st \<Longrightarrow> P (apply_replacement (se_param env) i r' st) \<and>
        Q (apply_replacement (se_param env) i r' st)"
    and other: "\<And>r' st. r' \<in> set (se_repls env ! i) \<Longrightarrow> br_destination r' \<noteq> br_destination r \<Longrightarrow>
      P st \<Longrightarrow> P (apply_replacement (se_param env) i r' st) \<and>
        (Q st \<longrightarrow> Q (apply_replacement (se_param env) i r' st))"
    and "P st"
  shows "P (before_call env i st) \<and> Q (before_call env i st)"
proof -
  have "P (fold (apply_replacement (se_param env) i) rs st) \<and>
      (Q st \<or> r \<in> set rs \<longrightarrow> Q (fold (apply_replacement (se_param env) i) rs st))"
    if "set rs \<subseteq> set (se_repls env ! i)" "P st" for rs st
    using that
  proof (induction rs arbitrary: st)
    case Nil
    then show ?case by simp
  next
    case (Cons r' rs)
    from Cons.prems have r': "r' \<in> set (se_repls env ! i)" by simp
    show ?case
    proof (cases "br_destination r' = br_destination r")
      case True
      from one [OF r' True Cons.prems(2)] Cons.IH Cons.prems(1) show ?thesis by auto
    next
      case False
      from other [OF r' False Cons.prems(2)] Cons.IH Cons.prems(1) False show ?thesis by auto
    qed
  qed
  from this [of "se_repls env ! i" st] rs assms(5) show ?thesis by (simp add: before_call_def)
qed


text \<open>
  A propagated value is settled: once a non-empty one is recorded for a destination, every later
  backend whose replacements name that destination gets the recorded value, whatever the answers
  hold by then, and the record does not change.
\<close>

theorem propagation_settled:
  fixes st :: "'a seqmerge"
  assumes "r \<in> set (se_repls env ! i)" and "coherent (se_repls env ! i)"
    and "br_backendIndex r < i" and "sq_parts st ! br_backendIndex r \<noteq> None"
    and "map_of (sq_registry st) (br_destination r) = Some val" and "val \<noteq> []"
  shows "map_of (rq_Params (sq_request (before_call env i st))) (br_destination r) = Some val \<and>
    map_of (sq_registry (before_call env i st)) (br_destination r) = Some val"
proof -
  let ?k = "br_destination r" and ?j = "br_backendIndex r"
  let ?P = "\<lambda>t :: 'a seqmerge. sq_parts t ! ?j \<noteq> None \<and> map_of (sq_registry t) ?k = Some val"
  let ?Q = "\<lambda>t :: 'a seqmerge. map_of (rq_Params (sq_request t)) ?k = Some val"
  obtain c cs where val: "val = c # cs" using assms(6) by (cases val) auto
  have "?P (before_call env i st) \<and> ?Q (before_call env i st)"
  proof (rule before_call_reaches [OF assms(1)])
    show "0 < i" using assms(3) by simp
  next
    fix r' and t :: "'a seqmerge"
    assume r': "r' \<in> set (se_repls env ! i)" "br_destination r' = ?k" and P: "?P t"
    then have "r' = r" using assms(1,2) by (auto simp: coherent_def)
    with P assms(3) val apply_replacement_found [of r i t c cs "se_param env"]
    show "?P (apply_replacement (se_param env) i r' t) \<and>
        ?Q (apply_replacement (se_param env) i r' t)"
      by (simp add: gmap_simps)
  next
    fix r' and t :: "'a seqmerge"
    assume "r' \<in> set (se_repls env ! i)" "br_destination r' \<noteq> ?k" "?P t"
    then show "?P (apply_replacement (se_param env) i r' t) \<and>
        (?Q t \<longrightarrow> ?Q (apply_replacement (se_param env) i r' t))"
      by (simp add: apply_replacement_other)
  qed (use assms in simp)
  then show ?thesis by blast
qed

section \<open>The references in a URL pattern\<close>

text \<open>
  A URL pattern as the configuration writes it: plain text, references to other parameters and
  references to earlier answers.
\<close>

datatype url_piece = PText string | PParam string | PResp string string

fun piece_text :: "url_piece \<Rightarrow> string" where
  "piece_text (PText t) = t"
| "piece_text (PParam n) = ''{{.'' @ n @ ''}}''"
| "piece_text (PResp d t) = ''{{.Resp'' @ d @ ''_'' @ t @ ''}}''"

fun piece_ok :: "url_piece \<Rightarrow> bool" where
  "piece_ok (PText t) = (CHR ''{'' \<notin> set t)"
| "piece_ok (PParam n) = (CHR ''{'' \<notin> set n \<and> \<not> prefix ''Resp'' n)"
| "piece_ok (PResp d t) = (d \<noteq> [] \<and> t \<noteq> [] \<and> list_all is_digit d \<and> list_all is_path_char t)"

definition url_text :: "url_piece list \<Rightarrow> string" where
  "url_text ps = concat (map piece_text ps)"

fun piece_replacement :: "url_piece \<Rightarrow> sequentialBackendReplacement list" where
  "piece_replacement (PResp d t) =
     (case Atoi_digits d of
        None \<Rightarrow> []
      | Some n \<Rightarrow> [\<lparr>br_backendIndex = n, br_destination = ''Resp'' @ d @ ''_'' @ t,
          br_source = split_on CHR ''.'' t, br_fullResponse = False\<rparr>])"
| "piece_replacement _ = []"

lemma url_no_match:
  "c \<noteq> CHR ''{'' \<Longrightarrow> re_match_at reUrlPatterns (c # cs) = None"
  unfolding reUrlPatterns_def by (rule no_match_lit) simp

lemma find_all_plain:
  "CHR ''{'' \<notin> set x \<Longrightarrow> find_all reUrlPatterns (x @ s) = find_all reUrlPatterns s"
  by (rule find_all_skip [where P = "\<lambda>c. c \<noteq> CHR ''{''"]) (auto simp: url_no_match)

lemma find_all_param:
  assumes "CHR ''{'' \<notin> set n" and "\<not> prefix ''Resp'' n"
  shows "find_all reUrlPatterns (''{{.'' @ n @ ''}}'' @ s) = find_all reUrlPatterns s"
proof -
  have "\<not> prefix ''{{.Resp'' (''{{.'' @ n @ ''}}'' @ s)"
  proof
    assume "prefix ''{{.Resp'' (''{{.'' @ n @ ''}}'' @ s)"
    then have "prefix ''Resp'' (n @ ''}}'' @ s)" by simp
    then have "prefix ''Resp'' n"
      by (cases n; cases "tl n"; cases "tl (tl n)"; cases "tl (tl (tl n))") auto
    with assms(2) show False ..
  qed
  then have 1: "re_match_at reUrlPatterns (''{{.'' @ n @ ''}}'' @ s) = None"
    unfolding reUrlPatterns_def by (rule no_match_lit)
  have 2: "re_match_at reUrlPatterns (''{.'' @ n @ ''}}'' @ s) = None"
    unfolding reUrlPatterns_def by (rule no_match_lit) simp
  have "find_all reUrlPatterns (''{{.'' @ n @ ''}}'' @ s) =
      find_all reUrlPatterns ((''.'' @ n @ ''}}'') @ s)"
    using 1 2 by simp
  also have "\<dots> = find_all reUrlPatterns s"
    using assms(1) by (intro find_all_plain) auto
  finally show ?thesis .
qed

lemma find_all_resp:
  assumes "d \<noteq> []" and "t \<noteq> []" and "list_all is_digit d" and "list_all is_path_char t"
  shows "find_all reUrlPatterns (''{{.Resp'' @ d @ ''_'' @ t @ ''}}'' @ s) =
    [''{{.Resp'' @ d @ ''_'' @ t @ ''}}'', d, t] # find_all reUrlPatterns s"
proof -
  have t: "first_match (RCap (RPlus is_path_char)) (t @ ''}}'' @ s) (t, [t], ''}}'' @ s)"
    using assms(2,4)
    by (intro first_cap first_plus)
      (auto simp: list_all_iff is_path_char_def is_digit_def is_lower_def is_upper_def)
  have d: "first_match (RCap (RPlus is_digit)) (d @ ''_'' @ t @ ''}}'' @ s)
      (d, [d], ''_'' @ t @ ''}}'' @ s)"
    using assms(1,3)
    by (intro first_cap first_plus) (auto simp: list_all_iff is_digit_def)
  note first_seq [OF first_lit [of "''{{.Resp''"] first_seq [OF d first_seq [OF
        first_lit [of "''_''"] first_seq [OF t first_lit [of "''}}''"]]]]]
  then have "first_match reUrlPatterns (''{{.Resp'' @ d @ ''_'' @ t @ ''}}'' @ s)
      (''{{.Resp'' @ d @ ''_'' @ t @ ''}}'', [d, t], s)"
    by (simp add: reUrlPatterns_def)
  then have "re_match_at reUrlPatterns ((''{{.Resp'' @ d @ ''_'' @ t @ ''}}'') @ s) =
      Some (''{{.Resp'' @ d @ ''_'' @ t @ ''}}'', [d, t], s)"
    using first_match_at by simp
  from find_all_hit [OF this] show ?thesis by simp
qed

text \<open>
  The configuration finds exactly the references a URL pattern holds: for any pattern written as
  plain text, references to other parameters and references \<open>{{.Resp<n>_<path>}}\<close>, the
  replacements are those of the references, in order, each with the index, the destination and the
  path written there; an index that is not an int64 is dropped.
\<close>

theorem url_replacements_exact:
  assumes "\<forall>p \<in> set ps. piece_ok p"
  shows "url_replacements (url_text ps) = concat (map piece_replacement ps)"
  using assms
proof (induction ps)
  case Nil
  then show ?case by (simp add: url_replacements_def url_text_def)
next
  case (Cons p ps)
  have IH: "url_replacements (concat (map piece_text ps)) = concat (map piece_replacement ps)"
    using Cons by (simp add: url_text_def)
  show ?case
  proof (cases p)
    case (PText t)
    with Cons.prems IH show ?thesis by (simp add: url_text_def url_replacements_def find_all_plain)
  next
    case (PParam n)
    with Cons.prems IH find_all_param [of n "concat (map piece_text ps)"] show ?thesis
      by (simp add: url_text_def url_replacements_def del: find_all.simps)
  next
    case (PResp d t)
    with Cons.prems IH find_all_resp [of d t "concat (map piece_text ps)"] show ?thesis
      by (simp add: url_text_def url_replacements_def replacement_of_def destKeyGenerator_def
          del: find_all.simps split: option.split)
  qed
qed

section \<open>The merge middleware\<close>

text \<open>
  What \<open>NewMergeDataMiddleware\<close> makes of an endpoint and its proxies: the only proxy itself, a
  proxy that returns the error of the filterer factory, or a merge, with the way requests are
  cloned (\<open>CloneRequest\<close> when \<open>mp_deep\<close>, \<open>Clone\<close> otherwise), the timeout, the combiner, the
  filters and the merger with its replacements.
\<close>

datatype merge_kind =
    RunParallel
  | RunSequential "sequentialBackendReplacement list list"
  | RunCustom string

record merge_run =
  mp_deep :: bool
  mp_timeout :: int
  mp_combiner :: combiner
  mp_filters :: "filterer list"
  mp_kind :: merge_kind

datatype 'p merge_plan = SinglePlan 'p | FailPlan go_err | MergePlan merge_run

definition merger_kind :: "endpoint_config \<Rightarrow> merger option \<Rightarrow> merge_kind option" where
  "merger_kind cfg m =
     (case m of
        None \<Rightarrow> None
      | Some ParallelMerge \<Rightarrow> Some RunParallel
      | Some SequentialMerge \<Rightarrow> map_option RunSequential (sequentialMergerConfig cfg)
      | Some (CustomMerger n) \<Rightarrow> Some (RunCustom n))"

text \<open>
  The one factory of backend filterers, which a caller sets before a middleware is made. The default
  gives no filterers.
\<close>

definition defaultBackendFiltererFactory :: "endpoint_config \<Rightarrow> go_err + filterer list" where
  "defaultBackendFiltererFactory cfg = Inr []"

record backendFiltererRegistry =
  bf_logPrefix :: string
  bf_filtererFactory :: "endpoint_config \<Rightarrow> go_err + filterer list"

definition backendFiltererFactory :: backendFiltererRegistry where
  "backendFiltererFactory =
     \<lparr>bf_logPrefix = [], bf_filtererFactory = defaultBackendFiltererFactory\<rparr>"

definition RegisterBackendFiltererFactory ::
  "string \<Rightarrow> (endpoint_config \<Rightarrow> go_err + filterer list) \<Rightarrow> backendFiltererRegistry \<Rightarrow>
     backendFiltererRegistry" where
  "RegisterBackendFiltererFactory logPrefix f reg =
     reg\<lparr>bf_logPrefix := logPrefix, bf_filtererFactory := f\<rparr>"

definition ResetBackendFiltererFactory :: "backendFiltererRegistry \<Rightarrow> backendFiltererRegistry" where
  "ResetBackendFiltererFactory reg =
     reg\<lparr>bf_logPrefix := [], bf_filtererFactory := defaultBackendFiltererFactory\<rparr>"

lemma filterer_factory_reset:
  "ResetBackendFiltererFactory (RegisterBackendFiltererFactory p f reg) =
   ResetBackendFiltererFactory reg"
  "ResetBackendFiltererFactory reg = backendFiltererFactory"
  by (simp_all add: ResetBackendFiltererFactory_def RegisterBackendFiltererFactory_def
      backendFiltererFactory_def)

definition NewMergeDataMiddleware ::
  "combinerRegister \<Rightarrow> merger gmap \<Rightarrow> (endpoint_config \<Rightarrow> go_err + filterer list) \<Rightarrow>
     endpoint_config \<Rightarrow> 'p list \<Rightarrow> 'p merge_plan built" where
  "NewMergeDataMiddleware reg ms bfFactory cfg next_ps =
     (let totalBackends = length (ep_Backend cfg) in
      if totalBackends = 0 then BFatal
      else if totalBackends = 1 then
        (case EmptyMiddleware next_ps of
           Built p \<Rightarrow> Built (SinglePlan p) | BFatal \<Rightarrow> BFatal | BPanic \<Rightarrow> BPanic)
      else
        (case getResponseCombiner reg (ep_ExtraConfig cfg) of
           None \<Rightarrow> BPanic
         | Some combiner \<Rightarrow>
             (case merger_kind cfg (fst (getMergerFactory ms (ep_ExtraConfig cfg))) of
                None \<Rightarrow> BPanic
              | Some kind \<Rightarrow>
                  if length next_ps \<noteq> totalBackends then BFatal
                  else
                    (case bfFactory cfg of
                       Inl err \<Rightarrow> Built (FailPlan err)
                     | Inr filters \<Rightarrow>
                         Built (MergePlan
                           \<lparr>mp_deep = (hasUnsafeBackends cfg \<or> forceDeepClone cfg),
                            mp_timeout = percent 85 (ep_Timeout cfg), mp_combiner = combiner,
                            mp_filters = filters, mp_kind = kind\<rparr>)))))"

lemma sequentialMergerConfig_length:
  "sequentialMergerConfig cfg = Some repls \<Longrightarrow> length repls = length (ep_Backend cfg)"
  by (auto simp: sequentialMergerConfig_def)

text \<open>
  A merge the middleware sets up is well formed: there is one proxy per backend and at least two
  of them, a backend whose method is neither GET nor HEAD forces deep clones of the request, the
  sequential merger has a list of replacements for every backend, and the merge never outlasts the
  endpoint's own timeout.
\<close>

theorem merge_plan_ok:
  assumes "NewMergeDataMiddleware reg ms bfFactory cfg next_ps = Built (MergePlan run)"
    and "0 \<le> ep_Timeout cfg" and "100 * ep_Timeout cfg < 2 ^ 63"
  shows "length next_ps = length (ep_Backend cfg) \<and> length next_ps \<ge> 2 \<and>
    ((\<exists>b \<in> set (ep_Backend cfg). to_upper (be_Method b) \<notin> {''GET'', ''HEAD''}) \<longrightarrow> mp_deep run) \<and>
    (\<forall>repls. mp_kind run = RunSequential repls \<longrightarrow> length repls = length next_ps) \<and>
    0 \<le> mp_timeout run \<and> mp_timeout run \<le> ep_Timeout cfg"
proof -
  from assms(1) have len1: "length next_ps = length (ep_Backend cfg)"
      "ep_Backend cfg \<noteq> []" "length (ep_Backend cfg) \<noteq> 1"
    and deep: "mp_deep run = (hasUnsafeBackends cfg \<or> forceDeepClone cfg)"
    and time: "mp_timeout run = percent 85 (ep_Timeout cfg)"
    and kind: "merger_kind cfg (fst (getMergerFactory ms (ep_ExtraConfig cfg))) = Some (mp_kind run)"
    by (auto simp: NewMergeDataMiddleware_def Let_def
        split: if_splits option.splits sum.splits built.splits)
  have len: "length next_ps = length (ep_Backend cfg)" "length (ep_Backend cfg) \<ge> 2"
    using len1 by (cases "ep_Backend cfg"; cases "tl (ep_Backend cfg)"; auto)+
  have "length repls = length next_ps" if "mp_kind run = RunSequential repls" for repls
    using kind that len(1) sequentialMergerConfig_length
    by (auto simp: merger_kind_def split: option.splits merger.splits)
  moreover have "hasUnsafeBackends cfg"
    if "b \<in> set (ep_Backend cfg)" "to_upper (be_Method b) \<notin> {''GET'', ''HEAD''}" for b
    using that len(2) by (auto simp: hasUnsafeBackends_def list_ex_iff)
  ultimately show ?thesis
    using len deep time percent_bounds [of 85 "ep_Timeout cfg"] assms(2,3) by auto
qed

section \<open>Runs\<close>

definition const_proxy :: "value gmap \<Rightarrow> 'a proxy" where
  "const_proxy d ctx r w = (Ret (Some (new_response (Some d) True)) None, r, w)"

definition sample_request :: request where
  "sample_request =
     \<lparr>rq_Method = ''GET'', rq_URL = None, rq_Query = None, rq_Path = ''/'', rq_Body = None,
      rq_Params = [], rq_Headers = []\<rparr>"

definition sample_world :: world where
  "sample_world = \<lparr>now = 0\<rparr>"

definition sample_env :: "sequentialBackendReplacement list list \<Rightarrow> seq_env" where
  "sample_env repls =
     \<lparr>se_reqClone = (\<lambda>r. r), se_after = (\<lambda>r r'. r), se_combiner = combineData, se_repls = repls,
      se_filters = [], se_param = param_text (\<lambda>_. []) (\<lambda>_. []), se_pick = (\<lambda>_. False)\<rparr>"

definition ref_to :: "string \<Rightarrow> string list \<Rightarrow> sequentialBackendReplacement" where
  "ref_to dest source =
     \<lparr>br_backendIndex = 0, br_destination = dest, br_source = source, br_fullResponse = False\<rparr>"

definition sample_state :: "unit seqmerge" where
  "sample_state =
     \<lparr>sq_request = sample_request,
      sq_parts = [Some (new_response (Some [(''a'', VObj [(''b'', VStr ''7'')])]) True), None],
      sq_acc = newIncrementalMergeAccumulator 2, sq_registry = [], sq_world = sample_world\<rparr>"

lemma const_proxies_wf:
  "(\<forall>d \<in> set ds. distinct (keys d)) \<Longrightarrow> proxies_wf (map const_proxy ds)"
  by (auto simp: proxies_wf_def const_proxy_def wf_resp_def)

lemma sample_sequential_run:
  "sequentialMerge (sample_env [[], []]) 1000
      [const_proxy [(''a'', VInt 1)], const_proxy [(''b'', VInt 2)]] None sample_request sample_world =
     (Ret (Some (new_response (Some [(''a'', VInt 1), (''b'', VInt 2)]) True)) None,
      sample_request, sample_world)"
  by code_simp


theorem sequential_first_decides_witness:
  "sequentialMerge (sample_env []) 1000 (NoopProxy # [NoopProxy]) None sample_request sample_world =
     (Ret None (Some ENullResult), sample_request, sample_world)"
  using sequential_first_decides [of "sample_env []" sample_request NoopProxy None 1000 sample_world
      None None sample_request sample_world "[NoopProxy]"]
  by (simp add: NoopProxy_def sample_env_def filtered_out_def with_timeout_def ctx_err_def
      sample_world_def)


theorem propagation_settled_witness:
  "map_of (rq_Params (sq_request
      (before_call (sample_env [[], [ref_to ''Resp0_x'' [''x'']]]) 1
        (sample_state\<lparr>sq_registry := [(''Resp0_x'', ''v'')]\<rparr>)))) ''Resp0_x'' = Some ''v'' \<and>
   map_of (sq_registry
      (before_call (sample_env [[], [ref_to ''Resp0_x'' [''x'']]]) 1
        (sample_state\<lparr>sq_registry := [(''Resp0_x'', ''v'')]\<rparr>))) ''Resp0_x'' = Some ''v''"
  using propagation_settled [of "ref_to ''Resp0_x'' [''x'']"
      "sample_env [[], [ref_to ''Resp0_x'' [''x'']]]" 1
      "sample_state\<lparr>sq_registry := [(''Resp0_x'', ''v'')]\<rparr>" "''v''"]
  by (simp add: sample_env_def ref_to_def coherent_def sample_state_def)

theorem url_replacements_exact_witness:
  "url_replacements (url_text [PText ''/u/'', PParam ''Id'', PText ''/'', PResp ''0'' ''a.b'']) =
     concat (map piece_replacement
       [PText ''/u/'', PParam ''Id'', PText ''/'', PResp ''0'' ''a.b''])"
  by (rule url_replacements_exact) code_simp

definition sample_merge_endpoint :: endpoint_config where
  "sample_merge_endpoint = zero_endpoint\<lparr>ep_Timeout := 2000000000,
     ep_Backend := [zero_backend\<lparr>be_Method := ''GET''\<rparr>, zero_backend\<lparr>be_Method := ''post''\<rparr>]\<rparr>"

theorem merge_plan_ok_witness:
  "\<exists>run. NewMergeDataMiddleware initResponseCombiners mergers (\<lambda>_. Inr []) sample_merge_endpoint
      [(), ()] = Built (MergePlan run) \<and> mp_deep run \<and> mp_timeout run \<le> 2000000000"
proof -
  obtain run where run: "NewMergeDataMiddleware initResponseCombiners mergers (\<lambda>_. Inr [])
      sample_merge_endpoint [(), ()] = Built (MergePlan run)"
    by (simp add: NewMergeDataMiddleware_def sample_merge_endpoint_def zero_endpoint_def Let_def
        getResponseCombiner_def getResponseCombinerName_def section_of_def getMergerFactory_def
        mergers_def merger_kind_def)
  have up: "to_upper ''post'' = ''POST''" by code_simp
  from merge_plan_ok [OF run] show ?thesis
    using run up by (simp add: sample_merge_endpoint_def zero_backend_def)
qed

text \<open>
  Two ways the propagated value is not the one the reference names. The map of the first answer is
  the accumulated map, so once a second answer with the same field is merged, a reference to the
  first one reads the second one's value; and a path that breaks off is read in the last map it
  reached.
\<close>

lemma sequential_reads_overwritten_value:
  "map_of (rq_Params (fst (snd (sequentialMerge (sample_env [[], [], [ref_to ''Resp0_a'' [''a'']]])
      1000 [const_proxy [(''a'', VInt 1)], const_proxy [(''a'', VInt 2)], const_proxy []] None
      sample_request sample_world)))) ''Resp0_a'' = Some ''2''"
  by code_simp

lemma sequential_broken_path:
  "map_of (rq_Params (fst (snd (sequentialMerge (sample_env [[], [ref_to ''Resp0_x.a'' [''x'', ''a'']]])
      1000 [const_proxy [(''a'', VInt 1)], const_proxy []] None
      sample_request sample_world)))) ''Resp0_x.a'' = Some ''1''"
  by code_simp

text \<open>When every backend is filtered out the merge returns neither a response nor an error.\<close>

lemma all_filtered_no_result: "acc_Result (newIncrementalMergeAccumulator 0) = (None, None)"
  by (simp add: acc_Result_def newIncrementalMergeAccumulator_def newMergeError_def)

end
