(* ===== verification/Proxy_Filters.thy ===== *)
theory Proxy_Filters
  imports Proxy_Request
begin

text \<open>
  \<open>proxy/headers_filter.go\<close> and \<open>proxy/query_strings_filter.go\<close>: the two middlewares that keep only
  the listed headers and query strings of a request. They share their algorithm; what is proved of
  it is proved once, in the locale \<open>request_filter\<close>, and used for both.
\<close>

section \<open>The common algorithm\<close>

text \<open>The two loops over the list: how many of its entries the map has, and the map they select.\<close>

definition num_to_pass :: "string list \<Rightarrow> 'v gmap \<Rightarrow> nat" where
  "num_to_pass allowed m = fold (\<lambda>v n. if has_key m v then Suc n else n) allowed 0"

definition select_entries :: "string list \<Rightarrow> 'v gmap \<Rightarrow> 'v gmap" where
  "select_entries allowed m =
     fold (\<lambda>v new. case map_of m v of Some values \<Rightarrow> mput v values new | None \<Rightarrow> new) allowed []"

lemma num_to_pass_eq: "num_to_pass allowed m = length (filter (has_key m) allowed)"
proof -
  have "fold (\<lambda>v n. if has_key m v then Suc n else n) allowed n =
      n + length (filter (has_key m) allowed)" for n
    by (induction allowed arbitrary: n) auto
  then show ?thesis by (simp add: num_to_pass_def)
qed

lemma select_entries_lookup:
  "map_of (select_entries allowed m) k = (if k \<in> set allowed then map_of m k else None)"
proof -
  have "map_of (fold (\<lambda>v new. case map_of m v of Some values \<Rightarrow> mput v values new | None \<Rightarrow> new)
        allowed new) k =
      (if k \<in> set allowed \<and> has_key m k then map_of m k else map_of new k)" for new
    by (induction allowed arbitrary: new) (auto simp: gmap_simps split: option.splits)
  from this [of "[]"] show ?thesis by (auto simp: select_entries_def)
qed

text \<open>
  When the list has no duplicates, the count equals the size of the map only if every key is listed.
\<close>

lemma num_to_pass_all:
  assumes "distinct allowed" and "distinct (keys m)" and "num_to_pass allowed m = length m"
  shows "fst ` set m \<subseteq> set allowed"
proof -
  let ?hit = "filter (has_key m) allowed"
  have sub: "set ?hit \<subseteq> fst ` set m"
    by (auto intro: map_of_in_keys)
  have "card (set ?hit) = length ?hit"
    using assms(1) by (intro distinct_card distinct_filter)
  also have "\<dots> = length m"
    using assms(3) by (simp only: num_to_pass_eq)
  finally have "card (set ?hit) = card (fst ` set m)"
    using distinct_card [OF assms(2)] by simp
  then have "set ?hit = fst ` set m"
    using sub by (intro card_subset_eq) auto
  then show ?thesis by auto
qed

section \<open>The middlewares\<close>

definition filter_headers :: "string list \<Rightarrow> 'a proxy \<Rightarrow> 'a proxy" where
  "filter_headers headersToPass next_p ctx request w =
     (if rq_Headers request = [] then next_p ctx request w
      else if num_to_pass headersToPass (rq_Headers request) = length (rq_Headers request)
      then next_p ctx request w
      else
        (case next_p ctx
            (request\<lparr>rq_Headers := select_entries headersToPass (rq_Headers request)\<rparr>) w of
           (res, r', w') \<Rightarrow> (res, after_copy request r', w')))"

definition NewFilterHeadersMiddleware :: "backend \<Rightarrow> 'a proxy list \<Rightarrow> 'a proxy built" where
  "NewFilterHeadersMiddleware remote next_ps =
     (if be_HeadersToPass remote = [] then EmptyMiddleware next_ps
      else if length next_ps > 1 then BFatal
      else (case next_ps of
         [] \<Rightarrow> BPanic
       | p # _ \<Rightarrow> Built (filter_headers (be_HeadersToPass remote) p)))"

definition query_of :: "request \<Rightarrow> string list gmap" where
  "query_of r = (case rq_Query r of None \<Rightarrow> [] | Some q \<Rightarrow> q)"

definition filter_query_strings :: "string list \<Rightarrow> 'a proxy \<Rightarrow> 'a proxy" where
  "filter_query_strings queryStringsToPass next_p ctx request w =
     (if query_of request = [] then next_p ctx request w
      else if num_to_pass queryStringsToPass (query_of request) = length (query_of request)
      then next_p ctx request w
      else
        (case next_p ctx
            (request\<lparr>rq_Query := Some (select_entries queryStringsToPass (query_of request))\<rparr>) w of
           (res, r', w') \<Rightarrow> (res, after_copy request r', w')))"

definition NewFilterQueryStringsMiddleware :: "backend \<Rightarrow> 'a proxy list \<Rightarrow> 'a proxy built" where
  "NewFilterQueryStringsMiddleware remote next_ps =
     (if be_QueryStringsToPass remote = [] then EmptyMiddleware next_ps
      else if length next_ps > 1 then BFatal
      else (case next_ps of
         [] \<Rightarrow> BPanic
       | p # _ \<Rightarrow> Built (filter_query_strings (be_QueryStringsToPass remote) p)))"

section \<open>The contract of a filter\<close>

text \<open>
  A filter hands a request to the next proxy exactly once; \<open>entries\<close> is the map it filters,
  \<open>others\<close> the rest of the request and \<open>handed\<close> the request the next proxy gets.
\<close>

locale request_filter =
  fixes filt :: "string list \<Rightarrow> 'a proxy \<Rightarrow> 'a proxy"
    and entries :: "request \<Rightarrow> string list gmap"
    and others :: "request \<Rightarrow> 'o"
    and handed :: "string list \<Rightarrow> request \<Rightarrow> request"
  assumes call_once: "filt allowed p ctx r w =
      (fst (p ctx (handed allowed r) w), fst (snd (filt allowed p ctx r w)),
       snd (snd (p ctx (handed allowed r) w)))"
    and handed_entries: "entries (handed allowed r) =
      (if entries r = [] \<or> num_to_pass allowed (entries r) = length (entries r) then entries r
       else select_entries allowed (entries r))"
    and handed_others: "others (handed allowed r) = others r"
begin

text \<open>Nothing but the listed entries gets through, and those get through unchanged.\<close>

lemma exact:
  assumes "distinct allowed" and "distinct (keys (entries r))"
  shows "map_of (entries (handed allowed r)) k =
    (if k \<in> set allowed then map_of (entries r) k else None)"
proof (cases "entries r = [] \<or> num_to_pass allowed (entries r) = length (entries r)")
  case True
  have "map_of (entries r) k = None" if "k \<notin> set allowed"
    using that True num_to_pass_all [OF assms] by (auto simp: map_of_eq_None_iff)
  with True show ?thesis by (auto simp: handed_entries)
next
  case False
  then show ?thesis by (simp add: handed_entries select_entries_lookup)
qed

lemma result: "fst (filt allowed p ctx r w) = fst (p ctx (handed allowed r) w)"
  by (metis call_once fst_conv)

lemma world: "snd (snd (filt allowed p ctx r w)) = snd (snd (p ctx (handed allowed r) w))"
  by (metis call_once snd_conv)

end

definition handed_headers :: "string list \<Rightarrow> request \<Rightarrow> request" where
  "handed_headers allowed r =
     (if rq_Headers r = [] \<or> num_to_pass allowed (rq_Headers r) = length (rq_Headers r) then r
      else r\<lparr>rq_Headers := select_entries allowed (rq_Headers r)\<rparr>)"

definition handed_query :: "string list \<Rightarrow> request \<Rightarrow> request" where
  "handed_query allowed r =
     (if query_of r = [] \<or> num_to_pass allowed (query_of r) = length (query_of r) then r
      else r\<lparr>rq_Query := Some (select_entries allowed (query_of r))\<rparr>)"

interpretation headers_filter: request_filter filter_headers rq_Headers
  "\<lambda>r. (rq_Method r, rq_URL r, rq_Query r, rq_Path r, rq_Body r, rq_Params r)" handed_headers
proof
  fix allowed and p :: "'a proxy" and ctx r w
  show "filter_headers allowed p ctx r w =
      (fst (p ctx (handed_headers allowed r) w), fst (snd (filter_headers allowed p ctx r w)),
       snd (snd (p ctx (handed_headers allowed r) w)))"
    by (simp add: filter_headers_def handed_headers_def split: prod.split)
qed (simp_all add: handed_headers_def)

interpretation query_filter: request_filter filter_query_strings query_of
  "\<lambda>r. (rq_Method r, rq_URL r, rq_Headers r, rq_Path r, rq_Body r, rq_Params r)" handed_query
proof
  fix allowed and p :: "'a proxy" and ctx r w
  show "filter_query_strings allowed p ctx r w =
      (fst (p ctx (handed_query allowed r) w), fst (snd (filter_query_strings allowed p ctx r w)),
       snd (snd (p ctx (handed_query allowed r) w)))"
    by (simp add: filter_query_strings_def handed_query_def split: prod.split)
qed (simp_all add: handed_query_def query_of_def)

lemma NewFilterHeaders_Built:
  "be_HeadersToPass b \<noteq> [] \<Longrightarrow>
   NewFilterHeadersMiddleware b [p] = Built (filter_headers (be_HeadersToPass b) p)"
  by (simp add: NewFilterHeadersMiddleware_def)

lemma NewFilterQueryStrings_Built:
  "be_QueryStringsToPass b \<noteq> [] \<Longrightarrow>
   NewFilterQueryStringsMiddleware b [p] =
     Built (filter_query_strings (be_QueryStringsToPass b) p)"
  by (simp add: NewFilterQueryStringsMiddleware_def)

text \<open>
  The header filter lets exactly the listed headers through: when the list has no duplicates,
  the backend is called once, with the same request but for its headers, which are the listed ones
  the client sent, with their values, and its answer is returned as it is.
\<close>

theorem headers_filter_exact:
  assumes "distinct (be_HeadersToPass b)" and "be_HeadersToPass b \<noteq> []"
    and "distinct (keys (rq_Headers r))"
  shows "\<exists>filt r'. NewFilterHeadersMiddleware b [p] = Built filt \<and>
    fst (filt ctx r w) = fst (p ctx r' w) \<and> snd (snd (filt ctx r w)) = snd (snd (p ctx r' w)) \<and>
    r' = r\<lparr>rq_Headers := rq_Headers r'\<rparr> \<and>
    map_of (rq_Headers r') = (map_of (rq_Headers r)) |` set (be_HeadersToPass b)"
proof (intro exI conjI)
  show "NewFilterHeadersMiddleware b [p] = Built (filter_headers (be_HeadersToPass b) p)"
    using assms(2) by (rule NewFilterHeaders_Built)
  show "map_of (rq_Headers (handed_headers (be_HeadersToPass b) r)) =
      (map_of (rq_Headers r)) |` set (be_HeadersToPass b)"
    using headers_filter.exact [OF assms(1,3)] by (simp add: fun_eq_iff restrict_map_def)
  show "handed_headers (be_HeadersToPass b) r =
      r\<lparr>rq_Headers := rq_Headers (handed_headers (be_HeadersToPass b) r)\<rparr>"
    by (simp add: handed_headers_def)
qed (rule headers_filter.result headers_filter.world)+

text \<open>
  The query string filter lets exactly the listed query strings through, in the same sense; a
  request without query strings is not changed.
\<close>

theorem query_filter_exact:
  assumes "distinct (be_QueryStringsToPass b)" and "be_QueryStringsToPass b \<noteq> []"
    and "distinct (keys (query_of r))"
  shows "\<exists>filt r'. NewFilterQueryStringsMiddleware b [p] = Built filt \<and>
    fst (filt ctx r w) = fst (p ctx r' w) \<and> snd (snd (filt ctx r w)) = snd (snd (p ctx r' w)) \<and>
    r' = r\<lparr>rq_Query := rq_Query r'\<rparr> \<and>
    map_of (query_of r') = (map_of (query_of r)) |` set (be_QueryStringsToPass b) \<and>
    (rq_Query r = None \<longrightarrow> r' = r)"
proof (intro exI conjI)
  show "NewFilterQueryStringsMiddleware b [p] =
      Built (filter_query_strings (be_QueryStringsToPass b) p)"
    using assms(2) by (rule NewFilterQueryStrings_Built)
  show "map_of (query_of (handed_query (be_QueryStringsToPass b) r)) =
      (map_of (query_of r)) |` set (be_QueryStringsToPass b)"
    using query_filter.exact [OF assms(1,3)] by (simp add: fun_eq_iff restrict_map_def)
  show "handed_query (be_QueryStringsToPass b) r =
      r\<lparr>rq_Query := rq_Query (handed_query (be_QueryStringsToPass b) r)\<rparr>"
    by (simp add: handed_query_def)
  show "rq_Query r = None \<longrightarrow> handed_query (be_QueryStringsToPass b) r = r"
    by (simp add: handed_query_def query_of_def)
qed (rule query_filter.result query_filter.world)+

definition sample_filter_request :: request where
  "sample_filter_request =
     \<lparr>rq_Method = ''GET'', rq_URL = None, rq_Query = Some [(''a'', [''1'']), (''b'', [''2''])],
      rq_Path = ''/'', rq_Body = None, rq_Params = [],
      rq_Headers = [(''Accept'', [''x'']), (''Cookie'', [''y''])]\<rparr>"

definition sample_filter_backend :: backend where
  "sample_filter_backend =
     zero_backend\<lparr>be_HeadersToPass := [''Accept''], be_QueryStringsToPass := [''b'', ''c'']\<rparr>"

theorem headers_filter_exact_witness:
  "\<exists>filt r'. NewFilterHeadersMiddleware sample_filter_backend [NoopProxy :: unit proxy] = Built filt \<and>
    fst (filt None sample_filter_request \<lparr>now = 0\<rparr>) = fst (NoopProxy None r' \<lparr>now = 0\<rparr>) \<and>
    snd (snd (filt None sample_filter_request \<lparr>now = 0\<rparr>)) =
      snd (snd (NoopProxy None r' \<lparr>now = 0\<rparr>)) \<and>
    r' = sample_filter_request\<lparr>rq_Headers := rq_Headers r'\<rparr> \<and>
    map_of (rq_Headers r') =
      (map_of (rq_Headers sample_filter_request)) |` set (be_HeadersToPass sample_filter_backend)"
  by (rule headers_filter_exact)
    (simp_all add: sample_filter_backend_def sample_filter_request_def zero_backend_def)

theorem query_filter_exact_witness:
  "\<exists>filt r'. NewFilterQueryStringsMiddleware sample_filter_backend [NoopProxy :: unit proxy] =
      Built filt \<and>
    fst (filt None sample_filter_request \<lparr>now = 0\<rparr>) = fst (NoopProxy None r' \<lparr>now = 0\<rparr>) \<and>
    snd (snd (filt None sample_filter_request \<lparr>now = 0\<rparr>)) =
      snd (snd (NoopProxy None r' \<lparr>now = 0\<rparr>)) \<and>
    r' = sample_filter_request\<lparr>rq_Query := rq_Query r'\<rparr> \<and>
    map_of (query_of r') =
      (map_of (query_of sample_filter_request)) |` set (be_QueryStringsToPass sample_filter_backend) \<and>
    (rq_Query sample_filter_request = None \<longrightarrow> r' = sample_filter_request)"
  by (rule query_filter_exact)
    (simp_all add: sample_filter_backend_def sample_filter_request_def zero_backend_def query_of_def)

text \<open>
  A list with a duplicate can count as many hits as the request has entries, and then everything
  passes, listed or not.
\<close>

lemma duplicates_disable_filter:
  "rq_Headers (handed_headers [''Accept'', ''Accept''] sample_filter_request) =
     [(''Accept'', [''x'']), (''Cookie'', [''y''])]"
  "query_of (handed_query [''a'', ''a''] sample_filter_request) =
     [(''a'', [''1'']), (''b'', [''2''])]"
  by (simp_all add: handed_headers_def handed_query_def sample_filter_request_def num_to_pass_def
      query_of_def)

end
