(* ===== verification/Proxy_Concurrent.thy ===== *)
theory Proxy_Concurrent
  imports Proxy_Parallel
begin

text \<open>
  \<open>proxy/concurrent.go\<close>: the same request sent several times at once, the first complete answer
  winning. As in \<open>Proxy_Parallel\<close>, a step relation over the goroutines (\<open>processConcurrentCall\<close>),
  the two buffered channels and the loop of the caller; \<open>outs i\<close> is what call number \<open>i\<close>
  returns in this execution.
\<close>

section \<open>States and steps\<close>

text \<open>
  \<open>cm_done\<close> is the local context (with timeout), \<open>cm_parent\<close> the caller's own context, which the
  receiving loop watches; \<open>cm_response\<close>, \<open>cm_err\<close> and \<open>cm_i\<close> are the variables of the loop.
\<close>

record cmerge =
  cm_running :: "nat list"
  cm_results :: "response list"
  cm_failed :: "go_err list"
  cm_done :: "go_err option"
  cm_parent :: bool
  cm_i :: nat
  cm_response :: "response option"
  cm_err :: "go_err option"
  cm_ret :: "(response option \<times> go_err option) option"

definition cm_init :: "nat \<Rightarrow> cmerge" where
  "cm_init n =
     \<lparr>cm_running = [0..<n], cm_results = [], cm_failed = [], cm_done = None, cm_parent = False,
      cm_i = 0, cm_response = None, cm_err = None, cm_ret = None\<rparr>"

inductive cm_step :: "outcomes \<Rightarrow> nat \<Rightarrow> cmerge \<Rightarrow> cmerge \<Rightarrow> bool"
  for outs :: outcomes and n :: nat where
  call_err: "\<lbrakk>i \<in> set (cm_running s); outs i = (r, Some e); length (cm_failed s) < n\<rbrakk> \<Longrightarrow>
    cm_step outs n s
      (s\<lparr>cm_running := remove1 i (cm_running s), cm_failed := cm_failed s @ [e]\<rparr>)"
| call_nil: "\<lbrakk>i \<in> set (cm_running s); outs i = (None, None); length (cm_failed s) < n\<rbrakk> \<Longrightarrow>
    cm_step outs n s
      (s\<lparr>cm_running := remove1 i (cm_running s), cm_failed := cm_failed s @ [ENullResult]\<rparr>)"
| call_ok: "\<lbrakk>i \<in> set (cm_running s); outs i = (Some r, None); length (cm_results s) < n\<rbrakk> \<Longrightarrow>
    cm_step outs n s
      (s\<lparr>cm_running := remove1 i (cm_running s), cm_results := cm_results s @ [r]\<rparr>)"
| call_ctx: "\<lbrakk>i \<in> set (cm_running s); outs i = (Some r, None); cm_done s = Some e;
      length (cm_failed s) < n\<rbrakk> \<Longrightarrow>
    cm_step outs n s
      (s\<lparr>cm_running := remove1 i (cm_running s), cm_failed := cm_failed s @ [e]\<rparr>)"
| local_end: "cm_done s = None \<Longrightarrow> cm_step outs n s (s\<lparr>cm_done := Some e\<rparr>)"
| parent_end: "\<not> cm_parent s \<Longrightarrow>
    cm_step outs n s (s\<lparr>cm_parent := True, cm_done := Some (case cm_done s of None \<Rightarrow> e | Some d \<Rightarrow> d)\<rparr>)"
| take_complete: "\<lbrakk>cm_ret s = None; cm_i s < n; cm_results s = r # rs; rs_IsComplete r\<rbrakk> \<Longrightarrow>
    cm_step outs n s
      (s\<lparr>cm_results := rs, cm_i := Suc (cm_i s), cm_response := Some r,
         cm_ret := Some (Some r, None)\<rparr>)"
| take_partial: "\<lbrakk>cm_ret s = None; cm_i s < n; cm_results s = r # rs; \<not> rs_IsComplete r\<rbrakk> \<Longrightarrow>
    cm_step outs n s (s\<lparr>cm_results := rs, cm_i := Suc (cm_i s), cm_response := Some r\<rparr>)"
| take_err: "\<lbrakk>cm_ret s = None; cm_i s < n; cm_failed s = e # es\<rbrakk> \<Longrightarrow>
    cm_step outs n s (s\<lparr>cm_failed := es, cm_i := Suc (cm_i s), cm_err := Some e\<rparr>)"
| take_done: "\<lbrakk>cm_ret s = None; cm_i s < n; cm_parent s\<rbrakk> \<Longrightarrow>
    cm_step outs n s (s\<lparr>cm_i := Suc (cm_i s)\<rparr>)"
| loop_end: "\<lbrakk>cm_ret s = None; \<not> cm_i s < n\<rbrakk> \<Longrightarrow>
    cm_step outs n s (s\<lparr>cm_ret := Some (cm_response s, cm_err s)\<rparr>)"

inductive_cases cm_stepE: "cm_step outs n s t"

section \<open>The invariant\<close>

definition cm_buffered :: "cmerge \<Rightarrow> msg list" where
  "cm_buffered s = map MErr (cm_failed s) @ map MResp (cm_results s)"

text \<open>\<open>got\<close> are the messages the loop took; it takes none in the rounds the parent's end uses up.\<close>

definition cm_sent_ok :: "outcomes \<Rightarrow> nat \<Rightarrow> cmerge \<Rightarrow> msg list \<Rightarrow> bool" where
  "cm_sent_ok outs n s got \<longleftrightarrow>
     (\<exists>sent.
        mset (map fst sent) + mset (cm_running s) = mset [0..<n] \<and>
        mset (map snd sent) = mset got + mset (cm_buffered s) \<and>
        (\<forall>im \<in> set sent. may_send outs (cm_done s) (fst im) (snd im)))"

definition cm_loop_ok :: "nat \<Rightarrow> cmerge \<Rightarrow> msg list \<Rightarrow> bool" where
  "cm_loop_ok n s got \<longleftrightarrow>
     length got \<le> cm_i s \<and> (\<not> cm_parent s \<longrightarrow> length got = cm_i s) \<and>
     (case cm_response s of
        None \<Rightarrow> \<forall>r. MResp r \<notin> set got
      | Some r \<Rightarrow> MResp r \<in> set got) \<and>
     (case cm_err s of None \<Rightarrow> \<forall>e. MErr e \<notin> set got | Some e \<Rightarrow> MErr e \<in> set got) \<and>
     (case cm_ret s of
        None \<Rightarrow> \<forall>r. MResp r \<in> set got \<longrightarrow> \<not> rs_IsComplete r
      | Some (res, err) \<Rightarrow>
          (\<exists>r. res = Some r \<and> err = None \<and> rs_IsComplete r \<and> MResp r \<in> set got) \<or>
          (cm_i s = n \<and> res = cm_response s \<and> err = cm_err s \<and>
           (\<forall>r. MResp r \<in> set got \<longrightarrow> \<not> rs_IsComplete r)))"

definition cm_inv :: "outcomes \<Rightarrow> nat \<Rightarrow> cmerge \<Rightarrow> bool" where
  "cm_inv outs n s \<longleftrightarrow> cm_i s \<le> n \<and> (\<exists>got. cm_sent_ok outs n s got \<and> cm_loop_ok n s got)"

lemma cm_inv_init: "cm_inv outs n (cm_init n)"
  unfolding cm_inv_def
  by (intro conjI exI [of _ "[]"])
    (simp_all add: cm_init_def cm_sent_ok_def cm_loop_ok_def cm_buffered_def)

lemma cm_sent_ok_send:
  assumes "cm_sent_ok outs n s got" and "i \<in> set (cm_running s)"
    and "may_send outs (cm_done s) i m"
    and t: "cm_running t = remove1 i (cm_running s)"
      "mset (cm_buffered t) = mset (cm_buffered s) + {#m#}" "cm_done t = cm_done s"
  shows "cm_sent_ok outs n t got"
proof -
  obtain sent where g: "mset (map fst sent) + mset (cm_running s) = mset [0..<n]"
      "mset (map snd sent) = mset got + mset (cm_buffered s)"
      "\<forall>im \<in> set sent. may_send outs (cm_done s) (fst im) (snd im)"
    using assms(1) unfolding cm_sent_ok_def by blast
  have "mset (cm_running s) = add_mset i (mset (cm_running t))"
    using assms(2) t(1) by simp
  then have "mset (map fst (sent @ [(i, m)])) + mset (cm_running t) = mset [0..<n]"
    using g(1) by simp
  moreover have "mset (map snd (sent @ [(i, m)])) = mset got + mset (cm_buffered t)"
    using g(2) t(2) by simp
  ultimately show ?thesis
    unfolding cm_sent_ok_def using g(3) assms(3) t(3)
    by (intro exI [of _ "sent @ [(i, m)]"]) auto
qed

lemma cm_sent_ok_take:
  assumes "cm_sent_ok outs n s got"
    and t: "cm_running t = cm_running s" "mset (cm_buffered s) = mset (cm_buffered t) + {#m#}"
      "cm_done t = cm_done s"
  shows "cm_sent_ok outs n t (got @ [m])"
  using assms unfolding cm_sent_ok_def by simp

lemma cm_sent_ok_done:
  assumes "cm_sent_ok outs n s got" and "cm_done s = None \<or> cm_done t = cm_done s"
    and "cm_running t = cm_running s" "cm_buffered t = cm_buffered s"
  shows "cm_sent_ok outs n t got"
proof -
  obtain sent where g: "mset (map fst sent) + mset (cm_running s) = mset [0..<n]"
      "mset (map snd sent) = mset got + mset (cm_buffered s)"
      "\<forall>im \<in> set sent. may_send outs (cm_done s) (fst im) (snd im)"
    using assms(1) unfolding cm_sent_ok_def by blast
  have "\<forall>im \<in> set sent. may_send outs (cm_done t) (fst im) (snd im)"
    using g(3) assms(2) by (auto simp: may_send_def)
  with g(1,2) assms(3,4) show ?thesis unfolding cm_sent_ok_def by (intro exI [of _ sent]) simp
qed

lemma cm_sent_ok_count:
  assumes "cm_sent_ok outs n s got"
  shows "length (cm_running s) + length (cm_failed s) + length (cm_results s) + length got = n"
proof -
  obtain sent where g: "mset (map fst sent) + mset (cm_running s) = mset [0..<n]"
      "mset (map snd sent) = mset got + mset (cm_buffered s)"
    using assms unfolding cm_sent_ok_def by blast
  have "size (mset (map fst sent) + mset (cm_running s)) = n"
    by (simp only: g(1) size_mset length_upt)
  moreover have "size (mset (map snd sent)) = length got + length (cm_buffered s)"
    by (simp only: g(2) size_union size_mset)
  ultimately show ?thesis by (simp add: cm_buffered_def)
qed

lemma cm_loop_ok_same:
  assumes "cm_loop_ok n s got"
    and "cm_i t = cm_i s" "cm_response t = cm_response s" "cm_err t = cm_err s" "cm_ret t = cm_ret s"
    and "\<not> cm_parent t \<longrightarrow> \<not> cm_parent s"
  shows "cm_loop_ok n t got"
  using assms by (auto simp: cm_loop_ok_def split: option.splits)

text \<open>A call sends one message.\<close>

lemma cm_inv_send:
  assumes "cm_inv outs n s" and "i \<in> set (cm_running s)" and "may_send outs (cm_done s) i m"
    and "cm_running t = remove1 i (cm_running s)"
    and "mset (cm_buffered t) = mset (cm_buffered s) + {#m#}" and "cm_done t = cm_done s"
    and "cm_i t = cm_i s" "cm_response t = cm_response s" "cm_err t = cm_err s" "cm_ret t = cm_ret s"
    and "cm_parent t = cm_parent s"
  shows "cm_inv outs n t"
proof -
  obtain got where sent: "cm_sent_ok outs n s got" and loop: "cm_loop_ok n s got"
    and le: "cm_i s \<le> n"
    using assms(1) unfolding cm_inv_def by blast
  have "cm_sent_ok outs n t got" by (rule cm_sent_ok_send [OF sent assms(2-6)])
  moreover have "cm_loop_ok n t got" using assms(7-11) by (intro cm_loop_ok_same [OF loop]) simp_all
  ultimately show ?thesis using le assms(7) unfolding cm_inv_def by auto
qed

text \<open>The loop takes one message.\<close>

lemma cm_inv_take:
  assumes "cm_inv outs n s" and "cm_ret s = None" and "cm_i s < n" and "cm_i t = Suc (cm_i s)"
    and "cm_running t = cm_running s" and "mset (cm_buffered s) = mset (cm_buffered t) + {#m#}"
    and "cm_done t = cm_done s" and "cm_parent t = cm_parent s"
    and "case m of
        MErr e \<Rightarrow> cm_response t = cm_response s \<and> cm_err t = Some e \<and> cm_ret t = None
      | MResp r \<Rightarrow> cm_response t = Some r \<and> cm_err t = cm_err s \<and>
          cm_ret t = (if rs_IsComplete r then Some (Some r, None) else None)"
  shows "cm_inv outs n t"
proof -
  obtain got where sent: "cm_sent_ok outs n s got" and loop: "cm_loop_ok n s got"
    using assms(1) unfolding cm_inv_def by blast
  have "cm_sent_ok outs n t (got @ [m])" by (rule cm_sent_ok_take [OF sent assms(5-7)])
  moreover have "cm_loop_ok n t (got @ [m])"
    using loop assms(2,4,8,9) by (cases m) (auto simp: cm_loop_ok_def split: option.splits)
  ultimately show ?thesis using assms(3,4) unfolding cm_inv_def by auto
qed

text \<open>A step that moves no message: a context ends, a round is used up, or the loop ends.\<close>

lemma cm_inv_quiet:
  assumes "cm_inv outs n s" and "cm_done s = None \<or> cm_done t = cm_done s"
    and "cm_running t = cm_running s" "cm_buffered t = cm_buffered s" and "cm_i t \<le> n"
    and "\<And>got. cm_loop_ok n s got \<Longrightarrow> cm_loop_ok n t got"
  shows "cm_inv outs n t"
  using assms cm_sent_ok_done unfolding cm_inv_def by blast

lemma cm_inv_step:
  assumes "cm_step outs n s t" and "cm_inv outs n s"
  shows "cm_inv outs n t"
proof -
  have le: "cm_i s \<le> n" using assms(2) by (simp add: cm_inv_def)
  note calls = may_send_def own_msg_simps cm_buffered_def
  from assms(1) show ?thesis
  proof cases
    case (call_err i r e)
    then show ?thesis by (intro cm_inv_send [OF assms(2), of i "MErr e"]) (simp_all add: calls)
  next
    case (call_nil i)
    then show ?thesis by (intro cm_inv_send [OF assms(2), of i "MErr ENullResult"]) (simp_all add: calls)
  next
    case (call_ok i r)
    then show ?thesis by (intro cm_inv_send [OF assms(2), of i "MResp r"]) (simp_all add: calls)
  next
    case (call_ctx i r e)
    then show ?thesis by (intro cm_inv_send [OF assms(2), of i "MErr e"]) (simp_all add: calls)
  next
    case (take_complete r rs)
    then show ?thesis by (intro cm_inv_take [OF assms(2), of t "MResp r"]) (simp_all add: cm_buffered_def)
  next
    case (take_partial r rs)
    then show ?thesis by (intro cm_inv_take [OF assms(2), of t "MResp r"]) (simp_all add: cm_buffered_def)
  next
    case (take_err e es)
    then show ?thesis by (intro cm_inv_take [OF assms(2), of t "MErr e"]) (simp_all add: cm_buffered_def)
  qed (rule cm_inv_quiet [OF assms(2)];
      use le in \<open>auto simp: cm_buffered_def cm_loop_ok_def split: option.splits\<close>)+
qed

lemma cm_inv_reach: "(cm_step outs n)\<^sup>*\<^sup>* (cm_init n) s \<Longrightarrow> cm_inv outs n s"
  by (induction rule: rtranclp_induct) (auto intro: cm_inv_init cm_inv_step)

section \<open>Progress and result\<close>

definition cm_left :: "nat \<Rightarrow> cmerge \<Rightarrow> nat" where
  "cm_left n s = 2 * length (cm_running s) + length (cm_failed s) + length (cm_results s)
     + (n - cm_i s) + (if cm_done s = None then 1 else 0) + (if cm_parent s then 0 else 1)
     + (if cm_ret s = None then 1 else 0)"

lemma cm_step_left: "cm_step outs n s t \<Longrightarrow> cm_left n t < cm_left n s"
  by (erule cm_stepE) (auto simp: cm_left_def dest: length_remove1_Suc)

lemma cm_steps_left: "(cm_step outs n ^^ k) s t \<Longrightarrow> k + cm_left n t \<le> cm_left n s"
proof (induction k arbitrary: t)
  case 0
  then show ?case by simp
next
  case (Suc k)
  then obtain u where "(cm_step outs n ^^ k) s u" "cm_step outs n u t" by auto
  with Suc.IH [of u] cm_step_left [of outs n u t] show ?case by simp
qed

lemma cm_inv_progress:
  assumes "cm_inv outs n s" and "cm_ret s = None"
  shows "\<exists>t. cm_step outs n s t"
proof (cases "cm_i s < n")
  case False
  with assms(2) show ?thesis by (blast intro: cm_step.intros)
next
  case lt: True
  obtain got where sent: "cm_sent_ok outs n s got" and loop: "cm_loop_ok n s got"
    using assms(1) unfolding cm_inv_def by blast
  note count = cm_sent_ok_count [OF sent]
  consider (run) i rn where "cm_running s = i # rn" | (fail) e es where "cm_failed s = e # es"
    | (res) r rs where "cm_results s = r # rs"
    | (idle) "cm_running s = []" "cm_failed s = []" "cm_results s = []"
    by (cases "cm_running s"; cases "cm_failed s"; cases "cm_results s") auto
  then show ?thesis
  proof cases
    case run
    then have i: "i \<in> set (cm_running s)" by simp
    have room: "length (cm_failed s) < n" "length (cm_results s) < n"
      using count run by auto
    obtain r e where o: "outs i = (r, e)" by (cases "outs i")
    show ?thesis using i room o by (cases e; cases r) (blast intro: cm_step.intros)+
  next
    case fail
    with lt assms(2) show ?thesis by (blast intro: cm_step.intros)
  next
    case res
    with lt assms(2) show ?thesis by (cases "rs_IsComplete r") (blast intro: cm_step.intros)+
  next
    case idle
    then have "length got = n" using count by simp
    with loop lt have "cm_parent s" by (auto simp: cm_loop_ok_def)
    with lt assms(2) show ?thesis by (blast intro: cm_step.intros)
  qed
qed

text \<open>
  C16. The concurrent middleware always returns, and no call is ever left blocked on a channel: from
  every reachable state some step is possible until it has returned, every schedule ends after at
  most three steps per call and three more, and a goroutine that has not sent yet can send even
  after the return.
\<close>

theorem concurrent_returns:
  assumes "(cm_step outs n ^^ k) (cm_init n) s"
  shows "k \<le> 3 * n + 3 \<and> (cm_ret s = None \<longrightarrow> (\<exists>t. cm_step outs n s t)) \<and>
    (cm_running s \<noteq> [] \<longrightarrow>
      (\<exists>t. cm_step outs n s t \<and> length (cm_running t) < length (cm_running s)))"
proof -
  have inv: "cm_inv outs n s"
    using assms by (intro cm_inv_reach relpowp_imp_rtranclp)
  obtain got where sent: "cm_sent_ok outs n s got" using inv unfolding cm_inv_def by blast
  have "\<exists>t. cm_step outs n s t \<and> length (cm_running t) < length (cm_running s)"
    if run: "cm_running s \<noteq> []"
  proof -
    obtain i rn where i: "cm_running s = i # rn" using run by (cases "cm_running s") auto
    have mem: "i \<in> set (cm_running s)" using i by simp
    have room: "length (cm_failed s) < n" "length (cm_results s) < n"
      using cm_sent_ok_count [OF sent] i by auto
    obtain r e where o: "outs i = (r, e)" by (cases "outs i")
    have less: "length (remove1 i (cm_running s)) < length (cm_running s)" using i by simp
    show ?thesis
    proof (cases e)
      case (Some e')
      with cm_step.call_err [OF mem, of outs r e' n] o room less show ?thesis by force
    next
      case None
      with cm_step.call_nil [OF mem, of outs n] cm_step.call_ok [OF mem, of outs _ n] o room less
      show ?thesis by (cases r) force+
    qed
  qed
  moreover have "k \<le> cm_left n (cm_init n)" using cm_steps_left [OF assms] by simp
  moreover have "cm_left n (cm_init n) = 3 * n + 3" by (simp add: cm_left_def cm_init_def)
  ultimately show ?thesis using cm_inv_progress [OF inv] by auto
qed

lemma own_msg_resp: "own_msg outs i = MResp r \<longleftrightarrow> outs i = (Some r, None)"
  by (auto simp: own_msg_def split: prod.splits option.splits)

text \<open>A response that was heard is the answer of one of the calls; without an end of the contexts a
  loop that ran out heard every call.\<close>

lemma heard_from_call:
  assumes "cm_sent_ok outs n s got" and "MResp r \<in> set got"
  shows "\<exists>i < n. outs i = (Some r, None)"
proof -
  obtain sent where sent: "mset (map fst sent) + mset (cm_running s) = mset [0..<n]"
      "mset (map snd sent) = mset got + mset (cm_buffered s)"
      "\<forall>im \<in> set sent. may_send outs (cm_done s) (fst im) (snd im)"
    using assms(1) unfolding cm_sent_ok_def by blast
  have "MResp r \<in># mset (map snd sent)" using assms(2) sent(2) by simp
  then obtain i where im: "(i, MResp r) \<in> set sent" by auto
  have "may_send outs (cm_done s) i (MResp r)" using sent(3) im by fastforce
  then have "own_msg outs i = MResp r" by (auto simp: may_send_def)
  then have "outs i = (Some r, None)" using own_msg_resp by blast
  moreover have "i \<in># mset (map fst sent) + mset (cm_running s)" using im by force
  then have "i < n" unfolding sent(1) by simp
  ultimately show ?thesis by blast
qed

lemma all_calls_heard:
  assumes "cm_sent_ok outs n s got" and "cm_loop_ok n s got"
    and "i < n" and "cm_i s = n" and "\<not> cm_parent s" and "cm_done s = None"
  shows "own_msg outs i \<in> set got"
proof -
  obtain sent where sent: "mset (map fst sent) + mset (cm_running s) = mset [0..<n]"
      "mset (map snd sent) = mset got + mset (cm_buffered s)"
      "\<forall>im \<in> set sent. may_send outs (cm_done s) (fst im) (snd im)"
    using assms(1) unfolding cm_sent_ok_def by blast
  have "length got = n" using assms by (simp add: cm_loop_ok_def)
  then have idle: "cm_running s = []" "cm_buffered s = []"
    using cm_sent_ok_count [OF assms(1)] by (auto simp: cm_buffered_def)
  then have "mset (map fst sent) = mset [0..<n]" using sent(1) by simp
  then have "i \<in># mset (map fst sent)" using assms(3) by simp
  then obtain m where m: "(i, m) \<in> set sent" by auto
  then have "m = own_msg outs i" using sent(3) assms(6) by (force simp: may_send_def)
  moreover have "mset (map snd sent) = mset got" using sent(2) idle(2) by simp
  then have "set (map snd sent) = set got" by (rule mset_eq_setD)
  then have "m \<in> set got" using m by force
  ultimately show ?thesis by simp
qed

lemma returned_from_call:
  assumes "(cm_step outs n)\<^sup>*\<^sup>* (cm_init n) s" and "cm_ret s = Some (Some r, err)"
  shows "\<exists>i < n. outs i = (Some r, None)"
proof -
  obtain got where sent: "cm_sent_ok outs n s got" and loop: "cm_loop_ok n s got"
    using cm_inv_reach [OF assms(1)] unfolding cm_inv_def by blast
  have "MResp r \<in> set got" using loop assms(2) by (auto simp: cm_loop_ok_def split: option.splits)
  with heard_from_call [OF sent] show ?thesis .
qed

text \<open>When neither context has ended, a loop that ran out speaks for all calls.\<close>

lemma ran_out:
  assumes "cm_sent_ok outs n s got" and "cm_loop_ok n s got"
    and "cm_i s = n" and "\<not> cm_parent s" and "cm_done s = None" and "i < n"
  shows "\<forall>r. MResp r \<in> set got \<longrightarrow> \<not> rs_IsComplete r \<Longrightarrow> outs i = (Some r, None) \<Longrightarrow> \<not> rs_IsComplete r"
    and "cm_response s = None \<Longrightarrow> outs i \<noteq> (Some r, None)"
    and "cm_err s = None \<Longrightarrow> \<exists>r. outs i = (Some r, None)"
proof -
  have heard: "own_msg outs i \<in> set got" by (rule all_calls_heard [OF assms(1,2,6,3,4,5)])
  then have resp: "outs i = (Some r, None) \<Longrightarrow> MResp r \<in> set got" for r
    using own_msg_resp by metis
  show "\<forall>r. MResp r \<in> set got \<longrightarrow> \<not> rs_IsComplete r \<Longrightarrow> outs i = (Some r, None) \<Longrightarrow> \<not> rs_IsComplete r"
    using resp by blast
  show "cm_response s = None \<Longrightarrow> outs i \<noteq> (Some r, None)"
    using resp assms(2) by (auto simp: cm_loop_ok_def)
  assume "cm_err s = None"
  then have "own_msg outs i \<noteq> MErr e" for e using heard assms(2) by (auto simp: cm_loop_ok_def)
  then show "\<exists>r. outs i = (Some r, None)" using own_msg_resp by (cases "own_msg outs i") auto
qed


text \<open>
  The middleware: a backend with one concurrent call, or several proxies, ends the process. The
  plan is the number of calls, the timeout and the proxy called; without a proxy, or with a negative
  number of calls, the request panics; with none the answer is nil.
\<close>

datatype 'p concurrent_plan = CallMany int int 'p | CallNone | CallPanics

definition NewConcurrentMiddlewareWithLogger ::
  "backend \<Rightarrow> 'p list \<Rightarrow> 'p concurrent_plan built" where
  "NewConcurrentMiddlewareWithLogger remote next_ps =
     (if be_ConcurrentCalls remote = 1 then BFatal
      else if length next_ps > 1 then BFatal
      else (case next_ps of
         [] \<Rightarrow> Built (if be_ConcurrentCalls remote = 0 then CallNone else CallPanics)
       | p # _ \<Rightarrow>
           Built (if be_ConcurrentCalls remote < 0 then CallPanics
                  else if be_ConcurrentCalls remote = 0 then CallNone
                  else CallMany (be_ConcurrentCalls remote) (percent 75 (be_Timeout remote)) p)))"

section \<open>A run\<close>

definition sample_calls :: outcomes where
  "sample_calls i =
     (if i = 0 then (None, Some (EOther ''down''))
      else (Some (new_response (Some []) True), None))"

definition sample_returned :: cmerge where
  "sample_returned =
     \<lparr>cm_running = [], cm_results = [], cm_failed = [], cm_done = None, cm_parent = False,
      cm_i = 2, cm_response = Some (new_response (Some []) True),
      cm_err = Some (EOther ''down''),
      cm_ret = Some (Some (new_response (Some []) True), None)\<rparr>"

lemma sample_concurrent_run: "(cm_step sample_calls 2)\<^sup>*\<^sup>* (cm_init 2) sample_returned"
  apply (rule converse_rtranclp_into_rtranclp)
   apply (rule cm_step.call_err [where i = 0])
     apply (simp_all add: cm_init_def sample_calls_def upt_rec)
  apply (rule converse_rtranclp_into_rtranclp)
   apply (rule cm_step.call_ok [where i = 1])
     apply (simp_all add: sample_calls_def)
  apply (rule converse_rtranclp_into_rtranclp)
   apply (rule cm_step.take_err)
     apply simp_all
  apply (rule converse_rtranclp_into_rtranclp)
   apply (rule cm_step.take_complete)
      apply simp_all
  apply (simp_all add: sample_returned_def new_response_def numeral_2_eq_2)
  done

theorem concurrent_returns_witness:
  "0 \<le> 3 * (2::nat) + 3 \<and> (\<exists>t. cm_step sample_calls 2 (cm_init 2) t) \<and>
   (\<exists>t. cm_step sample_calls 2 (cm_init 2) t \<and> length (cm_running t) < 2)"
  using concurrent_returns [where k = 0, of sample_calls 2 "cm_init 2"]
  by (simp add: cm_init_def upt_rec numeral_2_eq_2)


text \<open>
  When the caller's context ends first, the loop can use up its rounds without a message: the
  middleware then returns neither a response nor an error.
\<close>

lemma concurrent_nil_nil:
  "\<exists>s. (cm_step outs 2)\<^sup>*\<^sup>* (cm_init 2) s \<and> cm_ret s = Some (None, None)"
proof -
  let ?p = "(cm_init 2)\<lparr>cm_parent := True, cm_done := Some ECanceled\<rparr>"
  have "cm_step outs 2 (cm_init 2) ?p"
    using cm_step.parent_end [of "cm_init 2" outs 2 ECanceled] by (simp add: cm_init_def)
  moreover have "cm_step outs 2 ?p (?p\<lparr>cm_i := 1\<rparr>)"
    using cm_step.take_done [of ?p 2 outs] by (simp add: cm_init_def)
  moreover have "cm_step outs 2 (?p\<lparr>cm_i := 1\<rparr>) (?p\<lparr>cm_i := 2\<rparr>)"
    using cm_step.take_done [of "?p\<lparr>cm_i := 1\<rparr>" 2 outs]
    by (simp add: cm_init_def numeral_2_eq_2)
  moreover have "cm_step outs 2 (?p\<lparr>cm_i := 2\<rparr>) (?p\<lparr>cm_i := 2, cm_ret := Some (None, None)\<rparr>)"
    using cm_step.loop_end [of "?p\<lparr>cm_i := 2\<rparr>" 2 outs] by (simp add: cm_init_def)
  ultimately have "(cm_step outs 2)\<^sup>*\<^sup>* (cm_init 2) (?p\<lparr>cm_i := 2, cm_ret := Some (None, None)\<rparr>)"
    by (meson converse_rtranclp_into_rtranclp rtranclp.rtrancl_refl)
  then show ?thesis by (intro exI) auto
qed

end
