(* ===== verification/Proxy_Static.thy ===== *)
theory Proxy_Static
  imports Config_Types
begin

text \<open>
  \<open>proxy/static.go\<close>: the endpoint middleware that adds static data to the responses its strategy
  matches.
\<close>

section \<open>Strategies\<close>

definition staticIfCompleteMatch :: "response option \<Rightarrow> go_err option \<Rightarrow> bool" where
  "staticIfCompleteMatch r err \<longleftrightarrow>
     err = None \<and> (case r of None \<Rightarrow> False | Some r \<Rightarrow> rs_IsComplete r)"

definition staticIfIncompleteMatch :: "response option \<Rightarrow> go_err option \<Rightarrow> bool" where
  "staticIfIncompleteMatch r err \<longleftrightarrow> (case r of None \<Rightarrow> True | Some r \<Rightarrow> \<not> rs_IsComplete r)"

text \<open>The switch on the name; an unknown one keeps the initial \<open>staticAlwaysMatch\<close>.\<close>

definition static_match :: "string \<Rightarrow> response option \<Rightarrow> go_err option \<Rightarrow> bool" where
  "static_match name r err =
     (if name = ''always'' then True
      else if name = ''success'' then err = None
      else if name = ''errored'' then err \<noteq> None
      else if name = ''complete'' then staticIfCompleteMatch r err
      else if name = ''incomplete'' then staticIfIncompleteMatch r err
      else True)"

record staticConfig =
  st_Data :: "value gmap"
  st_Strategy :: string

definition getStaticMiddlewareCfg :: "extra_config \<Rightarrow> staticConfig option" where
  "getStaticMiddlewareCfg extra =
     (case section_of extra proxy_Namespace of
        None \<Rightarrow> None
      | Some e \<Rightarrow>
          (case obind (map_of e ''static'') as_obj of
             None \<Rightarrow> None
           | Some tmp \<Rightarrow>
               (case obind (map_of tmp ''data'') as_obj of
                  None \<Rightarrow> None
                | Some data \<Rightarrow>
                    Some \<lparr>st_Data = data,
                      st_Strategy = (case obind (map_of tmp ''strategy'') as_str of
                         None \<Rightarrow> ''always'' | Some n \<Rightarrow> n)\<rparr>)))"

section \<open>The middleware\<close>

text \<open>The data a matched result ends with; a nil response becomes a fresh one.\<close>

definition add_static :: "value gmap \<Rightarrow> response option \<Rightarrow> response" where
  "add_static data result =
     (let res = (case result of
                   None \<Rightarrow> new_response (Some []) False
                 | Some r \<Rightarrow> (case rs_Data r of None \<Rightarrow> r\<lparr>rs_Data := Some []\<rparr> | Some _ \<Rightarrow> r)) in
      res\<lparr>rs_Data := Some (mput_all data (data_of res))\<rparr>)"

definition static_proxy :: "staticConfig \<Rightarrow> 'a proxy \<Rightarrow> 'a proxy" where
  "static_proxy cfg next_p ctx request w =
     (case next_p ctx request w of
        (Panic s, r, w) \<Rightarrow> (Panic s, r, w)
      | (Ret result err, r, w) \<Rightarrow>
          if static_match (st_Strategy cfg) result err
          then (Ret (Some (add_static (st_Data cfg) result)) err, r, w)
          else (Ret result err, r, w))"

definition NewStaticMiddleware :: "endpoint_config \<Rightarrow> 'a proxy list \<Rightarrow> 'a proxy built" where
  "NewStaticMiddleware endpointConfig next_ps =
     (case getStaticMiddlewareCfg (ep_ExtraConfig endpointConfig) of
        None \<Rightarrow> EmptyMiddleware next_ps
      | Some cfg \<Rightarrow>
          if length next_ps > 1 then BFatal else Built (static_proxy cfg (first_proxy next_ps)))"

section \<open>What it adds\<close>

lemma add_static_frame:
  "add_static data (Some r) = r\<lparr>rs_Data := rs_Data (add_static data (Some r))\<rparr>"
  by (simp add: add_static_def Let_def split: option.split)

lemma add_static_lookup:
  "distinct (keys data) \<Longrightarrow>
   map_of (data_of (add_static data r)) =
     (case r of None \<Rightarrow> Map.empty | Some r \<Rightarrow> map_of (data_of r)) ++ map_of data"
  by (auto simp: add_static_def Let_def gmap_simps data_of_def new_response_def split: option.split)

text \<open>
  The static middleware keeps the error and everything of the response but its data; when the
  strategy matches, the data is the backend's with the static fields on top (a nil response becomes
  an incomplete one that holds just them), and otherwise nothing changes. With the strategy
  \<open>complete\<close> a response is touched only if it is complete and without error, with \<open>incomplete\<close>
  only if it is missing or incomplete, so that exactly one of the two applies to any answer without
  error.
\<close>

theorem static_middleware_exact:
  assumes "getStaticMiddlewareCfg (ep_ExtraConfig e) = Some cfg" and "distinct (keys (st_Data cfg))"
    and "p ctx r w = (Ret result err, r', w')"
  shows "\<exists>mw result'. NewStaticMiddleware e [p] = Built mw \<and> mw ctx r w = (Ret result' err, r', w') \<and>
    (if static_match (st_Strategy cfg) result err
     then \<exists>d. result' = Some d \<and>
       map_of (data_of d) =
         (case result of None \<Rightarrow> Map.empty | Some b \<Rightarrow> map_of (data_of b)) ++ map_of (st_Data cfg) \<and>
       (\<forall>b. result = Some b \<longrightarrow> d = b\<lparr>rs_Data := rs_Data d\<rparr>) \<and> (result = None \<longrightarrow> \<not> rs_IsComplete d)
     else result' = result) \<and>
    (err = None \<longrightarrow>
      static_match ''complete'' result err \<noteq> static_match ''incomplete'' result err)"
proof -
  have "\<not> rs_IsComplete (add_static (st_Data cfg) None)"
    by (simp add: add_static_def Let_def)
  moreover have "static_match ''complete'' result None \<noteq> static_match ''incomplete'' result None"
    by (simp add: static_match_def staticIfCompleteMatch_def staticIfIncompleteMatch_def
        split: option.split)
  ultimately show ?thesis
    using assms add_static_frame add_static_lookup [OF assms(2), of result]
    by (auto simp: NewStaticMiddleware_def static_proxy_def)
qed

definition sample_static_endpoint :: endpoint_config where
  "sample_static_endpoint = zero_endpoint\<lparr>ep_ExtraConfig :=
     [(proxy_Namespace, VObj [(''static'', VObj [(''data'', VObj [(''a'', VInt 1)]),
        (''strategy'', VStr ''incomplete'')])])]\<rparr>"

lemma sample_static_cfg:
  "getStaticMiddlewareCfg (ep_ExtraConfig sample_static_endpoint) =
     Some \<lparr>st_Data = [(''a'', VInt 1)], st_Strategy = ''incomplete''\<rparr>"
  by (simp add: sample_static_endpoint_def zero_endpoint_def getStaticMiddlewareCfg_def
      section_of_def)

theorem static_middleware_exact_witness:
  "\<exists>mw d. NewStaticMiddleware sample_static_endpoint [NoopProxy :: unit proxy] = Built mw \<and>
    mw None (undefined :: request) \<lparr>now = 0\<rparr> = (Ret (Some d) None, undefined, \<lparr>now = 0\<rparr>) \<and>
    map_of (data_of d) = [''a'' \<mapsto> VInt 1] \<and> \<not> rs_IsComplete d"
proof -
  have call: "(NoopProxy :: unit proxy) None undefined \<lparr>now = 0\<rparr> =
      (Ret None None, undefined, \<lparr>now = 0\<rparr>)"
    by (simp add: NoopProxy_def)
  have "static_match ''incomplete'' None None"
    by (simp add: static_match_def staticIfIncompleteMatch_def)
  then show ?thesis
    using static_middleware_exact [where p = "NoopProxy :: unit proxy", OF sample_static_cfg _ call]
    by auto
qed

end
