(* ===== verification/Proxy_Plugin.thy ===== *)
theory Proxy_Plugin
  imports Config_Types
begin

text \<open>
  \<open>proxy/plugin.go\<close> and the register of \<open>proxy/plugin/modifier.go\<close>: request and response modifiers,
  which loaded plugins register by name and the endpoint and backend middlewares run around the next
  proxy. The modifiers themselves are code of the plugins, a parameter: a function on wrapped values
  that may change the world, return an error, or return a value of another type.
\<close>

section \<open>The register of modifiers\<close>

abbreviation plugin_Namespace :: string where
  "plugin_Namespace \<equiv> ''github.com/devopsfaith/krakend/proxy/plugin''"

abbreviation requestNamespace :: string where
  "requestNamespace \<equiv> ''github.com/devopsfaith/krakend/proxy/plugin/request''"

abbreviation responseNamespace :: string where
  "responseNamespace \<equiv> ''github.com/devopsfaith/krakend/proxy/plugin/response''"

definition getModifier :: "'m namespaced \<Rightarrow> string \<Rightarrow> string \<Rightarrow> 'm option" where
  "getModifier modifierRegister namespace name =
     (case Namespaced_Get modifierRegister namespace of
        None \<Rightarrow> None
      | Some r \<Rightarrow> Untyped_Get r name)"

definition GetRequestModifier :: "'m namespaced \<Rightarrow> string \<Rightarrow> 'm option" where
  "GetRequestModifier reg name = getModifier reg requestNamespace name"

definition GetResponseModifier :: "'m namespaced \<Rightarrow> string \<Rightarrow> 'm option" where
  "GetResponseModifier reg name = getModifier reg responseNamespace name"

definition RegisterModifier ::
  "string \<Rightarrow> 'm \<Rightarrow> bool \<Rightarrow> bool \<Rightarrow> 'm namespaced \<Rightarrow> 'm namespaced" where
  "RegisterModifier name mf appliesToRequest appliesToResponse reg =
     (let reg = (if appliesToRequest then Namespaced_Register requestNamespace name mf reg else reg)
      in if appliesToResponse then Namespaced_Register responseNamespace name mf reg else reg)"

lemma getModifier_lookup: "getModifier reg ns name = ns_lookup reg (ns, name)"
  by (simp add: getModifier_def ns_lookup_def obind_def)

lemma GetModifier_Register:
  "GetRequestModifier (RegisterModifier n mf q s reg) n' =
     (if q \<and> n' = n then Some mf else GetRequestModifier reg n')"
  "GetResponseModifier (RegisterModifier n mf q s reg) n' =
     (if s \<and> n' = n then Some mf else GetResponseModifier reg n')"
  by (auto simp: GetRequestModifier_def GetResponseModifier_def RegisterModifier_def
      getModifier_lookup ns_lookup_Register)

section \<open>Running modifiers\<close>

text \<open>
  What a modifier gets and gives: a wrapped request, a wrapped response (the first one with the
  request behind it) or any other value.
\<close>

datatype plug_val = PReq request | PResp response "request option" | POther

type_synonym 'a modifier =
  "ctx \<Rightarrow> plug_val \<Rightarrow> 'a world_scheme \<Rightarrow> (go_err + plug_val) \<times> 'a world_scheme"

text \<open>The loop of \<open>executeRequestModifiers\<close>: a result that is no request wrapper is dropped.\<close>

fun run_req_modifiers ::
  "ctx \<Rightarrow> 'a modifier list \<Rightarrow> request \<Rightarrow> 'a world_scheme \<Rightarrow> (go_err + request) \<times> 'a world_scheme"
  where
  "run_req_modifiers ctx [] tmp w = (Inr tmp, w)"
| "run_req_modifiers ctx (f # fs) tmp w =
     (case f ctx (PReq tmp) w of
        (Inl err, w) \<Rightarrow> (Inl err, w)
      | (Inr res, w) \<Rightarrow>
          (case res of
             PReq t \<Rightarrow> run_req_modifiers ctx fs t w
           | _ \<Rightarrow> run_req_modifiers ctx fs tmp w))"

fun run_resp_modifiers ::
  "ctx \<Rightarrow> 'a modifier list \<Rightarrow> plug_val \<Rightarrow> 'a world_scheme \<Rightarrow> (go_err + plug_val) \<times> 'a world_scheme"
  where
  "run_resp_modifiers ctx [] tmp w = (Inr tmp, w)"
| "run_resp_modifiers ctx (f # fs) tmp w =
     (case f ctx tmp w of
        (Inl err, w) \<Rightarrow> (Inl err, w)
      | (Inr res, w) \<Rightarrow>
          (case res of
             PResp t q \<Rightarrow> run_resp_modifiers ctx fs (PResp t q) w
           | _ \<Rightarrow> run_resp_modifiers ctx fs tmp w))"

text \<open>
  \<open>executeResponseModifiers\<close> dereferences the response it gets before anything else. The metadata
  is replaced, data, completeness and \<open>Io\<close> are those of the last wrapper.
\<close>

definition executeResponseModifiers ::
  "ctx \<Rightarrow> 'a modifier list \<Rightarrow> response option \<Rightarrow> request \<Rightarrow> 'a world_scheme \<Rightarrow> pres \<times> 'a world_scheme"
  where
  "executeResponseModifiers ctx respModifiers resp req w =
     (case resp of
        None \<Rightarrow> (Panic ''nil pointer dereference'', w)
      | Some r \<Rightarrow>
          (case run_resp_modifiers ctx respModifiers (PResp r (Some req)) w of
             (Inl err, w) \<Rightarrow> (Ret None (Some err), w)
           | (Inr (PResp t q), w) \<Rightarrow> (Ret (Some t) None, w)
           | (Inr _, w) \<Rightarrow> (Ret (Some r) None, w)))"

section \<open>The middleware\<close>

text \<open>
  The choice of the modifiers: a name registered for requests is a request modifier, and only
  otherwise a response modifier; a factory may return none (\<open>mf cfg = None\<close>).
\<close>

fun collect_modifiers ::
  "(value gmap \<Rightarrow> 'm option) namespaced \<Rightarrow> value gmap \<Rightarrow> value list \<Rightarrow> 'm list \<times> 'm list" where
  "collect_modifiers reg cfg [] = ([], [])"
| "collect_modifiers reg cfg (p # ps) =
     (case collect_modifiers reg cfg ps of (reqs, resps) \<Rightarrow>
        (case as_str p of
           None \<Rightarrow> (reqs, resps)
         | Some name \<Rightarrow>
             (case GetRequestModifier reg name of
                Some mf \<Rightarrow> (case mf cfg of Some fn \<Rightarrow> (fn # reqs, resps) | None \<Rightarrow> (reqs, resps))
              | None \<Rightarrow>
                  (case GetResponseModifier reg name of
                     Some mf \<Rightarrow> (case mf cfg of Some fn \<Rightarrow> (reqs, fn # resps) | None \<Rightarrow> (reqs, resps))
                   | None \<Rightarrow> (reqs, resps)))))"

definition finish_response ::
  "ctx \<Rightarrow> 'a modifier list \<Rightarrow> pres \<times> request \<times> 'a world_scheme \<Rightarrow> pres \<times> request \<times> 'a world_scheme"
  where
  "finish_response ctx respModifiers out =
     (case out of
        (Panic s, r, w) \<Rightarrow> (Panic s, r, w)
      | (Ret resp (Some err), r, w) \<Rightarrow> (Ret resp (Some err), r, w)
      | (Ret resp None, r, w) \<Rightarrow>
          (case executeResponseModifiers ctx respModifiers resp r w of (res, w) \<Rightarrow> (res, r, w)))"

definition plugin_proxy ::
  "'a modifier list \<Rightarrow> 'a modifier list \<Rightarrow> 'a proxy \<Rightarrow> 'a proxy" where
  "plugin_proxy reqModifiers respModifiers next_p ctx r w =
     (if reqModifiers = [] then finish_response ctx respModifiers (next_p ctx r w)
      else
        (case run_req_modifiers ctx reqModifiers r w of
           (Inl err, w) \<Rightarrow> (Ret None (Some err), r, w)
         | (Inr r', w) \<Rightarrow>
             if respModifiers = [] then next_p ctx r' w
             else finish_response ctx respModifiers (next_p ctx r' w)))"

definition newPluginMiddleware ::
  "(value gmap \<Rightarrow> 'a modifier option) namespaced \<Rightarrow> value gmap \<Rightarrow> 'a proxy list \<Rightarrow> 'a proxy built" where
  "newPluginMiddleware reg cfg next_ps =
     (case obind (map_of cfg ''name'') as_arr of
        None \<Rightarrow> EmptyMiddleware next_ps
      | Some plugins \<Rightarrow>
          (case collect_modifiers reg cfg plugins of
             (reqModifiers, respModifiers) \<Rightarrow>
               if reqModifiers = [] \<and> respModifiers = [] then EmptyMiddleware next_ps
               else if length next_ps > 1 then BFatal
               else Built (plugin_proxy reqModifiers respModifiers (first_proxy next_ps))))"

definition NewPluginMiddleware ::
  "(value gmap \<Rightarrow> 'a modifier option) namespaced \<Rightarrow> endpoint_config \<Rightarrow> 'a proxy list \<Rightarrow> 'a proxy built"
  where
  "NewPluginMiddleware reg endpoint next_ps =
     (case section_of (ep_ExtraConfig endpoint) plugin_Namespace of
        None \<Rightarrow> EmptyMiddleware next_ps
      | Some cfg \<Rightarrow> newPluginMiddleware reg cfg next_ps)"

definition NewBackendPluginMiddleware ::
  "(value gmap \<Rightarrow> 'a modifier option) namespaced \<Rightarrow> backend \<Rightarrow> 'a proxy list \<Rightarrow> 'a proxy built" where
  "NewBackendPluginMiddleware reg remote next_ps =
     (case section_of (be_ExtraConfig remote) plugin_Namespace of
        None \<Rightarrow> EmptyMiddleware next_ps
      | Some cfg \<Rightarrow> newPluginMiddleware reg cfg next_ps)"

section \<open>What the pipe guarantees\<close>

text \<open>Modifiers that do not fail, as functions on what they wrap.\<close>

definition pure_req :: "(request \<Rightarrow> request) \<Rightarrow> 'a modifier" where
  "pure_req g ctx v w = (case v of PReq r \<Rightarrow> (Inr (PReq (g r)), w) | _ \<Rightarrow> (Inr POther, w))"

definition pure_resp :: "(response \<Rightarrow> response) \<Rightarrow> 'a modifier" where
  "pure_resp g ctx v w = (case v of PResp r q \<Rightarrow> (Inr (PResp (g r) q), w) | _ \<Rightarrow> (Inr POther, w))"

lemma run_req_pure: "run_req_modifiers ctx (map pure_req gs) r w = (Inr (fold (\<lambda>g r. g r) gs r), w)"
  by (induction gs arbitrary: r) (simp_all add: pure_req_def)

lemma run_resp_pure:
  "run_resp_modifiers ctx (map pure_resp gs) (PResp r q) w =
     (Inr (PResp (fold (\<lambda>g r. g r) gs r) q), w)"
  by (induction gs arbitrary: r) (simp_all add: pure_resp_def)

text \<open>
  The plugin pipe runs in the order of the configuration: with modifiers that do not fail, the
  next proxy gets the request after every request modifier in turn, and a response without error
  goes through every response modifier in turn; an error of the next proxy passes by the response
  modifiers.
\<close>

theorem plugin_pipe_order:
  assumes "fs \<noteq> []" and "p ctx (fold (\<lambda>f r. f r) fs r) w = (Ret (Some resp) err, r', w')"
  shows "plugin_proxy (map pure_req fs) (map pure_resp gs) p ctx r w =
    (case err of
       None \<Rightarrow> (Ret (Some (fold (\<lambda>g r. g r) gs resp)) None, r', w')
     | Some e \<Rightarrow> (Ret (Some resp) (Some e), r', w'))"
  using assms
  by (auto simp: plugin_proxy_def run_req_pure finish_response_def executeResponseModifiers_def
      run_resp_pure split: option.split)

theorem plugin_pipe_order_witness:
  "plugin_proxy (map pure_req [\<lambda>r. r\<lparr>rq_Method := ''PUT''\<rparr>])
      (map pure_resp [\<lambda>r. r\<lparr>rs_StatusCode := 200\<rparr>])
      (\<lambda>ctx r w. (Ret (Some (new_response None True)) None, r, w)) None
      (undefined\<lparr>rq_Method := ''GET''\<rparr>) \<lparr>now = 0\<rparr> =
   (Ret (Some ((new_response None True)\<lparr>rs_StatusCode := 200\<rparr>)) None,
      undefined\<lparr>rq_Method := ''PUT''\<rparr>, \<lparr>now = 0\<rparr>)"
  using plugin_pipe_order [of "[\<lambda>r. r\<lparr>rq_Method := ''PUT''\<rparr>]"
      "\<lambda>ctx r w. (Ret (Some (new_response None True)) None, r, w)" None
      "undefined\<lparr>rq_Method := ''GET''\<rparr>" "\<lparr>now = 0\<rparr>" "new_response None True" None
      "undefined\<lparr>rq_Method := ''PUT''\<rparr>" "\<lparr>now = 0\<rparr>" "[\<lambda>r. r\<lparr>rs_StatusCode := 200\<rparr>]"]
  by simp

text \<open>
  A request modifier that fails stops the request: its error is returned with no response, and
  neither the modifiers after it, nor the next proxy, nor any response modifier runs (the result and
  the world do not depend on them).
\<close>

theorem plugin_request_failure_stops:
  assumes "run_req_modifiers ctx fs r w = (Inr r1, w1)" and "f ctx (PReq r1) w1 = (Inl err, w2)"
  shows "plugin_proxy (fs @ f # later) resps p ctx r w = (Ret None (Some err), r, w2)"
proof -
  have "run_req_modifiers ctx (fs @ f # later) r w = (Inl err, w2)"
    using assms
  proof (induction fs arbitrary: r w)
    case Nil
    then show ?case by simp
  next
    case (Cons g fs)
    then show ?case by (auto split: prod.splits sum.splits plug_val.splits)
  qed
  then show ?thesis by (simp add: plugin_proxy_def)
qed

theorem plugin_request_failure_stops_witness:
  "plugin_proxy ([pure_req (\<lambda>r. r)] @ (\<lambda>ctx v w. (Inl ENoHosts, w\<lparr>now := 7\<rparr>)) # [pure_req (\<lambda>r. r)])
      [] NoopProxy None (undefined :: request) \<lparr>now = 0\<rparr> =
   (Ret None (Some ENoHosts), undefined, \<lparr>now = 7\<rparr>)"
  by (rule plugin_request_failure_stops) (simp_all add: pure_req_def)

text \<open>A name registered for both kinds only runs on the requests.\<close>

lemma modifier_for_both_is_request_only:
  "mf cfg = Some fn \<Longrightarrow>
   collect_modifiers (RegisterModifier n mf True True reg) cfg [VStr n] = ([fn], [])"
  by (simp add: GetModifier_Register)

text \<open>A nil response without an error, which some middlewares return, panics here.\<close>

lemma nil_response_panics:
  "executeResponseModifiers ctx fs None req w = (Panic ''nil pointer dereference'', w)"
  by (simp add: executeResponseModifiers_def)

end
