(* ===== verification/Proxy_Http.thy ===== *)
theory Proxy_Http
  imports Proxy_Formatter Proxy_Request
begin

text \<open>
  The HTTP backend: \<open>proxy/http.go\<close>, \<open>proxy/http_response.go\<close> and the status handlers of
  \<open>transport/http/client/status.go\<close>. The request executor, \<open>http.NewRequest\<close> (the checks on the
  method and the URL), gzip and the JSON parser are parameters (\<open>http_lib\<close>).
\<close>

section \<open>Requests and responses of net/http\<close>

record http_req =
  hq_Method :: string
  hq_URL :: url
  hq_Header :: "string list gmap"
  hq_Body :: "string option"
  hq_ContentLength :: int

text \<open>\<open>hr_URL\<close> is the URL of the request of the response, when it has one.\<close>

record http_resp =
  hr_StatusCode :: int
  hr_Header :: "string list gmap"
  hr_Body :: reader
  hr_URL :: "url option"

text \<open>\<open>Header.Get\<close>: the first value under the canonical key.\<close>

definition header_get :: "string list gmap \<Rightarrow> string \<Rightarrow> string" where
  "header_get h k =
     (case map_of h (CanonicalMIMEHeaderKey k) of Some (v # _) \<Rightarrow> v | _ \<Rightarrow> [])"

section \<open>Status handlers\<close>

abbreviation http_Namespace :: string where
  "http_Namespace \<equiv> ''github.com/devopsfaith/krakend/http''"

text \<open>
  The handlers of the package; the prefix is \<^const>\<open>None\<close> for those made without one, which
  differ in the error of the default handler only.
\<close>

datatype status_handler =
    DefaultHTTPStatusHandler "string option"
  | ErrorHTTPStatusHandler
  | DetailedHTTPStatusHandler string
  | NoOpHTTPStatusHandler

definition GetHTTPStatusHandler :: "backend \<Rightarrow> status_handler" where
  "GetHTTPStatusHandler remote =
     (let errPrefix = ''['' @ be_Method remote @ '' '' @ be_URLPattern remote @ '']:'' in
      case section_of (be_ExtraConfig remote) http_Namespace of
        None \<Rightarrow> DefaultHTTPStatusHandler (Some errPrefix)
      | Some m \<Rightarrow>
          (case map_of m ''return_error_details'' of
             Some (VStr b) \<Rightarrow>
               if b \<noteq> [] then DetailedHTTPStatusHandler b else DefaultHTTPStatusHandler (Some errPrefix)
           | Some _ \<Rightarrow> DefaultHTTPStatusHandler (Some errPrefix)
           | None \<Rightarrow>
               if obind (map_of m ''return_error_code'') as_bool = Some True then ErrorHTTPStatusHandler
               else DefaultHTTPStatusHandler (Some errPrefix)))"

definition status_ok :: "http_resp \<Rightarrow> bool" where
  "status_ok resp \<longleftrightarrow> hr_StatusCode resp \<in> {200, 201}"

definition NewErrInvalidStatusCode :: "http_resp \<Rightarrow> string \<Rightarrow> go_err" where
  "NewErrInvalidStatusCode resp errPrefix =
     EInvalidStatus (hr_StatusCode resp) errPrefix
       (case hr_URL resp of None \<Rightarrow> [] | Some u \<Rightarrow> url_string u)"

definition newHTTPResponseError :: "http_resp \<Rightarrow> http_err" where
  "newHTTPResponseError resp =
     \<lparr>he_Code = hr_StatusCode resp,
      he_Msg = (case ReadAll (hr_Body resp) of Inl _ \<Rightarrow> [] | Inr body \<Rightarrow> body),
      he_Enc = header_get (hr_Header resp) ''Content-Type''\<rparr>"

fun handle_status :: "status_handler \<Rightarrow> http_resp \<Rightarrow> go_err + http_resp" where
  "handle_status NoOpHTTPStatusHandler resp = Inr resp"
| "handle_status (DefaultHTTPStatusHandler p) resp =
     (if status_ok resp then Inr resp
      else Inl (case p of
        None \<Rightarrow> EInvalidStatusCode
      | Some errPrefix \<Rightarrow> NewErrInvalidStatusCode resp errPrefix))"
| "handle_status ErrorHTTPStatusHandler resp =
     (if status_ok resp then Inr resp else Inl (EHTTP (newHTTPResponseError resp)))"
| "handle_status (DetailedHTTPStatusHandler name) resp =
     (if status_ok resp then Inr resp else Inl (ENamedHTTP (newHTTPResponseError resp) name))"

section \<open>Response parsers\<close>

record ('a, 't) http_lib =
  hl_NewRequest :: "string \<Rightarrow> string \<Rightarrow> go_err + string \<times> url"
  hl_gzip :: "reader \<Rightarrow> go_err + reader"
  hl_unjson :: "reader \<Rightarrow> go_err + value"
  hl_custom :: "nat \<Rightarrow> reader \<Rightarrow> go_err + value gmap option"
  hl_flat :: "'t flat_lib"
  hl_executor :: "ctx \<Rightarrow> http_req \<Rightarrow> 'a \<Rightarrow> http_resp option \<times> go_err option \<times> string option \<times> 'a"

text \<open>
  A response parser is the no-op one, or the default one with a decoder (nil when the backend was
  not initialised) and a formatter. A parser gives a response, an error or panics.
\<close>

datatype response_parser = NoOpParser | DefaultParser "decoder option" EntityFormatter

definition http_reader :: "('a, 't) http_lib \<Rightarrow> http_resp \<Rightarrow> go_err + reader" where
  "http_reader lib resp =
     (if header_get (hr_Header resp) ''Content-Encoding'' = ''gzip'' then hl_gzip lib (hr_Body resp)
      else Inr (hr_Body resp))"

definition DefaultHTTPResponseParser ::
  "('a, 't) http_lib \<Rightarrow> decoder option \<Rightarrow> EntityFormatter \<Rightarrow> http_resp \<Rightarrow> pres" where
  "DefaultHTTPResponseParser lib dec ef resp =
     (case http_reader lib resp of
        Inl e \<Rightarrow> Ret None (Some e)
      | Inr rd \<Rightarrow>
          (case dec of
             None \<Rightarrow> Panic ''nil decoder''
           | Some d \<Rightarrow>
               (case decode (hl_unjson lib) (hl_custom lib) d rd of
                  Inl e \<Rightarrow> Ret None (Some e)
                | Inr m \<Rightarrow>
                    (case Format (hl_flat lib) ef (new_response m True) of
                       None \<Rightarrow> Panic ''formatter''
                     | Some r \<Rightarrow> Ret (Some r) None))))"

definition NoOpHTTPResponseParser :: "http_resp \<Rightarrow> pres" where
  "NoOpHTTPResponseParser resp =
     Ret (Some \<lparr>rs_Data = Some [], rs_IsComplete = True, rs_Headers = hr_Header resp,
       rs_StatusCode = hr_StatusCode resp, rs_Io = Some (hr_Body resp)\<rparr>) None"

fun parse_response :: "('a, 't) http_lib \<Rightarrow> response_parser \<Rightarrow> http_resp \<Rightarrow> pres" where
  "parse_response lib NoOpParser resp = NoOpHTTPResponseParser resp"
| "parse_response lib (DefaultParser dec ef) resp = DefaultHTTPResponseParser lib dec ef resp"

section \<open>The proxy\<close>

text \<open>Whether the body of the request is read before the call, so that it can be sent again.\<close>

definition redirects_post :: "backend \<Rightarrow> bool" where
  "redirects_post cfg \<longleftrightarrow>
     obind (section_of (be_ExtraConfig cfg) ''backend/http/client'')
       (\<lambda>v. obind (map_of v ''send_body_on_redirect'') as_bool) = Some True"

text \<open>
  The request to the backend. \<open>http.NewRequest\<close> knows the length of a buffer; a single
  \<open>Content-Length\<close> header that is a number overrides it.
\<close>

definition content_length :: "request \<Rightarrow> int option" where
  "content_length r =
     (case (rq_Body r, map_of (rq_Headers r) ''Content-Length'') of
        (Some _, Some [v]) \<Rightarrow> if v \<noteq> ''chunked'' then Atoi v else None
      | _ \<Rightarrow> None)"

definition backend_request :: "backend \<Rightarrow> string \<times> url \<Rightarrow> request \<Rightarrow> http_req" where
  "backend_request cfg mu r =
     \<lparr>hq_Method = fst mu, hq_URL = snd mu, hq_Header = rq_Headers r, hq_Body = rq_Body r,
      hq_ContentLength =
        (case content_length r of
           Some n \<Rightarrow> n
         | None \<Rightarrow>
             (case rq_Body r of
                Some body \<Rightarrow> if redirects_post cfg then int (length body) else 0
              | None \<Rightarrow> 0))\<rparr>"

text \<open>The body of the caller's request after the call: read by the proxy, or what the executor left.\<close>

definition body_after :: "backend \<Rightarrow> string option \<Rightarrow> request \<Rightarrow> request" where
  "body_after cfg left r =
     r\<lparr>rq_Body := (case rq_Body r of
        None \<Rightarrow> None
      | Some _ \<Rightarrow> if redirects_post cfg then Some [] else Some (case left of None \<Rightarrow> [] | Some s \<Rightarrow> s))\<rparr>"

text \<open>What the proxy makes of the executor's answer.\<close>

definition http_result ::
  "('a, 't) http_lib \<Rightarrow> status_handler \<Rightarrow> response_parser \<Rightarrow> go_err option \<Rightarrow> http_resp option \<Rightarrow>
     go_err option \<Rightarrow> pres" where
  "http_result lib ch rp done_err resp err =
     (case done_err of
        Some e \<Rightarrow> Ret None (Some e)
      | None \<Rightarrow>
          (case err of
             Some e \<Rightarrow> Ret None (Some e)
           | None \<Rightarrow>
               (case resp of
                  None \<Rightarrow> Panic ''nil response''
                | Some resp \<Rightarrow>
                    (case handle_status ch resp of
                       Inl (ENamedHTTP t name) \<Rightarrow>
                         Ret (Some \<lparr>rs_Data = Some [(''error_'' @ name, VNamedErr t name)],
                           rs_IsComplete = False, rs_Headers = [], rs_StatusCode = he_Code t,
                           rs_Io = None\<rparr>) None
                     | Inl e \<Rightarrow> Ret None (Some e)
                     | Inr resp \<Rightarrow> parse_response lib rp resp))))"

definition NewHTTPProxyDetailed ::
  "('a world_scheme, 't) http_lib \<Rightarrow> backend \<Rightarrow> status_handler \<Rightarrow> response_parser \<Rightarrow> 'a proxy" where
  "NewHTTPProxyDetailed lib cfg ch rp ctx r w =
     (case rq_URL r of
        None \<Rightarrow> (Panic ''nil URL'', r, w)
      | Some u \<Rightarrow>
          (case hl_NewRequest lib (to_upper (rq_Method r)) (url_string u) of
             Inl e \<Rightarrow> (Ret None (Some e), if redirects_post cfg then body_after cfg None r else r, w)
           | Inr mu \<Rightarrow>
               (case hl_executor lib ctx (backend_request cfg mu r) w of
                  (resp, err, left, w') \<Rightarrow>
                    (http_result lib ch rp (ctx_err ctx w') resp err, body_after cfg left r, w'))))"

definition NewHTTPProxyWithHTTPExecutor ::
  "('a world_scheme, 't) http_lib \<Rightarrow> backend \<Rightarrow> decoder option \<Rightarrow> 'a proxy" where
  "NewHTTPProxyWithHTTPExecutor lib remote dec =
     (if be_Encoding remote = NOOP
      then NewHTTPProxyDetailed lib remote NoOpHTTPStatusHandler NoOpParser
      else NewHTTPProxyDetailed lib remote (GetHTTPStatusHandler remote)
        (DefaultParser dec (NewEntityFormatter remote)))"

text \<open>\<open>CustomHTTPProxyFactory\<close>: the factory of backends, with the decoder \<open>Init\<close> chose.\<close>

definition CustomHTTPProxyFactory :: "('a world_scheme, 't) http_lib \<Rightarrow> backend \<Rightarrow> 'a proxy" where
  "CustomHTTPProxyFactory lib remote = NewHTTPProxyWithHTTPExecutor lib remote (be_Decoder remote)"

section \<open>The request builder\<close>

definition build_request :: "backend \<Rightarrow> request \<Rightarrow> request" where
  "build_request remote r = (GeneratePath (be_URLPattern remote) r)\<lparr>rq_Method := be_Method remote\<rparr>"

definition newRequestBuilderMiddleware :: "backend \<Rightarrow> 'a proxy list \<Rightarrow> 'a proxy built" where
  "newRequestBuilderMiddleware remote next_ps =
     (if length next_ps > 1 then BFatal
      else Built (\<lambda>ctx r w. first_proxy next_ps ctx (build_request remote r) w))"

section \<open>Where the data of an answer comes from\<close>

fun library_decoder :: "decoder \<Rightarrow> bool" where
  "library_decoder (CustomDecoder _) = False"
| "library_decoder _ = True"

lemma decode_wf:
  assumes "\<forall>rd v. unjson rd = Inr v \<longrightarrow> wf_value v" and "library_decoder d"
    and "decode unjson custom d rd = Inr m"
  shows "wf_obj (case m of None \<Rightarrow> [] | Some m \<Rightarrow> m)"
  using assms
proof (cases d)
  case JSONDecoder
  with assms show ?thesis by (fastforce split: sum.splits go_val_splits)
next
  case JSONCollectionDecoder
  with assms show ?thesis by (fastforce split: sum.splits go_val_splits)
next
  case SafeJSONDecoder
  show ?thesis
  proof (cases "unjson rd")
    case (Inr t)
    then have "wf_value t" using assms(1) by blast
    with assms(3) Inr SafeJSONDecoder show ?thesis by (cases t) auto
  qed (use assms(3) SafeJSONDecoder in simp)
qed (auto split: sum.splits)

lemma http_result_complete:
  assumes "http_result lib ch rp done_err resp err = Ret (Some r) e"
  shows "done_err = None \<and> err = None \<and> e = None \<and> (\<exists>answer. resp = Some answer \<and>
    (if status_ok answer \<or> ch = NoOpHTTPStatusHandler then parse_response lib rp answer = Ret (Some r) None
     else \<exists>name. ch = DetailedHTTPStatusHandler name \<and>
       rs_Data r = Some [(''error_'' @ name, VNamedErr (newHTTPResponseError answer) name)] \<and>
       \<not> rs_IsComplete r \<and> rs_StatusCode r = hr_StatusCode answer))"
proof -
  obtain answer where a: "done_err = None" "err = None" "resp = Some answer"
    using assms by (auto simp: http_result_def split: option.splits)
  have parse: "parse_response lib rp x = Ret (Some r) e \<Longrightarrow> e = None" for x
    by (cases rp) (auto simp: NoOpHTTPResponseParser_def DefaultHTTPResponseParser_def
        split: sum.splits option.splits)
  show ?thesis
    using assms a parse [of answer]
    by (cases ch; cases "status_ok answer")
      (auto simp: http_result_def newHTTPResponseError_def NewErrInvalidStatusCode_def
        split: option.splits)
qed

text \<open>\<open>decoded_as\<close>: the body of an answer, unzipped and decoded.\<close>

definition decoded_as :: "('a, 't) http_lib \<Rightarrow> decoder \<Rightarrow> http_resp \<Rightarrow> value gmap \<Rightarrow> bool" where
  "decoded_as lib d answer m \<longleftrightarrow>
     (\<exists>rd v. http_reader lib answer = Inr rd \<and> decode (hl_unjson lib) (hl_custom lib) d rd = Inr v \<and>
        m = (case v of None \<Rightarrow> [] | Some m \<Rightarrow> m))"

lemma default_parser_values:
  assumes wf: "\<forall>rd v. hl_unjson lib rd = Inr v \<longrightarrow> wf_value v" and "library_decoder d"
    and flat: "newFlatmapFormatter (be_ExtraConfig b) (be_Target b) (be_Group b) = None"
    and "DefaultHTTPResponseParser lib (Some d) (NewEntityFormatter b) answer = Ret (Some r) e"
  shows "rs_IsComplete r \<and> (\<exists>m. decoded_as lib d answer m \<and>
    (\<forall>out_path v. is_leaf v \<and> vlookup (VObj (data_of r)) out_path = Some v \<longrightarrow>
       (\<exists>in_path. backend_source b out_path in_path \<and> vlookup (VObj m) in_path = Some v)))"
proof -
  obtain rd m where rd: "http_reader lib answer = Inr rd"
    and m: "decode (hl_unjson lib) (hl_custom lib) d rd = Inr m"
    and r: "Format (hl_flat lib) (NewEntityFormatter b) (new_response m True) = Some r"
    using assms(4) by (auto simp: DefaultHTTPResponseParser_def split: sum.splits option.splits)
  let ?m = "case m of None \<Rightarrow> [] | Some m \<Rightarrow> m"
  have data: "data_of (new_response m True) = ?m" by (simp add: data_of_def)
  have "wf_obj ?m" by (rule decode_wf [OF wf assms(2) m])
  then obtain d' where "r = (new_response m True)\<lparr>rs_Data := d'\<rparr>"
    and "\<forall>out_path v. is_leaf v \<and> vlookup (VObj (data_of r)) out_path = Some v \<longrightarrow>
       (\<exists>in_path. backend_source b out_path in_path \<and> vlookup (VObj ?m) in_path = Some v)"
    using backend_format_values [OF flat, of "new_response m True" "hl_flat lib"] r
    by (auto simp: data)
  moreover have "decoded_as lib d answer ?m" using rd m by (auto simp: decoded_as_def)
  ultimately show ?thesis by auto
qed


definition sample_http_answer :: http_resp where
  "sample_http_answer =
     \<lparr>hr_StatusCode = 200, hr_Header = [(''Content-Type'', [''application/json''])],
      hr_Body = (''{}'', None), hr_URL = None\<rparr>"

definition sample_http_lib :: "(unit world_scheme, unit) http_lib" where
  "sample_http_lib =
     \<lparr>hl_NewRequest = (\<lambda>m u. Inr (m, \<lparr>u_base = u, u_RawQuery = []\<rparr>)), hl_gzip = Inr,
      hl_unjson = (\<lambda>_. Inr (VObj [(''a'', VInt 1), (''b'', VInt 2)])), hl_custom = (\<lambda>_ _. Inr None),
      hl_flat = sample_flat_lib,
      hl_executor = (\<lambda>ctx q w. (Some sample_http_answer, None, None, w))\<rparr>"

definition sample_http_backend :: backend where
  "sample_http_backend = zero_backend\<lparr>be_Decoder := Some JSONDecoder, be_AllowList := [''a'']\<rparr>"

definition sample_http_request :: request where
  "sample_http_request =
     \<lparr>rq_Method = ''get'', rq_URL = Some \<lparr>u_base = ''http://b/x'', u_RawQuery = []\<rparr>, rq_Query = None,
      rq_Path = ''/x'', rq_Body = None, rq_Params = [], rq_Headers = []\<rparr>"

lemma sample_http_run:
  "CustomHTTPProxyFactory sample_http_lib sample_http_backend None sample_http_request w =
     (Ret (Some (new_response (Some [(''a'', VInt 1)]) True)) None, sample_http_request, w)"
proof -
  have "CustomHTTPProxyFactory sample_http_lib sample_http_backend None sample_http_request w =
    (http_result sample_http_lib (GetHTTPStatusHandler sample_http_backend)
       (DefaultParser (Some JSONDecoder) (NewEntityFormatter sample_http_backend)) None
       (Some sample_http_answer) None, sample_http_request, w)"
    by (simp add: CustomHTTPProxyFactory_def NewHTTPProxyWithHTTPExecutor_def NewHTTPProxyDetailed_def
        sample_http_lib_def sample_http_backend_def sample_http_request_def zero_backend_def
        body_after_def)
  moreover have "http_result sample_http_lib (GetHTTPStatusHandler sample_http_backend)
       (DefaultParser (Some JSONDecoder) (NewEntityFormatter sample_http_backend)) None
       (Some sample_http_answer) None = Ret (Some (new_response (Some [(''a'', VInt 1)]) True)) None"
    by code_simp
  ultimately show ?thesis by simp
qed


text \<open>Without encoding, the answer goes through as it is, whatever its status.\<close>

lemma noop_backend_transparent:
  assumes "be_Encoding b = NOOP" and "rq_URL r = Some u"
    and "hl_NewRequest lib (to_upper (rq_Method r)) (url_string u) = Inr mu"
    and "hl_executor lib ctx (backend_request b mu r) w = (Some answer, None, rest, w')"
    and "ctx_err ctx w' = None"
  shows "fst (CustomHTTPProxyFactory lib b ctx r w) =
    Ret (Some \<lparr>rs_Data = Some [], rs_IsComplete = True, rs_Headers = hr_Header answer,
      rs_StatusCode = hr_StatusCode answer, rs_Io = Some (hr_Body answer)\<rparr>) None"
  using assms
  by (simp add: CustomHTTPProxyFactory_def NewHTTPProxyWithHTTPExecutor_def NewHTTPProxyDetailed_def
      http_result_def NoOpHTTPResponseParser_def)

end
