(* ===== verification/Proxy_Graphql.thy ===== *)
theory Proxy_Graphql
  imports Proxy_Http
begin

text \<open>
  GraphQL backends: the extractor of \<open>transport/http/client/graphql/graphql.go\<close> and the middleware
  of \<open>proxy/graphql.go\<close>. The JSON package, \<open>os.ReadFile\<close> and \<open>cases.Title\<close> are parameters
  (\<open>gql_lib\<close>); slices out of range and writes to nil maps are panics, as in Go.
\<close>

section \<open>Options\<close>

record gql_request =
  gr_Query :: string
  gr_OperationName :: string
  gr_Variables :: "value gmap"

record gql_options = gql_request +
  op_QueryPath :: string
  op_Type :: string
  op_Method :: string

abbreviation graphql_Namespace :: string where
  "graphql_Namespace \<equiv> ''github.com/devopsfaith/krakend/transport/http/client/graphql''"

abbreviation OperationMutation :: string where "OperationMutation \<equiv> ''mutation''"
abbreviation OperationQuery :: string where "OperationQuery \<equiv> ''query''"
abbreviation MethodPost :: string where "MethodPost \<equiv> ''POST''"
abbreviation MethodGet :: string where "MethodGet \<equiv> ''GET''"

text \<open>
  \<open>gl_options\<close> is the trip of a section through JSON into the struct, \<open>gl_object\<close> unmarshals a text
  into a map (\<^const>\<open>None\<close> when it is null).
\<close>

record gql_lib =
  gl_options :: "value \<Rightarrow> go_err + gql_options"
  gl_ReadFile :: "string \<Rightarrow> go_err + string"
  gl_title :: "string \<Rightarrow> string"
  gl_marshal :: "value \<Rightarrow> go_err + string"
  gl_object :: "string \<Rightarrow> go_err + value gmap option"

definition ErrNoConfigFound :: go_err where
  "ErrNoConfigFound = EOther ''grapghql: no configuration found''"

definition GetOptions :: "gql_lib \<Rightarrow> extra_config \<Rightarrow> go_err + gql_options" where
  "GetOptions lib cfg =
     (case map_of cfg graphql_Namespace of
        None \<Rightarrow> Inl ErrNoConfigFound
      | Some tmp \<Rightarrow>
          ebind (gl_options lib tmp) (\<lambda>opt.
            let opt = opt\<lparr>op_Method := to_upper (op_Method opt), op_Type := to_lower (op_Type opt)\<rparr>;
                opt = (if op_Method opt \<noteq> MethodGet \<and> op_Method opt \<noteq> MethodPost
                       then opt\<lparr>op_Method := MethodPost\<rparr> else opt) in
            if op_QueryPath opt = [] then Inr opt
            else ebind (gl_ReadFile lib (op_QueryPath opt)) (\<lambda>q. Inr (opt\<lparr>gr_Query := q\<rparr>))))"

section \<open>The extractor\<close>

text \<open>What a step that can fail or panic gives.\<close>

datatype 'b outcome = Good 'b | Failed go_err | Boom

definition then_do :: "'b outcome \<Rightarrow> ('b \<Rightarrow> 'c outcome) \<Rightarrow> 'c outcome" where
  "then_do x f = (case x of Good b \<Rightarrow> f b | Failed e \<Rightarrow> Failed e | Boom \<Rightarrow> Boom)"

lemma then_do_simps [simp]:
  "then_do (Good b) f = f b" "then_do (Failed e) f = Failed e" "then_do Boom f = Boom"
  by (simp_all add: then_do_def)

lemma then_do_Good: "then_do x f = Good c \<longleftrightarrow> (\<exists>b. x = Good b \<and> f b = Good c)"
  by (cases x) auto

text \<open>
  The variables that stand for a parameter: a text in braces. An empty text and a pair of braces
  around nothing are indexed out of range.
\<close>

fun replacements :: "(string \<Rightarrow> string) \<Rightarrow> value gmap \<Rightarrow> (string \<times> string) list outcome" where
  "replacements title [] = Good []"
| "replacements title ((k, v) # vs) =
     (case v of
        VStr val \<Rightarrow>
          if val = [] then Boom
          else if hd val = CHR ''{'' \<and> last val = CHR ''}'' then
            (if length val \<le> 2 then Boom
             else then_do (replacements title vs) (\<lambda>rs.
               Good ((k, title [val ! 1] @ butlast (drop 2 val)) # rs)))
          else replacements title vs
      | _ \<Rightarrow> replacements title vs)"

record extractor =
  ex_cfg :: gql_options
  ex_replacements :: "(string \<times> string) list"

definition New :: "gql_lib \<Rightarrow> gql_options \<Rightarrow> extractor outcome" where
  "New lib opt =
     then_do (replacements (gl_title lib) (gr_Variables opt)) (\<lambda>rs.
       Good \<lparr>ex_cfg = opt, ex_replacements = rs\<rparr>)"

definition request_of :: "gql_options \<Rightarrow> value gmap \<Rightarrow> gql_request" where
  "request_of opt vars =
     \<lparr>gr_Query = gr_Query opt, gr_OperationName = gr_OperationName opt, gr_Variables = vars\<rparr>"

definition param :: "string gmap \<Rightarrow> string \<Rightarrow> string" where
  "param params k = (case map_of params k of None \<Rightarrow> [] | Some v \<Rightarrow> v)"

definition paramExtractor :: "extractor \<Rightarrow> string gmap \<Rightarrow> gql_request" where
  "paramExtractor e params =
     request_of (ex_cfg e)
       (if ex_replacements e = [] then gr_Variables (ex_cfg e)
        else fold (\<lambda>(k, p) vars. mput k (VStr (param params p)) vars) (ex_replacements e)
               (mput_all (gr_Variables (ex_cfg e)) []))"

text \<open>The JSON of a request: empty names and variables are left out.\<close>

definition request_json :: "gql_request \<Rightarrow> value" where
  "request_json g =
     VObj ([(''query'', VStr (gr_Query g))] @
       (if gr_OperationName g = [] then [] else [(''operationName'', VStr (gr_OperationName g))]) @
       (if gr_Variables g = [] then [] else [(''variables'', VObj (gr_Variables g))]))"

definition marshal_request :: "gql_lib \<Rightarrow> gql_request \<Rightarrow> string outcome" where
  "marshal_request lib g =
     (case gl_marshal lib (request_json g) of Inl e \<Rightarrow> Failed e | Inr b \<Rightarrow> Good b)"

text \<open>Without replacements the body is made once, and an error of the JSON package is dropped.\<close>

definition BodyFromParams :: "gql_lib \<Rightarrow> extractor \<Rightarrow> string gmap \<Rightarrow> string outcome" where
  "BodyFromParams lib e params =
     (case marshal_request lib (paramExtractor e params) of
        Failed err \<Rightarrow> if ex_replacements e = [] then Good [] else Failed err
      | b \<Rightarrow> b)"

fun default_vars :: "value gmap \<Rightarrow> value gmap \<Rightarrow> value gmap" where
  "default_vars [] vars = vars"
| "default_vars ((k, v) # cfg) vars =
     default_vars cfg (if map_of vars k \<noteq> None then vars else mput k v vars)"

definition fromBody :: "gql_lib \<Rightarrow> extractor \<Rightarrow> string \<Rightarrow> gql_request outcome" where
  "fromBody lib e body =
     (case gl_object lib body of
        Inl err \<Rightarrow> Failed err
      | Inr None \<Rightarrow> if gr_Variables (ex_cfg e) = [] then Good (request_of (ex_cfg e) []) else Boom
      | Inr (Some vars) \<Rightarrow> Good (request_of (ex_cfg e) (default_vars (gr_Variables (ex_cfg e)) vars)))"

definition BodyFromBody :: "gql_lib \<Rightarrow> extractor \<Rightarrow> string \<Rightarrow> string outcome" where
  "BodyFromBody lib e body = then_do (fromBody lib e body) (marshal_request lib)"

text \<open>The request as query strings, for the method GET; an error of the JSON package is dropped.\<close>

definition request_query :: "gql_lib \<Rightarrow> gql_request \<Rightarrow> string list gmap" where
  "request_query lib g =
     [(''query'', [gr_Query g])] @
     (if gr_OperationName g = [] then [] else [(''operationName'', [gr_OperationName g])]) @
     (if gr_Variables g = [] then []
      else [(''variables'', [case gl_marshal lib (VObj (gr_Variables g)) of Inl _ \<Rightarrow> [] | Inr b \<Rightarrow> b])])"

definition QueryFromBody :: "gql_lib \<Rightarrow> extractor \<Rightarrow> string \<Rightarrow> string list gmap outcome" where
  "QueryFromBody lib e body = then_do (fromBody lib e body) (\<lambda>g. Good (request_query lib g))"

definition QueryFromParams :: "gql_lib \<Rightarrow> extractor \<Rightarrow> string gmap \<Rightarrow> string list gmap" where
  "QueryFromParams lib e params = request_query lib (paramExtractor e params)"

section \<open>The middleware\<close>

definition body_text :: "request \<Rightarrow> string" where
  "body_text r = (case rq_Body r of None \<Rightarrow> [] | Some b \<Rightarrow> b)"

definition generateBody :: "gql_lib \<Rightarrow> extractor \<Rightarrow> request \<Rightarrow> string outcome" where
  "generateBody lib e r =
     (if op_Type (ex_cfg e) = OperationMutation then BodyFromBody lib e (body_text r)
      else BodyFromParams lib e (rq_Params r))"

definition generateQuery :: "gql_lib \<Rightarrow> extractor \<Rightarrow> request \<Rightarrow> string list gmap outcome" where
  "generateQuery lib e r =
     (if op_Type (ex_cfg e) = OperationMutation then QueryFromBody lib e (body_text r)
      else Good (QueryFromParams lib e (rq_Params r)))"

text \<open>A mutation reads the body of the request before anything else can fail.\<close>

definition body_read :: "extractor \<Rightarrow> request \<Rightarrow> request" where
  "body_read e r =
     (if op_Type (ex_cfg e) = OperationMutation
      then r\<lparr>rq_Body := map_option (\<lambda>_. []) (rq_Body r)\<rparr> else r)"

definition query_add :: "string list gmap \<Rightarrow> string list gmap \<Rightarrow> string list gmap" where
  "query_add q query =
     fold (\<lambda>(k, vs) m. fold (\<lambda>v m.
         mput k ((case map_of m k of None \<Rightarrow> [] | Some old \<Rightarrow> old) @ [v]) m) vs m) q query"

definition set_content :: "string \<Rightarrow> string \<Rightarrow> request \<Rightarrow> request" where
  "set_content m body r =
     r\<lparr>rq_Body := Some body, rq_Method := m,
       rq_Headers := mput ''Content-Type'' [''application/json'']
         (mput ''Content-Length'' [itoa (int (length body))] (rq_Headers r))\<rparr>"

definition graphql_get :: "extractor \<Rightarrow> string list gmap \<Rightarrow> request \<Rightarrow> request" where
  "graphql_get e q r =
     (set_content (op_Method (ex_cfg e)) [] r)
       \<lparr>rq_Query := Some (case rq_Query r of None \<Rightarrow> q | Some query \<Rightarrow> query_add q query)\<rparr>"

definition graphql_proxy :: "gql_lib \<Rightarrow> extractor \<Rightarrow> 'a proxy \<Rightarrow> 'a proxy" where
  "graphql_proxy lib e p ctx r w =
     (if op_Method (ex_cfg e) = MethodGet
      then (case generateQuery lib e r of
              Good q \<Rightarrow> p ctx (graphql_get e q r) w
            | Failed err \<Rightarrow> (Ret None (Some err), body_read e r, w)
            | Boom \<Rightarrow> (Panic ''graphql'', body_read e r, w))
      else (case generateBody lib e r of
              Good b \<Rightarrow> p ctx (set_content (op_Method (ex_cfg e)) b r) w
            | Failed err \<Rightarrow> (Ret None (Some err), body_read e r, w)
            | Boom \<Rightarrow> (Panic ''graphql'', body_read e r, w)))"

definition NewGraphQLMiddleware :: "gql_lib \<Rightarrow> backend \<Rightarrow> 'a proxy list \<Rightarrow> 'a proxy built" where
  "NewGraphQLMiddleware lib remote next_ps =
     (case GetOptions lib (be_ExtraConfig remote) of
        Inl _ \<Rightarrow> EmptyMiddleware next_ps
      | Inr opt \<Rightarrow>
          (case New lib opt of
             Good e \<Rightarrow>
               if op_Type opt \<noteq> OperationMutation \<and> op_Type opt \<noteq> OperationQuery
               then EmptyMiddleware next_ps
               else if length next_ps > 1 then BFatal
               else Built (graphql_proxy lib e (first_proxy next_ps))
           | _ \<Rightarrow> BPanic))"

section \<open>The variables a backend gets\<close>

text \<open>The parameter a variable of the configuration stands for.\<close>

definition template_param :: "(string \<Rightarrow> string) \<Rightarrow> value \<Rightarrow> string option" where
  "template_param title v =
     (case v of
        VStr val \<Rightarrow>
          if length val > 2 \<and> hd val = CHR ''{'' \<and> last val = CHR ''}''
          then Some (title [val ! 1] @ butlast (drop 2 val)) else None
      | _ \<Rightarrow> None)"

definition query_variable :: "(string \<Rightarrow> string) \<Rightarrow> string gmap \<Rightarrow> value \<Rightarrow> value" where
  "query_variable title params v =
     (case template_param title v of None \<Rightarrow> v | Some p \<Rightarrow> VStr (param params p))"

lemma replacements_Cons:
  assumes "replacements title ((k, v) # vs) = Good rs"
  obtains rs' where "replacements title vs = Good rs'"
    "rs = (case template_param title v of None \<Rightarrow> rs' | Some p \<Rightarrow> (k, p) # rs')"
  using assms
  by (cases v) (auto simp: template_param_def then_do_Good split: if_splits)

lemma replacements_lookup:
  "replacements title vs = Good rs \<Longrightarrow> distinct (keys vs) \<Longrightarrow>
     distinct (map fst rs) \<and> fst ` set rs \<subseteq> fst ` set vs \<and>
     (\<forall>k. map_of rs k = obind (map_of vs k) (template_param title))"
proof (induction vs arbitrary: rs)
  case Nil
  then show ?case by simp
next
  case (Cons kv vs)
  obtain k v where kv: "kv = (k, v)" by (cases kv)
  from Cons.prems(1) obtain rs' where rs': "replacements title vs = Good rs'"
    and rs: "rs = (case template_param title v of None \<Rightarrow> rs' | Some p \<Rightarrow> (k, p) # rs')"
    unfolding kv by (rule replacements_Cons)
  have new: "k \<notin> fst ` set vs" and d: "distinct (keys vs)" using Cons.prems(2) kv by auto
  note IH = Cons.IH [OF rs' d]
  have none: "map_of vs k = None" using new by (simp add: map_of_eq_None_iff)
  then show ?case using IH new rs kv by (cases "template_param title v") (auto simp: none)
qed

lemma substitute_lookup:
  "distinct (map fst rs) \<Longrightarrow>
     map_of (fold (\<lambda>(k, p) vars. mput k (VStr (param params p)) vars) rs m) k =
       (case map_of rs k of None \<Rightarrow> map_of m k | Some p \<Rightarrow> Some (VStr (param params p)))"
proof (induction rs arbitrary: m)
  case Nil
  then show ?case by simp
next
  case (Cons kp rs)
  obtain a p where kp: "kp = (a, p)" by (cases kp)
  then have "a \<notin> fst ` set rs" using Cons.prems by simp
  then have "map_of rs a = None" by (simp add: map_of_eq_None_iff)
  then show ?case using Cons kp by (auto simp: map_of_mput split: option.splits)
qed

lemma paramExtractor_variables:
  assumes "New lib opt = Good e" and "distinct (keys (gr_Variables opt))"
  shows "map_of (gr_Variables (paramExtractor e params)) k =
    map_option (query_variable (gl_title lib) params) (map_of (gr_Variables opt) k)"
proof -
  obtain rs where rs: "replacements (gl_title lib) (gr_Variables opt) = Good rs"
    and e: "e = \<lparr>ex_cfg = opt, ex_replacements = rs\<rparr>"
    using assms(1) by (auto simp: New_def then_do_Good)
  note lk = replacements_lookup [OF rs assms(2)]
  have copy: "map_of (mput_all (gr_Variables opt) []) = map_of (gr_Variables opt)"
    using map_of_mput_all [OF assms(2), of "[]"] by simp
  have "map_of (gr_Variables (paramExtractor e params)) k =
      (case map_of rs k of None \<Rightarrow> map_of (gr_Variables opt) k | Some p \<Rightarrow> Some (VStr (param params p)))"
    using lk assms(2) by (auto simp: paramExtractor_def e request_of_def substitute_lookup copy
        cong: option.case_cong)
  also have "\<dots> = map_option (query_variable (gl_title lib) params) (map_of (gr_Variables opt) k)"
    using lk by (cases "map_of (gr_Variables opt) k") (auto simp: query_variable_def split: option.split)
  finally show ?thesis .
qed

lemma default_vars_lookup:
  "map_of (default_vars cfg vars) k =
     (case map_of vars k of Some v \<Rightarrow> Some v | None \<Rightarrow> map_of cfg k)"
  by (induction cfg vars rule: default_vars.induct) (auto simp: map_of_mput split: option.splits)

lemma GetOptions_method:
  "GetOptions lib cfg = Inr opt \<Longrightarrow> op_Method opt \<in> {MethodGet, MethodPost}"
  by (auto simp: GetOptions_def Let_def ebind_eq_Inr split: option.splits if_splits)

text \<open>
  C20. What a GraphQL backend gets by POST. The request reaches the next proxy with only its method,
  body and content headers changed: the body is the JSON of the configured query and name with the
  variables, \<open>Content-Length\<close> is its length. For a query the variables are the configured ones,
  those that name a parameter in braces holding its value; for a mutation they are the ones of the
  request's body with the configured ones as defaults.
\<close>

theorem graphql_post_request:
  assumes "GetOptions lib (be_ExtraConfig b) = Inr opt" and "op_Method opt = MethodPost"
    and "op_Type opt \<in> {OperationQuery, OperationMutation}" and "distinct (keys (gr_Variables opt))"
    and "NewGraphQLMiddleware lib b [p] = Built mw"
    and "op_Type opt = OperationMutation \<Longrightarrow> gl_object lib (body_text r) = Inr (Some given)"
  shows "\<exists>vars.
    (\<forall>k. map_of vars k =
       (if op_Type opt = OperationQuery
        then map_option (query_variable (gl_title lib) (rq_Params r)) (map_of (gr_Variables opt) k)
        else case map_of given k of Some v \<Rightarrow> Some v | None \<Rightarrow> map_of (gr_Variables opt) k)) \<and>
    (\<forall>json. gl_marshal lib (request_json (request_of opt vars)) = Inr json \<longrightarrow>
       mw ctx r w = p ctx
         (r\<lparr>rq_Body := Some json, rq_Method := ''POST'',
            rq_Headers := mput ''Content-Type'' [''application/json'']
              (mput ''Content-Length'' [itoa (int (length json))] (rq_Headers r))\<rparr>) w)"
proof -
  obtain e where e: "New lib opt = Good e" and mw: "mw = graphql_proxy lib e p"
    using assms(1,3,5) by (auto simp: NewGraphQLMiddleware_def split: outcome.splits if_splits)
  then have cfg: "ex_cfg e = opt" by (auto simp: New_def then_do_Good)
  show ?thesis
  proof (cases "op_Type opt = OperationQuery")
    case True
    have req: "paramExtractor e (rq_Params r) =
        request_of opt (gr_Variables (paramExtractor e (rq_Params r)))"
      by (simp add: paramExtractor_def request_of_def cfg)
    show ?thesis
      using True paramExtractor_variables [OF e assms(4)] assms(2) cfg
      by (intro exI [of _ "gr_Variables (paramExtractor e (rq_Params r))"])
        (auto simp: mw graphql_proxy_def generateBody_def BodyFromParams_def marshal_request_def
          set_content_def simp flip: req)
  next
    case False
    then have mut: "op_Type opt = OperationMutation" using assms(3) by simp
    show ?thesis
      using mut assms(2) assms(6) [OF mut] cfg
      by (intro exI [of _ "default_vars (gr_Variables opt) given"])
        (auto simp: default_vars_lookup mw graphql_proxy_def generateBody_def BodyFromBody_def
          fromBody_def marshal_request_def set_content_def)
  qed
qed

definition sample_gql_options :: gql_options where
  "sample_gql_options =
     \<lparr>gr_Query = ''q'', gr_OperationName = [],
      gr_Variables = [(''a'', VStr ''{id}''), (''b'', VInt 1)],
      op_QueryPath = [], op_Type = ''query'', op_Method = ''post''\<rparr>"

definition sample_gql_lib :: gql_lib where
  "sample_gql_lib =
     \<lparr>gl_options = (\<lambda>_. Inr sample_gql_options), gl_ReadFile = Inr, gl_title = to_upper,
      gl_marshal = (\<lambda>_. Inr ''{}''), gl_object = (\<lambda>_. Inr (Some []))\<rparr>"

definition sample_gql_backend :: backend where
  "sample_gql_backend = zero_backend\<lparr>be_ExtraConfig := [(graphql_Namespace, VNil)]\<rparr>"

definition sample_gql_final :: gql_options where
  "sample_gql_final = sample_gql_options\<lparr>op_Method := ''POST''\<rparr>"

lemma sample_gql_GetOptions:
  "GetOptions sample_gql_lib (be_ExtraConfig sample_gql_backend) = Inr sample_gql_final"
  by code_simp

lemma sample_gql_New:
  "New sample_gql_lib sample_gql_final =
     Good \<lparr>ex_cfg = sample_gql_final, ex_replacements = [(''a'', ''Id'')]\<rparr>"
  by code_simp

theorem graphql_post_request_witness:
  "\<exists>vars. map_of vars ''a'' = Some (VStr ''42'') \<and> map_of vars ''b'' = Some (VInt 1)"
proof -
  let ?r = "sample_http_request\<lparr>rq_Params := [(''Id'', ''42'')]\<rparr>"
  have mw: "NewGraphQLMiddleware sample_gql_lib sample_gql_backend [NoopProxy :: unit proxy] =
      Built (graphql_proxy sample_gql_lib \<lparr>ex_cfg = sample_gql_final, ex_replacements = [(''a'', ''Id'')]\<rparr> NoopProxy)"
    by (simp add: NewGraphQLMiddleware_def sample_gql_GetOptions sample_gql_New)
      (simp add: sample_gql_final_def sample_gql_options_def)
  have opt: "op_Method sample_gql_final = MethodPost"
      "op_Type sample_gql_final \<in> {OperationQuery, OperationMutation}"
      "distinct (keys (gr_Variables sample_gql_final))"
    by (simp_all add: sample_gql_final_def sample_gql_options_def)
  have query: "op_Type sample_gql_final = OperationQuery"
    by (simp add: sample_gql_final_def sample_gql_options_def)
  have mut: "op_Type sample_gql_final = OperationMutation \<Longrightarrow>
      gl_object sample_gql_lib (body_text ?r) = Inr (Some [])"
    by (simp add: query)
  note ex = graphql_post_request [OF sample_gql_GetOptions opt mw mut, of None "\<lparr>now = 0\<rparr>"]
  have "\<exists>vars. \<forall>k. map_of vars k =
      (if op_Type sample_gql_final = OperationQuery
       then map_option (query_variable (gl_title sample_gql_lib) (rq_Params ?r))
         (map_of (gr_Variables sample_gql_final) k)
       else case map_of ([] :: (string \<times> value) list) k of Some v \<Rightarrow> Some v
         | None \<Rightarrow> map_of (gr_Variables sample_gql_final) k)"
    by (rule ex_forward [OF ex], assumption, erule conjunct1)
  then obtain vars where "\<forall>k. map_of vars k =
      map_option (query_variable (gl_title sample_gql_lib) (rq_Params ?r)) (map_of (gr_Variables sample_gql_final) k)"
    by (auto simp: query)
  moreover have "query_variable (gl_title sample_gql_lib) (rq_Params ?r) (VStr ''{id}'') = VStr ''42''"
    "query_variable (gl_title sample_gql_lib) (rq_Params ?r) (VInt 1) = VInt 1"
    by code_simp+
  ultimately show ?thesis
    by (intro exI [of _ vars]) (simp add: sample_gql_final_def sample_gql_options_def)
qed

text \<open>
  Three panics: a body that is the JSON null when there are defaults to add, a configured variable
  that is an empty text (indexed at 0) and one that is a pair of braces.
\<close>

lemma graphql_null_body_panics:
  "gl_object lib body = Inr None \<Longrightarrow> gr_Variables (ex_cfg e) \<noteq> [] \<Longrightarrow> fromBody lib e body = Boom"
  by (simp add: fromBody_def)

lemma graphql_empty_variable_panics:
  "replacements title [(k, VStr [])] = Boom" "replacements title [(k, VStr ''{}'')] = Boom"
  by simp_all

text \<open>
  With the method GET the GraphQL request goes into the query of the request; the HTTP backend sends
  the URL the balancer made before, so that whatever the query is, the backend gets the same.
\<close>

lemma graphql_get_is_not_sent:
  "backend_request cfg mu (graphql_get e q r) = backend_request cfg mu (graphql_get e q' r)"
  "rq_URL (graphql_get e q r) = rq_URL r"
  by (simp_all add: backend_request_def graphql_get_def set_content_def content_length_def map_of_mput
    cong: option.case_cong)

end
