(* ===== verification/SD.thy ===== *)
theory SD
  imports Config_Types
begin

text \<open>
  Package \<open>sd\<close>: subscribers (\<open>sd/subscriber.go\<close>), their register (\<open>sd/register.go\<close>) and the
  balancers (\<open>sd/loadbalancing.go\<close>). \<open>rand\<close> is \<open>fastrand.Uint32n\<close>: a number below the bound
  it is given. The counter of the round robin is a uint64 that \<open>atomic.AddUint64\<close> wraps.
\<close>

section \<open>Subscribers\<close>

text \<open>A subscriber other than a fixed list is asked in the current world.\<close>

datatype 'a subscriber =
    FixedSubscriber "string list"
  | SubscriberFunc "'a world_scheme \<Rightarrow> string list \<times> go_err option"

fun Hosts :: "'a subscriber \<Rightarrow> 'a world_scheme \<Rightarrow> string list \<times> go_err option" where
  "Hosts (FixedSubscriber s) w = (s, None)"
| "Hosts (SubscriberFunc f) w = f w"

definition FixedSubscriberFactory :: "backend \<Rightarrow> 'a subscriber" where
  "FixedSubscriberFactory cfg = FixedSubscriber (be_Host cfg)"

text \<open>\<open>perm\<close> is \<open>rand.Perm(len(hosts))\<close>.\<close>

definition NewRandomFixedSubscriber :: "nat list \<Rightarrow> string list \<Rightarrow> string list" where
  "NewRandomFixedSubscriber perm hosts = map (\<lambda>i. hosts ! i) perm"

lemma NewRandomFixedSubscriber_mset:
  assumes "mset perm = mset [0..<length hosts]"
  shows "mset (NewRandomFixedSubscriber perm hosts) = mset hosts"
proof -
  have "mset (map (\<lambda>i. hosts ! i) perm) = image_mset (\<lambda>i. hosts ! i) (mset perm)"
    by (rule mset_map)
  also have "\<dots> = mset (map (\<lambda>i. hosts ! i) [0..<length hosts])"
    by (simp only: assms mset_map)
  finally show ?thesis by (simp add: NewRandomFixedSubscriber_def map_nth)
qed

text \<open>The register of factories: an unknown name gets the fixed one.\<close>

definition sd_Register ::
  "string \<Rightarrow> (backend \<Rightarrow> 'a subscriber) \<Rightarrow> (backend \<Rightarrow> 'a subscriber) untyped \<Rightarrow>
     (backend \<Rightarrow> 'a subscriber) untyped" where
  "sd_Register name sf r = Untyped_Register name sf r"

definition sd_Get :: "(backend \<Rightarrow> 'a subscriber) untyped \<Rightarrow> string \<Rightarrow> backend \<Rightarrow> 'a subscriber" where
  "sd_Get r name = (case Untyped_Get r name of None \<Rightarrow> FixedSubscriberFactory | Some sf \<Rightarrow> sf)"

interpretation sd_reg: kv_register Untyped_Get sd_Register
  by unfold_locales (simp add: sd_Register_def Untyped_Get_Register)

section \<open>Balancers\<close>

datatype 'a balancer =
    NopBalancer string
  | RoundRobinLB "'a subscriber" "64 word"
  | RandomLB "'a subscriber"

definition lb_hosts :: "'a subscriber \<Rightarrow> 'a world_scheme \<Rightarrow> go_err + string list" where
  "lb_hosts subscriber w =
     (case Hosts subscriber w of
        (hs, Some err) \<Rightarrow> Inl err
      | (hs, None) \<Rightarrow> if hs = [] then Inl ENoHosts else Inr hs)"

text \<open>\<open>Host()\<close>: the host chosen and the balancer as it is left.\<close>

fun Host ::
  "(nat \<Rightarrow> nat) \<Rightarrow> 'a balancer \<Rightarrow> 'a world_scheme \<Rightarrow> (go_err + string) \<times> 'a balancer" where
  "Host rand (NopBalancer h) w = (Inr h, NopBalancer h)"
| "Host rand (RoundRobinLB s counter) w =
     (case lb_hosts s w of
        Inl err \<Rightarrow> (Inl err, RoundRobinLB s counter)
      | Inr hosts \<Rightarrow>
          (let counter = counter + 1;
               offset = (counter - 1) mod word_of_nat (length hosts) in
           (Inr (hosts ! unat offset), RoundRobinLB s counter)))"
| "Host rand (RandomLB s) w =
     (case lb_hosts s w of
        Inl err \<Rightarrow> (Inl err, RandomLB s)
      | Inr hosts \<Rightarrow>
          (Inr (hosts ! rand (unat (word_of_nat (length hosts) :: 32 word))), RandomLB s))"

definition NewRoundRobinLB :: "(nat \<Rightarrow> nat) \<Rightarrow> 'a subscriber \<Rightarrow> 'a balancer" where
  "NewRoundRobinLB rand subscriber =
     (case subscriber of
        FixedSubscriber s \<Rightarrow>
          if length s = 1 then NopBalancer (s ! 0)
          else if length s > 1 then
            RoundRobinLB subscriber
              (word_of_nat (rand (unat (word_of_nat (length s) :: 32 word))))
          else RoundRobinLB subscriber 0
      | _ \<Rightarrow> RoundRobinLB subscriber 0)"

definition NewRandomLB :: "'a subscriber \<Rightarrow> 'a balancer" where
  "NewRandomLB subscriber =
     (case subscriber of
        FixedSubscriber s \<Rightarrow> if length s = 1 then NopBalancer (s ! 0) else RandomLB subscriber
      | _ \<Rightarrow> RandomLB subscriber)"

text \<open>\<open>gomaxprocs\<close> is \<open>runtime.GOMAXPROCS(-1)\<close>.\<close>

definition NewBalancer :: "nat \<Rightarrow> (nat \<Rightarrow> nat) \<Rightarrow> 'a subscriber \<Rightarrow> 'a balancer" where
  "NewBalancer gomaxprocs rand subscriber =
     (if gomaxprocs = 1 then NewRoundRobinLB rand subscriber else NewRandomLB subscriber)"

section \<open>The contract of a balancer\<close>

text \<open>
  What the load balanced proxy relies on: the host is one of the current hosts of the subscriber,
  and there is an error exactly when there is none to give. Fewer than \<open>2 ^ 32\<close> hosts, and a
  random number below its bound, are the conditions of the two libraries.
\<close>

definition rand_ok :: "(nat \<Rightarrow> nat) \<Rightarrow> bool" where
  "rand_ok rand \<longleftrightarrow> (\<forall>n > 0. rand n < n)"

definition hosts_ok :: "'a subscriber \<Rightarrow> 'a world_scheme \<Rightarrow> bool" where
  "hosts_ok s w \<longleftrightarrow> length (fst (Hosts s w)) < 2 ^ 32"

locale balancing =
  fixes host :: "'b \<Rightarrow> 'a world_scheme \<Rightarrow> (go_err + string) \<times> 'b"
    and source :: "'a subscriber"
    and valid :: "'b \<Rightarrow> bool"
  assumes keeps: "valid b \<Longrightarrow> valid (snd (host b w))"
    and picks: "valid b \<Longrightarrow> hosts_ok source w \<Longrightarrow>
      (case lb_hosts source w of
         Inl e \<Rightarrow> fst (host b w) = Inl e
       | Inr hs \<Rightarrow> \<exists>h \<in> set hs. fst (host b w) = Inr h)"
begin

text \<open>A run of calls, each in its own world.\<close>

fun run :: "'b \<Rightarrow> 'a world_scheme list \<Rightarrow> (go_err + string) list" where
  "run b [] = []"
| "run b (w # ws) = fst (host b w) # run (snd (host b w)) ws"

lemma run_picks:
  "valid b \<Longrightarrow> \<forall>w \<in> set ws. hosts_ok source w \<Longrightarrow> i < length ws \<Longrightarrow>
   (case lb_hosts source (ws ! i) of
      Inl e \<Rightarrow> run b ws ! i = Inl e
    | Inr hs \<Rightarrow> \<exists>h \<in> set hs. run b ws ! i = Inr h)"
proof (induction b ws arbitrary: i rule: run.induct)
  case (1 b)
  then show ?case by simp
next
  case (2 b w ws)
  show ?case
  proof (cases i)
    case 0
    with 2(2,3) picks [of b w] show ?thesis
      by (cases "lb_hosts source w") auto
  next
    case (Suc j)
    with 2(2-4) 2(1) [of j] keeps [of b w] show ?thesis
      by (cases "lb_hosts source (ws ! j)") auto
  qed
qed

end

definition valid_lb :: "'a subscriber \<Rightarrow> 'a balancer \<Rightarrow> bool" where
  "valid_lb s b \<longleftrightarrow>
     (case b of
        NopBalancer h \<Rightarrow> s = FixedSubscriber [h]
      | RoundRobinLB s' c \<Rightarrow> s' = s
      | RandomLB s' \<Rightarrow> s' = s)"

lemma lb_hosts_ne: "lb_hosts s w = Inr hs \<Longrightarrow> hs \<noteq> [] \<and> fst (Hosts s w) = hs"
  by (auto simp: lb_hosts_def split: prod.splits option.splits if_splits)

lemma unat_mod_less:
  assumes "0 < n" and "n < 2 ^ 64"
  shows "unat ((c :: 64 word) mod word_of_nat n) = unat c mod n"
  using assms by (simp add: unat_mod unat_of_nat)

lemma unat32: "n < 2 ^ 32 \<Longrightarrow> unat (word_of_nat n :: 32 word) = n"
  by (simp add: unat_of_nat)

lemma Host_picks:
  assumes "rand_ok rand" and "valid_lb s b" and "hosts_ok s w"
  shows "case lb_hosts s w of
      Inl e \<Rightarrow> fst (Host rand b w) = Inl e
    | Inr hs \<Rightarrow> \<exists>h \<in> set hs. fst (Host rand b w) = Inr h"
proof (cases "lb_hosts s w")
  case (Inl e)
  with assms(2) show ?thesis by (cases b) (auto simp: valid_lb_def lb_hosts_def)
next
  case (Inr hs)
  with lb_hosts_ne [OF Inr] assms(3) have n: "0 < length hs" "length hs < 2 ^ 32"
    by (auto simp: hosts_ok_def)
  show ?thesis
  proof (cases b)
    case (NopBalancer h)
    with assms(2) Inr show ?thesis by (auto simp: valid_lb_def lb_hosts_def)
  next
    case (RoundRobinLB s' c)
    have "unat (c mod word_of_nat (length hs)) < length hs"
      using n by (simp add: unat_mod_less)
    with RoundRobinLB assms(2) Inr show ?thesis by (auto simp: valid_lb_def Let_def)
  next
    case (RandomLB s')
    have "rand (length hs) < length hs" using assms(1) n(1) by (simp add: rand_ok_def)
    with RandomLB assms(2) Inr n(2) show ?thesis by (auto simp: valid_lb_def unat32)
  qed
qed

lemma Host_valid: "valid_lb s b \<Longrightarrow> valid_lb s (snd (Host rand b w))"
  by (cases b) (auto simp: valid_lb_def Let_def split: sum.split)

lemma NewBalancer_valid: "valid_lb s (NewBalancer p rand s)"
  by (auto simp: NewBalancer_def NewRoundRobinLB_def NewRandomLB_def valid_lb_def length_Suc_conv
      split: subscriber.split)

text \<open>
  A random number generator that keeps its bound: the identity below it. Every balancer the package
  builds, over any subscriber, keeps the contract with any generator that does.
\<close>

typedef bounded_rand = "{rand. rand_ok rand}"
  by (intro exI [of _ "\<lambda>_. 0"]) (simp add: rand_ok_def)

lemma bounded_rand_ok [simp]: "rand_ok (Rep_bounded_rand rand)"
  using Rep_bounded_rand [of rand] by simp

interpretation lb: balancing "Host (Rep_bounded_rand rand)" s "valid_lb s" for rand s
  by unfold_locales (auto intro: Host_valid dest: Host_picks [OF bounded_rand_ok])

text \<open>
  Every host a balancer gives, in any run of calls and however the subscriber's hosts change
  between them, is one of the hosts the subscriber has at that moment; a call fails exactly when the
  subscriber fails (with its error) or has no hosts (\<open>ErrNoHosts\<close>). This holds for each balancer the
  package can choose.
\<close>

theorem balancer_gives_current_host:
  assumes "\<forall>w \<in> set ws. hosts_ok s w" and "i < length ws"
  shows "case lb_hosts s (ws ! i) of
      Inl e \<Rightarrow> lb.run rand (NewBalancer gomaxprocs (Rep_bounded_rand rand) s) ws ! i = Inl e
    | Inr hs \<Rightarrow> \<exists>h \<in> set hs.
        lb.run rand (NewBalancer gomaxprocs (Rep_bounded_rand rand) s) ws ! i = Inr h"
  by (rule lb.run_picks [OF NewBalancer_valid assms])

theorem balancer_gives_current_host_witness:
  "case lb_hosts (FixedSubscriber [''a'', ''b'']) (\<lparr>now = 0\<rparr>) of
      Inl e \<Rightarrow> lb.run (Abs_bounded_rand (\<lambda>_. 0))
        (NewBalancer 1 (Rep_bounded_rand (Abs_bounded_rand (\<lambda>_. 0))) (FixedSubscriber [''a'', ''b'']))
        [\<lparr>now = 0\<rparr>] ! 0 = Inl e
    | Inr hs \<Rightarrow> \<exists>h \<in> set hs.
        lb.run (Abs_bounded_rand (\<lambda>_. 0))
        (NewBalancer 1 (Rep_bounded_rand (Abs_bounded_rand (\<lambda>_. 0))) (FixedSubscriber [''a'', ''b'']))
          [\<lparr>now = 0\<rparr>] ! 0 = Inr h"
  using balancer_gives_current_host [of "[\<lparr>now = 0\<rparr>]" "FixedSubscriber [''a'', ''b'']" 0
      "Abs_bounded_rand (\<lambda>_. 0)" 1]
  by (simp add: hosts_ok_def)

section \<open>The round robin\<close>

text \<open>The hosts of successive calls over a fixed list.\<close>

fun rr_calls :: "nat \<Rightarrow> 'a balancer \<Rightarrow> 'a world_scheme \<Rightarrow> (go_err + string) list" where
  "rr_calls 0 b w = []"
| "rr_calls (Suc k) b w = (case Host (\<lambda>_. 0) b w of (h, b') \<Rightarrow> h # rr_calls k b' w)"

lemma Host_round_robin:
  assumes "hosts \<noteq> []" and "length hosts < 2 ^ 64"
  shows "Host rand (RoundRobinLB (FixedSubscriber hosts) c) w =
    (Inr (hosts ! (unat c mod length hosts)), RoundRobinLB (FixedSubscriber hosts) (c + 1))"
  using assms by (simp add: lb_hosts_def Let_def unat_mod_less)

lemma rr_calls_nth:
  assumes "hosts \<noteq> []" and "length hosts < 2 ^ 64"
  shows "unat c + k \<le> 2 ^ 64 \<Longrightarrow>
    rr_calls k (RoundRobinLB (FixedSubscriber hosts) c) w =
      map (\<lambda>i. Inr (hosts ! ((unat c + i) mod length hosts))) [0..<k]"
proof (induction k arbitrary: c)
  case 0
  then show ?case by simp
next
  case (Suc k)
  show ?case
  proof (cases k)
    case 0
    then show ?thesis using assms by (simp add: Host_round_robin del: Host.simps)
  next
    case (Suc k')
    have lt: "unat c + 1 < 2 ^ 64" using Suc.prems Suc by simp
    then have c1: "unat (c + 1) = unat c + 1"
      by (simp add: unat_word_ariths)
    have "rr_calls k (RoundRobinLB (FixedSubscriber hosts) (c + 1)) w =
        map (\<lambda>i. Inr (hosts ! ((unat c + 1 + i) mod length hosts))) [0..<k]"
      using Suc.IH [of "c + 1"] Suc.prems c1 by simp
    then show ?thesis
      using assms by (simp add: Host_round_robin map_upt_Suc del: upt_Suc Host.simps)
  qed
qed

lemma mset_rotate_list: "mset (rotate n xs) = mset xs"
proof (induction n)
  case 0
  then show ?case by simp
next
  case (Suc n)
  have "mset (rotate1 ys) = mset ys" for ys :: "'a list"
    by (cases ys) simp_all
  with Suc show ?case by simp
qed

text \<open>
  C26. The round robin is fair: over a fixed list of hosts, any as many successive calls as there are
  hosts, from any position of the counter that does not reach its end, give every host of the list
  exactly once (as often as it is listed), in the order of the list from some starting point.
\<close>

theorem round_robin_fair:
  assumes "hosts \<noteq> []" and "unat (c :: 64 word) + length hosts < 2 ^ 64"
  shows "rr_calls (length hosts) (RoundRobinLB (FixedSubscriber hosts) c) w =
      map Inr (rotate (unat c) hosts) \<and>
    mset (rr_calls (length hosts) (RoundRobinLB (FixedSubscriber hosts) c) w) =
      mset (map Inr hosts)"
proof -
  have len: "length hosts < 2 ^ 64" and le: "unat c + length hosts \<le> 2 ^ 64"
    using assms(2) by simp_all
  have "map (\<lambda>i. Inr (hosts ! ((unat c + i) mod length hosts))) [0..<length hosts] =
      map Inr (rotate (unat c) hosts)"
    by (intro nth_equalityI) (simp_all add: nth_rotate)
  then have "rr_calls (length hosts) (RoundRobinLB (FixedSubscriber hosts) c) w =
      map Inr (rotate (unat c) hosts)"
    using rr_calls_nth [OF assms(1) len le, of w] by simp
  then show ?thesis by (simp add: mset_rotate_list)
qed

theorem round_robin_fair_witness:
  "rr_calls (length [''a'', ''b'', ''c''])
      (RoundRobinLB (FixedSubscriber [''a'', ''b'', ''c'']) (4 :: 64 word)) \<lparr>now = 0\<rparr> =
      map Inr (rotate (unat (4 :: 64 word)) [''a'', ''b'', ''c'']) \<and>
   mset (rr_calls (length [''a'', ''b'', ''c''])
      (RoundRobinLB (FixedSubscriber [''a'', ''b'', ''c'']) (4 :: 64 word)) \<lparr>now = 0\<rparr>) =
      mset (map Inr [''a'', ''b'', ''c''])"
  by (rule round_robin_fair) simp_all

end
