(* ===== verification/Go_Query.thy ===== *)
theory Go_Query
  imports Lura_Prelude
begin

text \<open>
  What the proxies and the routers use of Go's \<open>net/url\<close> on query strings: \<open>QueryEscape\<close> and
  \<open>QueryUnescape\<close>, \<open>Values.Encode\<close> and \<open>ParseQuery\<close>. A query is a map from a name to its
  values; what a reader of a query text sees are its pairs in order.
\<close>

section \<open>Escaping\<close>

definition unreserved :: "char \<Rightarrow> bool" where
  "unreserved c \<longleftrightarrow> is_lower c \<or> is_upper c \<or> is_digit c \<or> c \<in> set ''-_.~''"

definition hex_digit :: "nat \<Rightarrow> char" where
  "hex_digit n = ''0123456789ABCDEF'' ! n"

definition hex_val :: "char \<Rightarrow> nat option" where
  "hex_val c =
     (let n = of_char c in
      if 48 \<le> n \<and> n \<le> 57 then Some (n - 48)
      else if 65 \<le> n \<and> n \<le> 70 then Some (n - 55)
      else if 97 \<le> n \<and> n \<le> 102 then Some (n - 87)
      else None)"

definition escape_char :: "char \<Rightarrow> string" where
  "escape_char c =
     (if unreserved c then [c]
      else if c = CHR '' '' then ''+''
      else [CHR ''%'', hex_digit (of_char c div 16), hex_digit (of_char c mod 16)])"

definition QueryEscape :: "string \<Rightarrow> string" where
  "QueryEscape s = concat (map escape_char s)"

fun QueryUnescape :: "string \<Rightarrow> string option" where
  "QueryUnescape [] = Some []"
| "QueryUnescape (c # s) =
     (if c = CHR ''%'' then
        (case s of
           a # b # s' \<Rightarrow>
             (case (hex_val a, hex_val b) of
                (Some i, Some j) \<Rightarrow> map_option (Cons (char_of (16 * i + j))) (QueryUnescape s')
              | _ \<Rightarrow> None)
         | _ \<Rightarrow> None)
      else map_option (Cons (if c = CHR ''+'' then CHR '' '' else c)) (QueryUnescape s))"

lemma hex_val_digit: "n < 16 \<Longrightarrow> hex_val (hex_digit n) = Some n"
proof -
  have "list_all (\<lambda>n. hex_val (hex_digit n) = Some n) [0..<16]"
    by (simp add: upt_rec hex_digit_def hex_val_def)
  then show "n < 16 \<Longrightarrow> hex_val (hex_digit n) = Some n" by (simp add: list_all_iff)
qed

lemma of_char_div_16: "(of_char c :: nat) div 16 < 16"
proof -
  have "of_char c mod 256 < (256 :: nat)" by simp
  then have "of_char c < 16 * (16 :: nat)" by simp
  then show ?thesis by (rule less_mult_imp_div_less)
qed

lemma unreserved_plain: "unreserved c \<Longrightarrow> c \<noteq> CHR ''%'' \<and> c \<noteq> CHR ''+''"
  by (auto simp: unreserved_def is_lower_def is_upper_def is_digit_def)

lemma unescape_escape_char:
  "QueryUnescape (escape_char c @ s) = map_option (Cons c) (QueryUnescape s)"
proof (cases "unreserved c")
  case True
  then show ?thesis using unreserved_plain by (simp add: escape_char_def)
next
  case False
  note of_char_div_16 [of c]
  moreover have "(of_char c :: nat) mod 16 < 16" by simp
  moreover have "char_of (16 * (of_char c div 16) + of_char c mod 16 :: nat) = c" by simp
  ultimately show ?thesis using False by (simp add: escape_char_def hex_val_digit)
qed

lemma unescape_escape [simp]: "QueryUnescape (QueryEscape s) = Some s"
  by (induction s) (simp_all add: QueryEscape_def unescape_escape_char)

text \<open>The marks of a query text that no escaped text contains.\<close>

definition query_mark :: "char \<Rightarrow> bool" where
  "query_mark c \<longleftrightarrow> c \<in> set ''&=;?#''"

lemma hex_digit_plain: "n < 16 \<Longrightarrow> \<not> query_mark (hex_digit n)"
proof -
  have "list_all (\<lambda>n. \<not> query_mark (hex_digit n)) [0..<16]"
    by (simp add: upt_rec hex_digit_def query_mark_def)
  then show "n < 16 \<Longrightarrow> \<not> query_mark (hex_digit n)" by (simp add: list_all_iff)
qed

lemma escape_char_plain: "x \<in> set (escape_char c) \<Longrightarrow> \<not> query_mark x"
proof -
  assume x: "x \<in> set (escape_char c)"
  note of_char_div_16 [of c]
  moreover have "(of_char c :: nat) mod 16 < 16" by simp
  moreover have "\<not> query_mark c" if "unreserved c"
    using that by (auto simp: unreserved_def query_mark_def is_lower_def is_upper_def is_digit_def)
  moreover have "\<not> query_mark (CHR ''%'')" "\<not> query_mark (CHR ''+'')"
    by (simp_all add: query_mark_def)
  ultimately show ?thesis
    using x by (auto simp: escape_char_def hex_digit_plain split: if_splits)
qed

lemma QueryEscape_plain: "x \<in> set (QueryEscape s) \<Longrightarrow> \<not> query_mark x"
  by (auto simp: QueryEscape_def dest: escape_char_plain)

lemma QueryEscape_no_marks:
  "CHR ''&'' \<notin> set (QueryEscape s)" "CHR ''='' \<notin> set (QueryEscape s)"
  "CHR '';'' \<notin> set (QueryEscape s)" "CHR ''#'' \<notin> set (QueryEscape s)"
  using QueryEscape_plain by (fastforce simp: query_mark_def)+

section \<open>Query texts\<close>

text \<open>\<open>strings.Cut(s, sep)\<close> for a separator of one byte: the text before and after it.\<close>

definition before :: "char \<Rightarrow> string \<Rightarrow> string" where
  "before sep s = takeWhile (\<lambda>c. c \<noteq> sep) s"

definition after :: "char \<Rightarrow> string \<Rightarrow> string" where
  "after sep s = tl (dropWhile (\<lambda>c. c \<noteq> sep) s)"

lemma before_after [simp]:
  "sep \<notin> set a \<Longrightarrow> before sep (a @ sep # b) = a" "sep \<notin> set a \<Longrightarrow> after sep (a @ sep # b) = b"
  "sep \<notin> set a \<Longrightarrow> before sep a = a" "sep \<notin> set a \<Longrightarrow> after sep a = []"
proof -
  assume "sep \<notin> set a"
  then have all: "\<forall>c \<in> set a. c \<noteq> sep" by auto
  show "before sep (a @ sep # b) = a" using all by (simp add: before_def takeWhile_append2)
  show "after sep (a @ sep # b) = b" using all by (simp add: after_def dropWhile_append2)
  show "before sep a = a" using all by (simp add: before_def takeWhile_eq_all_conv)
  have "dropWhile (\<lambda>c. c \<noteq> sep) a = []" using all by (simp only: dropWhile_eq_Nil_conv)
  then show "after sep a = []" by (simp only: after_def list.sel)
qed

text \<open>A pair \<open>ParseQuery\<close> cannot read is left out, as by \<open>URL.Query\<close>.\<close>

definition parse_pair :: "string \<Rightarrow> (string \<times> string) list" where
  "parse_pair p =
     (if p = [] \<or> CHR '';'' \<in> set p then []
      else
        (case (QueryUnescape (before (CHR ''='') p), QueryUnescape (after (CHR ''='') p)) of
           (Some k, Some v) \<Rightarrow> [(k, v)]
         | _ \<Rightarrow> []))"

definition ParseQuery :: "string \<Rightarrow> (string \<times> string) list" where
  "ParseQuery s = concat (map parse_pair (split_on (CHR ''&'') s))"

definition values_of :: "string list gmap \<Rightarrow> string \<Rightarrow> string list" where
  "values_of q k = (case map_of q k of None \<Rightarrow> [] | Some vs \<Rightarrow> vs)"

definition encode_pair :: "string \<Rightarrow> string \<Rightarrow> string" where
  "encode_pair k v = QueryEscape k @ ''='' @ QueryEscape v"

definition Encode :: "string list gmap \<Rightarrow> string" where
  "Encode q = join ''&'' (concat (map (\<lambda>k. map (encode_pair k) (values_of q k)) (sort (keys q))))"

text \<open>The values a reader of a query text finds under a name.\<close>

definition read_values :: "string \<Rightarrow> string \<Rightarrow> string list" where
  "read_values text k = map snd (filter (\<lambda>kv. fst kv = k) (ParseQuery text))"

lemma parse_encode_pair [simp]: "parse_pair (encode_pair k v) = [(k, v)]"
  by (simp add: parse_pair_def encode_pair_def QueryEscape_no_marks)

lemma ParseQuery_empty [simp]: "ParseQuery [] = []"
  by (simp add: ParseQuery_def parse_pair_def)

lemma ParseQuery_append: "ParseQuery (a @ CHR ''&'' # b) = ParseQuery a @ ParseQuery b"
  by (simp add: ParseQuery_def split_on_append_sep)

lemma ParseQuery_join:
  "ParseQuery (join ''&'' (map (\<lambda>(k, v). encode_pair k v) kvs)) = kvs"
proof (cases "kvs = []")
  case True
  then show ?thesis by simp
next
  case False
  have "\<forall>w \<in> set (map (\<lambda>(k, v). encode_pair k v) kvs). CHR ''&'' \<notin> set w"
    by (auto simp: encode_pair_def QueryEscape_no_marks)
  with False have "split_on (CHR ''&'') (join ''&'' (map (\<lambda>(k, v). encode_pair k v) kvs)) =
      map (\<lambda>(k, v). encode_pair k v) kvs"
    by (intro split_on_join) simp_all
  then have "ParseQuery (join ''&'' (map (\<lambda>(k, v). encode_pair k v) kvs)) =
      concat (map (\<lambda>(k, v). parse_pair (encode_pair k v)) kvs)"
    by (simp add: ParseQuery_def comp_def case_prod_unfold)
  also have "\<dots> = kvs" by (induction kvs) auto
  finally show ?thesis .
qed

lemma ParseQuery_Encode:
  "ParseQuery (Encode q) = concat (map (\<lambda>k. map (Pair k) (values_of q k)) (sort (keys q)))"
proof -
  have "concat (map (\<lambda>k. map (encode_pair k) (values_of q k)) ks) =
      map (\<lambda>(k, v). encode_pair k v) (concat (map (\<lambda>k. map (Pair k) (values_of q k)) ks))" for ks
    by (induction ks) simp_all
  then show ?thesis by (simp only: Encode_def ParseQuery_join)
qed

lemma read_concat:
  "distinct ks \<Longrightarrow>
   map snd (filter (\<lambda>kv. fst kv = k) (concat (map (\<lambda>k. map (Pair k) (f k)) ks))) =
     (if k \<in> set ks then f k else [])"
  by (induction ks) (auto simp: filter_map comp_def filter_empty_conv)

lemma read_values_Encode:
  assumes "distinct (keys q)"
  shows "read_values (Encode q) k = values_of q k"
proof -
  have "distinct (sort (keys q))" using assms by simp
  note rc = read_concat [OF this, of k "values_of q"]
  have "k \<notin> set (keys q) \<Longrightarrow> values_of q k = []"
    by (auto simp: values_of_def map_of_None_keys [THEN iffD2] simp del: map_of_eq_None_iff
        split: option.split dest: map_of_in_keys)
  then show ?thesis using rc by (simp add: read_values_def ParseQuery_Encode)
qed

lemma read_values_append:
  "read_values (a @ CHR ''&'' # b) k = read_values a k @ read_values b k"
  by (simp add: read_values_def ParseQuery_append)

lemma read_values_empty [simp]: "read_values [] k = []"
  by (simp add: read_values_def)

end
