(* ===== verification/Proxy_Balancing.thy ===== *)
theory Proxy_Balancing
  imports SD Go_Query Proxy_Filters
begin

text \<open>
  The load balancing middleware (\<open>proxy/balancing.go\<close>): it picks a host, makes the URL of the
  request out of it and the path, adds the query and calls the next proxy.

  The counter of a round robin lives in the world: \<open>cell\<close> reads and writes how far it has advanced
  since the middleware was made. \<open>rand\<close> is
  \<open>fastrand.Uint32n\<close>, whose numbers depend on the moment it is called. Of \<open>url.Parse\<close>, the split at
  the fragment and at the query is written out; \<open>net_url\<close> is the rest: the errors it reports and the
  text of the URL without query and fragment.
\<close>

section \<open>URLs\<close>

definition url_Parse :: "(string \<Rightarrow> go_err + string) \<Rightarrow> string \<Rightarrow> go_err + url" where
  "url_Parse net_url s =
     (case net_url s of
        Inl e \<Rightarrow> Inl e
      | Inr b \<Rightarrow> Inr \<lparr>u_base = b, u_RawQuery = after (CHR ''?'') (before (CHR ''#'') s)\<rparr>)"

text \<open>\<open>len(r.Query) > 0\<close>, and the two ways the query is appended.\<close>

definition add_query :: "string list gmap \<Rightarrow> url \<Rightarrow> url" where
  "add_query q u =
     (if q = [] then u
      else if u_RawQuery u \<noteq> [] then u\<lparr>u_RawQuery := u_RawQuery u @ ''&'' @ Encode q\<rparr>
      else u\<lparr>u_RawQuery := u_RawQuery u @ Encode q\<rparr>)"

lemma u_base_add_query [simp]: "u_base (add_query q u) = u_base u"
  by (simp add: add_query_def)

lemma read_add_query:
  assumes "distinct (keys q)"
  shows "read_values (u_RawQuery (add_query q u)) k = read_values (u_RawQuery u) k @ values_of q k"
proof (cases "q = []")
  case True
  then show ?thesis by (simp add: add_query_def values_of_def)
next
  case False
  then show ?thesis
    using read_values_Encode [OF assms, of k] by (simp add: add_query_def read_values_append)
qed

section \<open>The balancer in the world\<close>

record 'w cell =
  cl_get :: "'w \<Rightarrow> 64 word"
  cl_put :: "64 word \<Rightarrow> 'w \<Rightarrow> 'w"

text \<open>The balancer a middleware was made with, after \<open>n\<close> of the calls that advance it.\<close>

fun lb_at :: "'a balancer \<Rightarrow> 64 word \<Rightarrow> 'a balancer" where
  "lb_at (RoundRobinLB s c0) n = RoundRobinLB s (c0 + n)"
| "lb_at b n = b"

fun lb_calls :: "'a balancer \<Rightarrow> 'a balancer \<Rightarrow> 64 word \<Rightarrow> 64 word" where
  "lb_calls (RoundRobinLB _ c0) (RoundRobinLB _ c) n = c - c0"
| "lb_calls _ _ n = n"

text \<open>\<open>lb.Host()\<close> of the balancer a middleware holds.\<close>

definition call_Host ::
  "('a world_scheme \<Rightarrow> nat \<Rightarrow> nat) \<Rightarrow> 'a world_scheme cell \<Rightarrow> 'a balancer \<Rightarrow> 'a world_scheme \<Rightarrow>
     (go_err + string) \<times> 'a world_scheme" where
  "call_Host rand cell lb w =
     (case Host (rand w) (lb_at lb (cl_get cell w)) w of
        (h, lb') \<Rightarrow> (h, cl_put cell (lb_calls lb lb' (cl_get cell w)) w))"

section \<open>The middleware\<close>

record 'a balancing_env =
  bl_rand :: "'a world_scheme \<Rightarrow> nat \<Rightarrow> nat"
  bl_net_url :: "string \<Rightarrow> go_err + string"
  bl_procs :: nat

definition balanced_proxy ::
  "'a balancing_env \<Rightarrow> 'a world_scheme cell \<Rightarrow> 'a balancer \<Rightarrow> 'a proxy \<Rightarrow> 'a proxy" where
  "balanced_proxy env cell lb next_p ctx r w =
     (case call_Host (bl_rand env) cell lb w of
        (Inl err, w) \<Rightarrow> (Ret None (Some err), r, w)
      | (Inr host, w) \<Rightarrow>
          (case url_Parse (bl_net_url env) (host @ rq_Path r) of
             Inl err \<Rightarrow> (Ret None (Some err), r\<lparr>rq_URL := None\<rparr>, w)
           | Inr u \<Rightarrow>
               next_p ctx
                 (r\<lparr>rq_URL := Some (add_query (query_of r) u)\<rparr>) w))"

definition newLoadBalancedMiddleware ::
  "'a balancing_env \<Rightarrow> 'a world_scheme cell \<Rightarrow> 'a balancer \<Rightarrow> 'a proxy list \<Rightarrow> 'a proxy built" where
  "newLoadBalancedMiddleware env cell lb next_ps =
     (if length next_ps > 1 then BFatal
      else Built (balanced_proxy env cell lb (first_proxy next_ps)))"

text \<open>
  The constructors: by subscriber with the best balancer, a round robin or a random one, and the
  same with the subscriber of the backend. \<open>w\<close> is the world when the middleware is made. The
  variants with a logger differ in where a message goes.
\<close>

definition NewLoadBalancedMiddlewareWithSubscriber ::
  "'a balancing_env \<Rightarrow> 'a world_scheme cell \<Rightarrow> 'a world_scheme \<Rightarrow> 'a subscriber \<Rightarrow> 'a proxy list \<Rightarrow>
     'a proxy built" where
  "NewLoadBalancedMiddlewareWithSubscriber env cell w s =
     newLoadBalancedMiddleware env cell (NewBalancer (bl_procs env) (bl_rand env w) s)"

definition NewRoundRobinLoadBalancedMiddlewareWithSubscriber ::
  "'a balancing_env \<Rightarrow> 'a world_scheme cell \<Rightarrow> 'a world_scheme \<Rightarrow> 'a subscriber \<Rightarrow> 'a proxy list \<Rightarrow>
     'a proxy built" where
  "NewRoundRobinLoadBalancedMiddlewareWithSubscriber env cell w s =
     newLoadBalancedMiddleware env cell (NewRoundRobinLB (bl_rand env w) s)"

definition NewRandomLoadBalancedMiddlewareWithSubscriber ::
  "'a balancing_env \<Rightarrow> 'a world_scheme cell \<Rightarrow> 'a subscriber \<Rightarrow> 'a proxy list \<Rightarrow> 'a proxy built" where
  "NewRandomLoadBalancedMiddlewareWithSubscriber env cell s =
     newLoadBalancedMiddleware env cell (NewRandomLB s)"

definition NewLoadBalancedMiddleware ::
  "(backend \<Rightarrow> 'a subscriber) untyped \<Rightarrow> 'a balancing_env \<Rightarrow> 'a world_scheme cell \<Rightarrow>
     'a world_scheme \<Rightarrow> backend \<Rightarrow> 'a proxy list \<Rightarrow> 'a proxy built" where
  "NewLoadBalancedMiddleware reg env cell w remote =
     NewLoadBalancedMiddlewareWithSubscriber env cell w (sd_Get reg (be_SD remote) remote)"

definition NewRoundRobinLoadBalancedMiddleware ::
  "(backend \<Rightarrow> 'a subscriber) untyped \<Rightarrow> 'a balancing_env \<Rightarrow> 'a world_scheme cell \<Rightarrow>
     'a world_scheme \<Rightarrow> backend \<Rightarrow> 'a proxy list \<Rightarrow> 'a proxy built" where
  "NewRoundRobinLoadBalancedMiddleware reg env cell w remote =
     NewRoundRobinLoadBalancedMiddlewareWithSubscriber env cell w (sd_Get reg (be_SD remote) remote)"

definition NewRandomLoadBalancedMiddleware ::
  "(backend \<Rightarrow> 'a subscriber) untyped \<Rightarrow> 'a balancing_env \<Rightarrow> 'a world_scheme cell \<Rightarrow>
     backend \<Rightarrow> 'a proxy list \<Rightarrow> 'a proxy built" where
  "NewRandomLoadBalancedMiddleware reg env cell remote =
     NewRandomLoadBalancedMiddlewareWithSubscriber env cell (sd_Get reg (be_SD remote) remote)"

section \<open>What the next proxy gets\<close>

lemma lb_at_valid: "valid_lb s lb \<Longrightarrow> valid_lb s (lb_at lb c)"
  by (cases lb) (simp_all add: valid_lb_def)

lemma lb_at_calls: "lb_at lb (lb_calls lb (snd (Host rand (lb_at lb n) w)) n) = snd (Host rand (lb_at lb n) w)"
  by (cases lb) (auto simp: Let_def split: sum.split)

text \<open>
  The middleware's balancer is the one of \<^theory_text>\<open>SD\<close>: a call in the world is one step of it, from
  the state the cell stands for to the state the cell then stands for.
\<close>

lemma call_Host_simulates:
  assumes "\<And>c w. cl_get cell (cl_put cell c w) = c"
    and "call_Host rand cell lb w = (h, w')"
  shows "Host (rand w) (lb_at lb (cl_get cell w)) w = (h, lb_at lb (cl_get cell w'))"
  using assms lb_at_calls [of lb "rand w" "cl_get cell w" w]
  by (auto simp: call_Host_def split: prod.splits)

lemma call_Host_picks:
  assumes "rand_ok (rand w)" and "valid_lb s lb" and "hosts_ok s w"
  shows "case lb_hosts s w of
      Inl e \<Rightarrow> \<exists>w'. call_Host rand cell lb w = (Inl e, w')
    | Inr hs \<Rightarrow> \<exists>h \<in> set hs. \<exists>w'. call_Host rand cell lb w = (Inr h, w')"
  using Host_picks [OF assms(1) lb_at_valid [OF assms(2)] assms(3), of "cl_get cell w"]
  by (auto simp: call_Host_def split: sum.splits prod.splits)

definition sample_balanced :: request where
  "sample_balanced =
     \<lparr>rq_Method = ''GET'', rq_URL = None, rq_Query = Some [(''b'', [''x y'']), (''a'', [''1''])],
      rq_Path = ''/p?a=0'', rq_Body = None, rq_Params = [], rq_Headers = []\<rparr>"

lemma balanced_call:
  assumes "NewLoadBalancedMiddlewareWithSubscriber env cell w0 s [p] = Built mw"
    and "rand_ok (bl_rand env w)" and "hosts_ok s w" and "distinct (keys (query_of r))"
  shows "case lb_hosts s w of
      Inl e \<Rightarrow> \<exists>w'. mw ctx r w = (Ret None (Some e), r, w')
    | Inr hs \<Rightarrow> \<exists>h \<in> set hs. \<exists>w'.
        (case bl_net_url env (h @ rq_Path r) of
           Inl e \<Rightarrow> mw ctx r w = (Ret None (Some e), r\<lparr>rq_URL := None\<rparr>, w')
         | Inr b \<Rightarrow> \<exists>u. u_base u = b \<and>
             (\<forall>k. read_values (u_RawQuery u) k =
                read_values (after (CHR ''?'') (before (CHR ''#'') (h @ rq_Path r))) k @
                values_of (query_of r) k) \<and>
             mw ctx r w = p ctx (r\<lparr>rq_URL := Some u\<rparr>) w')"
proof -
  let ?lb = "NewBalancer (bl_procs env) (bl_rand env w0) s"
  have mw: "mw = balanced_proxy env cell ?lb p"
    using assms(1)
    by (simp add: NewLoadBalancedMiddlewareWithSubscriber_def newLoadBalancedMiddleware_def)
  have valid: "valid_lb s ?lb" by (rule NewBalancer_valid)
  note picks = call_Host_picks [of "bl_rand env", OF assms(2) valid assms(3), of cell]
  show ?thesis
  proof (cases "lb_hosts s w")
    case (Inl e)
    with picks show ?thesis by (auto simp: mw balanced_proxy_def)
  next
    case (Inr hs)
    with picks obtain h w' where h: "h \<in> set hs" and
      call: "call_Host (bl_rand env) cell ?lb w = (Inr h, w')" by auto
    let ?q = "query_of r"
    let ?u = "\<lambda>b. add_query ?q
      \<lparr>u_base = b, u_RawQuery = after (CHR ''?'') (before (CHR ''#'') (h @ rq_Path r))\<rparr>"
    have run: "mw ctx r w =
        (case bl_net_url env (h @ rq_Path r) of
           Inl e \<Rightarrow> (Ret None (Some e), r\<lparr>rq_URL := None\<rparr>, w')
         | Inr b \<Rightarrow> p ctx (r\<lparr>rq_URL := Some (?u b)\<rparr>) w')"
      using call by (simp add: mw balanced_proxy_def url_Parse_def split: sum.split)
    have "\<forall>k. read_values (u_RawQuery (?u b)) k =
        read_values (after (CHR ''?'') (before (CHR ''#'') (h @ rq_Path r))) k @ values_of ?q k" for b
      using read_add_query [OF assms(4)] by simp
    then show ?thesis
      using h run unfolding Inr sum.case
      by (intro bexI [of _ h] exI [of _ w']) (auto split: sum.split intro!: exI [of _ "?u _"])
  qed
qed

text \<open>
  C19. What a balanced call sends: the request goes to a host the subscriber has at that moment, with
  the URL of that host and the path, and only the URL changed; under every name, a reader of the
  query of the URL finds first the values the path brings, then exactly the values of the request's
  query. No host, a failing subscriber or a URL that cannot be parsed is the error returned, and the
  next proxy is not called.
\<close>

theorem balanced_request:
  assumes "NewLoadBalancedMiddlewareWithSubscriber env cell w0 s [p] = Built mw"
    and "rand_ok (bl_rand env w)" and "hosts_ok s w" and "distinct (keys (query_of r))"
  shows "case lb_hosts s w of
      Inl e \<Rightarrow> \<exists>w'. mw ctx r w = (Ret None (Some e), r, w')
    | Inr hs \<Rightarrow> \<exists>h \<in> set hs. \<exists>w'.
        (case bl_net_url env (h @ rq_Path r) of
           Inl e \<Rightarrow> mw ctx r w = (Ret None (Some e), r\<lparr>rq_URL := None\<rparr>, w')
         | Inr b \<Rightarrow> \<exists>u. u_base u = b \<and>
             (\<forall>k. read_values (u_RawQuery u) k =
                read_values (after (CHR ''?'') (before (CHR ''#'') (h @ rq_Path r))) k @
                values_of (query_of r) k) \<and>
             mw ctx r w = p ctx (r\<lparr>rq_URL := Some u\<rparr>) w')"
  using assms by (rule balanced_call)

theorem balanced_request_witness:
  "\<exists>u :: url. u_base u = ''http://h/p'' \<and>
     read_values (u_RawQuery u) ''a'' = [''0'', ''1''] \<and> read_values (u_RawQuery u) ''b'' = [''x y'']"
proof -
  let ?env = "\<lparr>bl_rand = \<lambda>_ _. 0, bl_net_url = \<lambda>s. Inr (before (CHR ''?'') s), bl_procs = 1\<rparr>
      :: unit balancing_env"
  let ?cell = "\<lparr>cl_get = \<lambda>_. 0, cl_put = \<lambda>_ w. w\<rparr> :: world cell"
  let ?s = "FixedSubscriber [''http://h''] :: unit subscriber"
  let ?w = "\<lparr>now = 0\<rparr> :: world"
  let ?r = sample_balanced
  obtain mw where mw: "NewLoadBalancedMiddlewareWithSubscriber ?env ?cell ?w ?s [NoopProxy] = Built mw"
    by (simp add: NewLoadBalancedMiddlewareWithSubscriber_def newLoadBalancedMiddleware_def)
  have hosts: "lb_hosts ?s ?w = Inr [''http://h'']" by (simp add: lb_hosts_def)
  have pre: "rand_ok (bl_rand ?env ?w)" "hosts_ok ?s ?w" "distinct (keys (query_of ?r))"
    by (simp_all add: rand_ok_def hosts_ok_def query_of_def sample_balanced_def)
  note br = balanced_request [OF mw pre, of None, unfolded hosts sum.case balancing_env.simps]
  then have "\<exists>u :: url. u_base u = before (CHR ''?'') (''http://h'' @ rq_Path ?r) \<and>
      (\<forall>k. read_values (u_RawQuery u) k =
        read_values (after (CHR ''?'') (before (CHR ''#'') (''http://h'' @ rq_Path ?r))) k @
        values_of (query_of ?r) k)"
    by auto
  then obtain u :: url where "u_base u = before (CHR ''?'') (''http://h'' @ rq_Path ?r)"
    and vals: "\<forall>k. read_values (u_RawQuery u) k =
      read_values (after (CHR ''?'') (before (CHR ''#'') (''http://h'' @ rq_Path ?r))) k @
      values_of (query_of ?r) k"
    by blast
  moreover have "before (CHR ''?'') (''http://h'' @ rq_Path ?r) = ''http://h/p''"
    "read_values (after (CHR ''?'') (before (CHR ''#'') (''http://h'' @ rq_Path ?r))) ''a'' @
       values_of (query_of ?r) ''a'' = [''0'', ''1'']"
    "read_values (after (CHR ''?'') (before (CHR ''#'') (''http://h'' @ rq_Path ?r))) ''b'' @
       values_of (query_of ?r) ''b'' = [''x y'']"
    by code_simp+
  ultimately show ?thesis by (intro exI [of _ u]) simp
qed

text \<open>
  The path is made of the parameters as the router decoded them, so a parameter that holds a
  question mark puts query strings in the URL: here \<open>admin=1\<close>, whatever the lists of query strings to
  pass allow.
\<close>

lemma param_becomes_query:
  "rq_Path (GeneratePath ''/u/{{.Id}}'' (sample_balanced\<lparr>rq_Params := [(''Id'', ''7?admin=1'')]\<rparr>)) =
     ''/u/7?admin=1''"
  "url_Parse Inr ''http://h/u/7?admin=1'' =
     Inr \<lparr>u_base = ''http://h/u/7?admin=1'', u_RawQuery = ''admin=1''\<rparr>"
  by code_simp+

end
