(* ===== verification/Proxy_Shadow.thy ===== *)
theory Proxy_Shadow
  imports Config_Types
begin

text \<open>
  Shadow traffic (\<open>proxy/shadow.go\<close>): the backends marked as shadow get the requests of an endpoint
  too, in a goroutine of their own, and their answers are dropped.

  A context here is its end only, so that the wrapper, which takes the values of the caller's context
  and the end of a new one, is that new end. \<open>parse_duration\<close> is \<open>time.ParseDuration\<close>.
\<close>

section \<open>Which backends are shadows\<close>

abbreviation shadowKey :: string where "shadowKey \<equiv> ''shadow''"
abbreviation shadowTimeoutKey :: string where "shadowTimeoutKey \<equiv> ''shadow_timeout''"

definition isShadowBackend :: "(string \<Rightarrow> int option) \<Rightarrow> backend \<Rightarrow> int \<times> bool" where
  "isShadowBackend parse_duration c =
     (let duration = be_Timeout c in
      case section_of (be_ExtraConfig c) proxy_Namespace of
        None \<Rightarrow> (duration, False)
      | Some e \<Rightarrow>
          (case map_of e shadowKey of
             None \<Rightarrow> (duration, False)
           | Some k \<Rightarrow>
               if as_bool k \<noteq> Some True then (duration, False)
               else
                 (case obind (map_of e shadowTimeoutKey) as_str of
                    None \<Rightarrow> (duration, True)
                  | Some t \<Rightarrow>
                      (case parse_duration t of
                         Some d \<Rightarrow> (d, True)
                       | None \<Rightarrow> (duration, True)))))"

section \<open>The middleware\<close>

text \<open>A proxy of the endpoint is plain, or a pair of proxies with the timeout of the second.\<close>

datatype 'p shadowed = Plain 'p | Shadowed int 'p 'p

definition NewShadowProxyWithTimeout :: "int \<Rightarrow> 'p \<Rightarrow> 'p \<Rightarrow> 'p shadowed" where
  "NewShadowProxyWithTimeout timeout p1 p2 = Shadowed timeout p1 p2"

definition NewShadowProxy :: "'p \<Rightarrow> 'p \<Rightarrow> 'p shadowed" where
  "NewShadowProxy p1 p2 = NewShadowProxyWithTimeout DefaultTimeout p1 p2"

fun ShadowMiddlewareWithTimeoutAndLogger :: "int \<Rightarrow> 'p list \<Rightarrow> 'p shadowed built" where
  "ShadowMiddlewareWithTimeoutAndLogger timeout [p] = Built (Plain p)"
| "ShadowMiddlewareWithTimeoutAndLogger timeout [p1, p2] = Built (NewShadowProxyWithTimeout timeout p1 p2)"
| "ShadowMiddlewareWithTimeoutAndLogger timeout _ = BFatal"

fun ShadowMiddlewareWithLogger :: "'p list \<Rightarrow> 'p shadowed built" where
  "ShadowMiddlewareWithLogger [p] = Built (Plain p)"
| "ShadowMiddlewareWithLogger [p1, p2] = Built (NewShadowProxy p1 p2)"
| "ShadowMiddlewareWithLogger _ = BFatal"

text \<open>
  The calls of a request, each atomic in the world; \<open>early\<close> says which of the two the scheduler
  runs first. A panic of the goroutine ends the process, as nothing there recovers from it. A nil
  proxy panics when it is called. The request of the goroutine is a copy, equal to the request.
\<close>

datatype 'a shadow_run = Answer "pres \<times> request \<times> 'a world_scheme" | Crash string

definition newContextWrapperWithTimeout :: "ctx \<Rightarrow> int \<Rightarrow> 'a world_scheme \<Rightarrow> ctx" where
  "newContextWrapperWithTimeout data timeout w = with_timeout None timeout w"

definition call_proxy :: "'a proxy option \<Rightarrow> 'a proxy" where
  "call_proxy p ctx r w = (case p of None \<Rightarrow> (Panic ''nil proxy'', r, w) | Some f \<Rightarrow> f ctx r w)"

definition shadow_call ::
  "bool \<Rightarrow> int \<Rightarrow> 'a proxy option \<Rightarrow> 'a proxy option \<Rightarrow> ctx \<Rightarrow> request \<Rightarrow> 'a world_scheme \<Rightarrow> 'a shadow_run"
  where
  "shadow_call early timeout p1 p2 ctx r w =
     (let c = newContextWrapperWithTimeout ctx timeout w in
      if early then
        (case call_proxy p2 c r w of
           (Panic s, _) \<Rightarrow> Crash s
         | (Ret _ _, _, w') \<Rightarrow> Answer (call_proxy p1 ctx r w'))
      else
        (case call_proxy p1 ctx r w of
           (res, r', w') \<Rightarrow>
             (case call_proxy p2 c r w' of
                (Panic s, _) \<Rightarrow> Crash s
              | (Ret _ _, _, w'') \<Rightarrow> Answer (res, r', w''))))"

fun run_shadowed ::
  "bool \<Rightarrow> 'a proxy option shadowed \<Rightarrow> ctx \<Rightarrow> request \<Rightarrow> 'a world_scheme \<Rightarrow> 'a shadow_run" where
  "run_shadowed early (Plain p) ctx r w = Answer (call_proxy p ctx r w)"
| "run_shadowed early (Shadowed timeout p1 p2) ctx r w = shadow_call early timeout p1 p2 ctx r w"

section \<open>The factory\<close>

fun split_shadows ::
  "(string \<Rightarrow> int option) \<Rightarrow> backend list \<Rightarrow> int \<Rightarrow> backend list \<Rightarrow> backend list \<Rightarrow>
     backend list \<times> backend list \<times> int" where
  "split_shadows pd [] maxTimeout shadow regular = (shadow, regular, maxTimeout)"
| "split_shadows pd (b # bs) maxTimeout shadow regular =
     (case isShadowBackend pd b of
        (d, ok) \<Rightarrow>
          if ok then split_shadows pd bs (if maxTimeout < d then d else maxTimeout) (shadow @ [b]) regular
          else split_shadows pd bs maxTimeout shadow (regular @ [b]))"

definition shadowFactory_New ::
  "(string \<Rightarrow> int option) \<Rightarrow> (endpoint_config \<Rightarrow> 'p option \<times> go_err option) \<Rightarrow> endpoint_config \<Rightarrow>
     'p option shadowed option \<times> go_err option" where
  "shadowFactory_New pd f cfg =
     (if ep_Backend cfg = [] then (None, Some ENoBackends)
      else
        (case split_shadows pd (ep_Backend cfg) 0 [] [] of
           (shadow, regular, maxTimeout) \<Rightarrow>
             (case f (cfg\<lparr>ep_Backend := regular\<rparr>) of
                (p, err) \<Rightarrow>
                  if shadow \<noteq> [] then
                    (case f (cfg\<lparr>ep_Backend := shadow\<rparr>) of
                       (pShadow, _) \<Rightarrow>
                         (case ShadowMiddlewareWithTimeoutAndLogger maxTimeout [p, pShadow] of
                            Built q \<Rightarrow> (Some q, err) | _ \<Rightarrow> (None, err)))
                  else (map_option (\<lambda>q. Plain (Some q)) p, err))))"

section \<open>What the factory promises\<close>

definition is_shadow :: "(string \<Rightarrow> int option) \<Rightarrow> backend \<Rightarrow> bool" where
  "is_shadow pd b = snd (isShadowBackend pd b)"

definition shadow_timeout :: "(string \<Rightarrow> int option) \<Rightarrow> backend list \<Rightarrow> int" where
  "shadow_timeout pd bs = fold max (map (\<lambda>b. fst (isShadowBackend pd b)) (filter (is_shadow pd) bs)) 0"

lemma split_shadows_eq:
  "split_shadows pd bs t sh rg =
     (sh @ filter (is_shadow pd) bs, rg @ filter (\<lambda>b. \<not> is_shadow pd b) bs,
      fold max (map (\<lambda>b. fst (isShadowBackend pd b)) (filter (is_shadow pd) bs)) t)"
  by (induction pd bs t sh rg rule: split_shadows.induct)
    (auto simp: is_shadow_def max_def split: prod.splits)

lemma shadow_timeout_bounds:
  "b \<in> set bs \<Longrightarrow> is_shadow pd b \<Longrightarrow> fst (isShadowBackend pd b) \<le> shadow_timeout pd bs"
  "0 \<le> shadow_timeout pd bs"
proof -
  have max_le: "(x :: int) \<le> y \<Longrightarrow> x \<le> fold max xs y" for x y xs
    by (induction xs arbitrary: y) simp_all
  show "0 \<le> shadow_timeout pd bs" by (simp add: shadow_timeout_def max_le)
  have "(x :: int) \<in> set xs \<Longrightarrow> x \<le> fold max xs y" for x y xs
    by (induction xs arbitrary: y) (auto intro: max_le)
  then show "b \<in> set bs \<Longrightarrow> is_shadow pd b \<Longrightarrow> fst (isShadowBackend pd b) \<le> shadow_timeout pd bs"
    by (simp add: shadow_timeout_def)
qed


text \<open>
  An endpoint that has shadow backends only gets a proxy and the error of an endpoint without
  backends. When the proxy of the shadows cannot be made its error is dropped, and the first request
  ends the process.
\<close>

lemma only_shadows_fail:
  assumes "f (cfg\<lparr>ep_Backend := []\<rparr>) = (None, Some ENoBackends)"
    and "ep_Backend cfg \<noteq> []" and "\<forall>b \<in> set (ep_Backend cfg). is_shadow pd b"
  shows "snd (shadowFactory_New pd f cfg) = Some ENoBackends"
  using assms by (auto simp: shadowFactory_New_def split_shadows_eq filter_empty_conv
      split: prod.splits)

lemma nil_shadow_crashes:
  "shadow_call True t p1 None ctx r w = Crash ''nil proxy''"
  by (simp add: shadow_call_def call_proxy_def)

definition shadow_backend :: backend where
  "shadow_backend =
     zero_backend\<lparr>be_ExtraConfig := [(proxy_Namespace,
       VObj [(''shadow'', VBool True), (''shadow_timeout'', VStr ''1s'')])]\<rparr>"

definition sample_shadow_request :: request where
  "sample_shadow_request =
     \<lparr>rq_Method = ''GET'', rq_URL = None, rq_Query = None, rq_Path = ''/'', rq_Body = None,
      rq_Params = [], rq_Headers = []\<rparr>"

definition reports_time :: "unit proxy" where
  "reports_time ctx r w = (Ret None None, r\<lparr>rq_Path := itoa (now w)\<rparr>, w)"

definition moves_time :: "unit proxy" where
  "moves_time ctx r w = (Ret None None, r, w\<lparr>now := 6\<rparr>)"

definition sample_factory :: "endpoint_config \<Rightarrow> unit proxy option \<times> go_err option" where
  "sample_factory c =
     (Some (if be_ExtraConfig (hd (ep_Backend c)) = [] then reports_time else moves_time), None)"


end
