(* ===== verification/Proxy_Factory.thy ===== *)
theory Proxy_Factory
  imports Proxy_Balancing Proxy_Concurrent Proxy_Sequential Proxy_Static Proxy_Plugin Proxy_Graphql
begin

text \<open>
  The default factory (\<open>proxy/factory.go\<close>): the stack of middlewares of a backend, the merge of
  several of them, and what wraps the whole endpoint.

  What the factory holds is \<open>factory_env\<close>: the factory of backends, the subscribers, the registers
  the middlewares read, and the world at start. A concurrent call and a parallel or custom merge are
  runs of the goroutines of \<^theory_text>\<open>Proxy_Concurrent\<close> and \<^theory_text>\<open>Proxy_Parallel\<close>;
  \<open>fe_concurrent\<close> and \<open>fe_merge\<close> are what the scheduler makes of the plan of such a run.
  \<open>fe_seq\<close> is the environment of a sequential merge.
\<close>

record ('a, 't) factory_env =
  fe_backend :: "backend \<Rightarrow> 'a proxy"
  fe_subscriber :: "backend \<Rightarrow> 'a subscriber"
  fe_balancing :: "'a balancing_env"
  fe_cell :: "backend \<Rightarrow> 'a world_scheme cell"
  fe_start :: "'a world_scheme"
  fe_plugins :: "(value gmap \<Rightarrow> 'a modifier option) namespaced"
  fe_gql :: gql_lib
  fe_flat :: "'t flat_lib"
  fe_combiners :: combinerRegister
  fe_mergers :: "merger gmap"
  fe_filterers :: "endpoint_config \<Rightarrow> go_err + filterer list"
  fe_concurrent :: "int \<Rightarrow> int \<Rightarrow> 'a proxy \<Rightarrow> 'a proxy"
  fe_merge :: "merge_run \<Rightarrow> 'a proxy list \<Rightarrow> 'a proxy"
  fe_seq :: "merge_run \<Rightarrow> sequentialBackendReplacement list list \<Rightarrow> seq_env"

text \<open>The three ways to make the factory, out of an environment that has the rest.\<close>

definition NewDefaultFactoryWithSubscriber ::
  "(backend \<Rightarrow> 'a proxy) \<Rightarrow> (backend \<Rightarrow> 'a subscriber) \<Rightarrow> ('a, 't) factory_env \<Rightarrow> ('a, 't) factory_env"
  where
  "NewDefaultFactoryWithSubscriber backendFactory sF env =
     env\<lparr>fe_backend := backendFactory, fe_subscriber := sF\<rparr>"

definition NewDefaultFactory ::
  "(backend \<Rightarrow> 'a proxy) \<Rightarrow> (backend \<Rightarrow> 'a subscriber) untyped \<Rightarrow> ('a, 't) factory_env \<Rightarrow>
     ('a, 't) factory_env" where
  "NewDefaultFactory backendFactory reg env =
     NewDefaultFactoryWithSubscriber backendFactory (\<lambda>remote. sd_Get reg (be_SD remote) remote) env"

definition DefaultFactory ::
  "('a world_scheme, 't) http_lib \<Rightarrow> (backend \<Rightarrow> 'a subscriber) untyped \<Rightarrow> ('a, 't) factory_env \<Rightarrow>
     ('a, 't) factory_env" where
  "DefaultFactory lib reg env = NewDefaultFactory (CustomHTTPProxyFactory lib) reg env"

definition DefaultFactoryWithSubscriber ::
  "('a world_scheme, 't) http_lib \<Rightarrow> (backend \<Rightarrow> 'a subscriber) \<Rightarrow> ('a, 't) factory_env \<Rightarrow>
     ('a, 't) factory_env" where
  "DefaultFactoryWithSubscriber lib sF env =
     NewDefaultFactoryWithSubscriber (CustomHTTPProxyFactory lib) sF env"

section \<open>Building\<close>

text \<open>Putting a middleware on top of what was built before.\<close>

fun on_top :: "'p built \<Rightarrow> ('p \<Rightarrow> 'q built) \<Rightarrow> 'q built" where
  "on_top (Built p) m = m p"
| "on_top BFatal m = BFatal"
| "on_top BPanic m = BPanic"

lemma on_top_Built: "on_top b m = Built q \<longleftrightarrow> (\<exists>p. b = Built p \<and> m p = Built q)"
  by (cases b) auto

lemma on_top_BFatal: "on_top b m = BFatal \<longleftrightarrow> b = BFatal \<or> (\<exists>p. b = Built p \<and> m p = BFatal)"
  by (cases b) auto

fun run_calls :: "('a, 't) factory_env \<Rightarrow> 'a proxy concurrent_plan \<Rightarrow> 'a proxy" where
  "run_calls env (CallMany n timeout p) ctx r w = fe_concurrent env n timeout p ctx r w"
| "run_calls env CallNone ctx r w = (Ret None None, r, w)"
| "run_calls env CallPanics ctx r w = (Panic ''concurrent calls'', r, w)"

definition newStack :: "('a, 't) factory_env \<Rightarrow> backend \<Rightarrow> 'a proxy built" where
  "newStack env backend =
     on_top (NewBackendPluginMiddleware (fe_plugins env) backend [fe_backend env backend]) (\<lambda>p.
     on_top (NewGraphQLMiddleware (fe_gql env) backend [p]) (\<lambda>p.
     on_top (NewFilterHeadersMiddleware backend [p]) (\<lambda>p.
     on_top (NewLoadBalancedMiddlewareWithSubscriber (fe_balancing env) (fe_cell env backend)
       (fe_start env) (fe_subscriber env backend) [p]) (\<lambda>p.
     on_top
       (if be_ConcurrentCalls backend > 1
        then on_top (NewConcurrentMiddlewareWithLogger backend [p]) (\<lambda>plan. Built (run_calls env plan))
        else Built p) (\<lambda>p.
     on_top (newRequestBuilderMiddleware backend [p]) (\<lambda>p.
     NewFilterQueryStringsMiddleware backend [p]))))))"

fun run_merge :: "('a, 't) factory_env \<Rightarrow> 'a proxy list \<Rightarrow> 'a proxy merge_plan \<Rightarrow> 'a proxy" where
  "run_merge env ps (SinglePlan p) ctx r w = p ctx r w"
| "run_merge env ps (FailPlan err) ctx r w = (Ret None (Some err), r, w)"
| "run_merge env ps (MergePlan run) ctx r w =
     (case mp_kind run of
        RunSequential repls \<Rightarrow> sequentialMerge (fe_seq env run repls) (mp_timeout run) ps ctx r w
      | _ \<Rightarrow> fe_merge env run ps ctx r w)"

fun newStacks :: "('a, 't) factory_env \<Rightarrow> backend list \<Rightarrow> 'a proxy list built" where
  "newStacks env [] = Built []"
| "newStacks env (b # bs) =
     on_top (newStack env b) (\<lambda>p. on_top (newStacks env bs) (\<lambda>ps. Built (p # ps)))"

definition newMulti :: "('a, 't) factory_env \<Rightarrow> endpoint_config \<Rightarrow> 'a proxy built" where
  "newMulti env cfg =
     on_top (newStacks env (ep_Backend cfg)) (\<lambda>backendProxy.
     on_top (NewMergeDataMiddleware (fe_combiners env) (fe_mergers env) (fe_filterers env) cfg
       backendProxy) (\<lambda>plan.
     NewFlatmapMiddleware (fe_flat env) cfg [run_merge env backendProxy plan]))"

definition newSingle :: "('a, 't) factory_env \<Rightarrow> endpoint_config \<Rightarrow> 'a proxy built" where
  "newSingle env cfg = newStack env (ep_Backend cfg ! 0)"

definition defaultFactory_New ::
  "('a, 't) factory_env \<Rightarrow> endpoint_config \<Rightarrow> go_err + 'a proxy built" where
  "defaultFactory_New env cfg =
     (if length (ep_Backend cfg) = 0 then Inl ENoBackends
      else
        (let p = (if length (ep_Backend cfg) = 1 then newSingle env cfg else newMulti env cfg) in
         Inr (on_top (on_top p (\<lambda>p. NewPluginMiddleware (fe_plugins env) cfg [p]))
           (\<lambda>p. NewStaticMiddleware cfg [p]))))"

section \<open>The factory never ends the process\<close>

lemma single_not_fatal:
  "newPluginMiddleware reg ex [p] \<noteq> BFatal"
  "NewPluginMiddleware reg cfg [p] \<noteq> BFatal"
  "NewBackendPluginMiddleware reg b [p] \<noteq> BFatal"
  "NewGraphQLMiddleware lib b [p] \<noteq> BFatal"
  "NewFilterHeadersMiddleware b [p] \<noteq> BFatal"
  "NewFilterQueryStringsMiddleware b [p] \<noteq> BFatal"
  "NewLoadBalancedMiddlewareWithSubscriber benv cell w s [p] \<noteq> BFatal"
  "newRequestBuilderMiddleware b [p] \<noteq> BFatal"
  "NewStaticMiddleware cfg [p] \<noteq> BFatal"
  "NewFlatmapMiddleware fl cfg [p] \<noteq> BFatal"
  by (auto simp: newPluginMiddleware_def NewPluginMiddleware_def NewBackendPluginMiddleware_def
      NewGraphQLMiddleware_def NewFilterHeadersMiddleware_def NewFilterQueryStringsMiddleware_def
      NewLoadBalancedMiddlewareWithSubscriber_def newLoadBalancedMiddleware_def
      newRequestBuilderMiddleware_def NewStaticMiddleware_def NewFlatmapMiddleware_def
      split: option.split prod.split sum.split outcome.split)

lemma concurrent_not_fatal:
  "be_ConcurrentCalls b > 1 \<Longrightarrow> NewConcurrentMiddlewareWithLogger b [p] \<noteq> BFatal"
  by (simp add: NewConcurrentMiddlewareWithLogger_def)

lemma newStack_not_fatal: "newStack env b \<noteq> BFatal"
  by (auto simp: newStack_def on_top_BFatal single_not_fatal concurrent_not_fatal)

lemma newStacks_not_fatal: "newStacks env bs \<noteq> BFatal"
  by (induction bs) (auto simp: on_top_BFatal newStack_not_fatal)

lemma newStacks_length: "newStacks env bs = Built ps \<Longrightarrow> length ps = length bs"
  by (induction bs arbitrary: ps) (auto simp: on_top_Built)

lemma merge_not_fatal:
  "length ps = length (ep_Backend cfg) \<Longrightarrow> length (ep_Backend cfg) > 1 \<Longrightarrow>
   NewMergeDataMiddleware reg ms bf cfg ps \<noteq> BFatal"
  by (auto simp: NewMergeDataMiddleware_def Let_def split: option.split sum.split)


section \<open>What a backend is sent\<close>

text \<open>
  The abstract view of a stack: \<open>sends env b h r q\<close> says that \<open>q\<close> is what the client's request \<open>r\<close>
  becomes for backend \<open>b\<close> on host \<open>h\<close>. A list that is empty lets everything pass.
\<close>

definition passes :: "string list \<Rightarrow> string \<Rightarrow> bool" where
  "passes allowed k \<longleftrightarrow> allowed = [] \<or> k \<in> set allowed"

definition sends ::
  "('a, 't) factory_env \<Rightarrow> backend \<Rightarrow> string \<Rightarrow> request \<Rightarrow> request \<Rightarrow> bool" where
  "sends env b h r q \<longleftrightarrow>
     rq_Method q = be_Method b \<and>
     rq_Path q = rq_Path (GeneratePath (be_URLPattern b) r) \<and>
     rq_Body q = rq_Body r \<and> rq_Params q = rq_Params r \<and>
     (\<forall>k. map_of (rq_Headers q) k =
        (if passes (be_HeadersToPass b) k then map_of (rq_Headers r) k else None)) \<and>
     (\<exists>u. rq_URL q = Some u \<and> bl_net_url (fe_balancing env) (h @ rq_Path q) = Inr (u_base u) \<and>
        (\<forall>k. read_values (u_RawQuery u) k =
           read_values (after (CHR ''?'') (before (CHR ''#'') (h @ rq_Path q))) k @
           (if passes (be_QueryStringsToPass b) k then values_of (query_of r) k else [])))"

text \<open>A middleware that hands on one request and keeps the answer.\<close>

definition hands_on :: "'a proxy \<Rightarrow> (request \<Rightarrow> request) \<Rightarrow> 'a proxy \<Rightarrow> bool" where
  "hands_on f g p \<longleftrightarrow> (\<forall>ctx r w.
     fst (f ctx r w) = fst (p ctx (g r) w) \<and> snd (snd (f ctx r w)) = snd (snd (p ctx (g r) w)))"

lemma headers_hand_on:
  assumes "NewFilterHeadersMiddleware b [p] = Built f"
  shows "hands_on f (if be_HeadersToPass b = [] then id else handed_headers (be_HeadersToPass b)) p"
  using assms by (auto simp: NewFilterHeadersMiddleware_def hands_on_def headers_filter.result
      headers_filter.world split: if_splits)

lemma query_hands_on:
  assumes "NewFilterQueryStringsMiddleware b [p] = Built f"
  shows "hands_on f
    (if be_QueryStringsToPass b = [] then id else handed_query (be_QueryStringsToPass b)) p"
  using assms by (auto simp: NewFilterQueryStringsMiddleware_def hands_on_def query_filter.result
      query_filter.world split: if_splits)

lemma passed_headers:
  assumes "distinct (be_HeadersToPass b)" and "distinct (keys (rq_Headers r))"
  shows "map_of (rq_Headers ((if be_HeadersToPass b = [] then id
      else handed_headers (be_HeadersToPass b)) r)) k =
    (if passes (be_HeadersToPass b) k then map_of (rq_Headers r) k else None)"
  using headers_filter.exact [OF assms] by (simp add: passes_def)

lemma passed_query:
  assumes "distinct (be_QueryStringsToPass b)" and "distinct (keys (query_of r))"
  shows "values_of (query_of ((if be_QueryStringsToPass b = [] then id
      else handed_query (be_QueryStringsToPass b)) r)) k =
    (if passes (be_QueryStringsToPass b) k then values_of (query_of r) k else [])"
  using query_filter.exact [OF assms, of k] by (simp add: passes_def values_of_def)

lemma distinct_select: "distinct (keys (select_entries allowed m))"
proof -
  have "distinct (keys new) \<Longrightarrow> distinct (keys (fold (\<lambda>v new. case map_of m v of
      Some values \<Rightarrow> mput v values new | None \<Rightarrow> new) allowed new))" for new
    by (induction allowed arbitrary: new) (auto split: option.split)
  from this [of "[]"] show ?thesis by (simp add: select_entries_def)
qed

lemma GeneratePath_frame:
  "GeneratePath p r = r\<lparr>rq_Path := rq_Path (GeneratePath p r)\<rparr>"
  by (simp add: GeneratePath_def)

lemma GeneratePath_params:
  "rq_Params r' = rq_Params r \<Longrightarrow> rq_Path (GeneratePath p r') = rq_Path (GeneratePath p r)"
  by (simp add: GeneratePath_def)

text \<open>The request builder keeps everything but the method and the path.\<close>

lemma build_request_frame:
  "rq_Params (build_request b r) = rq_Params r" "rq_Body (build_request b r) = rq_Body r"
  "rq_Headers (build_request b r) = rq_Headers r" "query_of (build_request b r) = query_of r"
  "rq_Method (build_request b r) = be_Method b"
  "rq_Path (build_request b r) = rq_Path (GeneratePath (be_URLPattern b) r)"
  by (simp_all add: build_request_def GeneratePath_def query_of_def)

lemma handed_query_frame:
  "rq_Params (handed_query allowed r) = rq_Params r" "rq_Body (handed_query allowed r) = rq_Body r"
  "rq_Headers (handed_query allowed r) = rq_Headers r"
  by (simp_all add: handed_query_def)

text \<open>The middlewares of the stack of a plain backend, with one call or several at a time.\<close>

lemma plain_stack_parts:
  assumes "newStack env b = Built mw"
    and "section_of (be_ExtraConfig b) plugin_Namespace = None"
    and "GetOptions (fe_gql env) (be_ExtraConfig b) = Inl e"
  obtains hf lb where "NewFilterHeadersMiddleware b [fe_backend env b] = Built hf"
    and "NewLoadBalancedMiddlewareWithSubscriber (fe_balancing env) (fe_cell env b)
      (fe_start env) (fe_subscriber env b) [hf] = Built lb"
    and "NewFilterQueryStringsMiddleware b
      [\<lambda>ctx r w. (if be_ConcurrentCalls b > 1
        then fe_concurrent env (be_ConcurrentCalls b) (percent 75 (be_Timeout b)) lb else lb)
          ctx (build_request b r) w] = Built mw"
proof -
  have "NewBackendPluginMiddleware (fe_plugins env) b [fe_backend env b] = Built (fe_backend env b)"
    by (simp add: NewBackendPluginMiddleware_def assms(2))
  moreover have "NewGraphQLMiddleware (fe_gql env) b [fe_backend env b] = Built (fe_backend env b)"
    by (simp add: NewGraphQLMiddleware_def assms(3))
  moreover have "run_calls env (CallMany n t p) = fe_concurrent env n t p" for n t p
    by (simp add: fun_eq_iff)
  ultimately show thesis
    using assms(1) that
    by (auto simp: newStack_def on_top_Built newRequestBuilderMiddleware_def
        NewConcurrentMiddlewareWithLogger_def split: if_splits)
qed

text \<open>What the middlewares of the stack make of a request that has been given a URL.\<close>

lemma built_request_sends:
  assumes "distinct (be_HeadersToPass b)" and "distinct (be_QueryStringsToPass b)"
    and "distinct (keys (rq_Headers r))" and "distinct (keys (query_of r))"
    and "r1 = (if be_QueryStringsToPass b = [] then id else handed_query (be_QueryStringsToPass b)) r"
    and "r2 = (build_request b r1)\<lparr>rq_URL := Some u\<rparr>"
    and "path = rq_Path (GeneratePath (be_URLPattern b) r)"
    and "bl_net_url (fe_balancing env) (h @ path) = Inr (u_base u)"
    and "\<forall>k. read_values (u_RawQuery u) k =
        read_values (after (CHR ''?'') (before (CHR ''#'') (h @ path))) k @ values_of (query_of r1) k"
  shows "sends env b h r
    ((if be_HeadersToPass b = [] then id else handed_headers (be_HeadersToPass b)) r2)"
proof -
  let ?q = "(if be_HeadersToPass b = [] then id else handed_headers (be_HeadersToPass b)) r2"
  have r1: "rq_Params r1 = rq_Params r" "rq_Body r1 = rq_Body r" "rq_Headers r1 = rq_Headers r"
    by (simp_all add: assms(5) handed_query_frame)
  have r2: "rq_Headers r2 = rq_Headers r" by (simp add: assms(6) build_request_frame r1)
  have "rq_Path (build_request b r1) = path"
    using GeneratePath_params [OF r1(1)] by (simp add: build_request_frame assms(7))
  then have q: "rq_Method ?q = be_Method b" "rq_Path ?q = path" "rq_Body ?q = rq_Body r"
      "rq_Params ?q = rq_Params r" "rq_URL ?q = Some u"
    using r1 by (simp_all add: assms(6) build_request_frame handed_headers_def)
  have "map_of (rq_Headers ?q) k =
      (if passes (be_HeadersToPass b) k then map_of (rq_Headers r) k else None)" for k
    using passed_headers [OF assms(1), of r2 k] assms(3) r2 by simp
  moreover have "values_of (query_of r1) k =
      (if passes (be_QueryStringsToPass b) k then values_of (query_of r) k else [])" for k
    using passed_query [OF assms(2,4)] by (simp only: assms(5))
  ultimately show ?thesis using q assms(7-9) by (auto simp: sends_def)
qed

text \<open>The balancer and what is under it, on the request the builder made.\<close>

lemma balanced_sends:
  assumes "NewFilterHeadersMiddleware b [fe_backend env b] = Built hf"
    and "NewLoadBalancedMiddlewareWithSubscriber (fe_balancing env) (fe_cell env b)
      (fe_start env) (fe_subscriber env b) [hf] = Built lb"
    and "distinct (be_HeadersToPass b)" and "distinct (be_QueryStringsToPass b)"
    and "distinct (keys (rq_Headers r))" and "distinct (keys (query_of r))"
    and "rand_ok (bl_rand (fe_balancing env) w)" and "hosts_ok (fe_subscriber env b) w"
    and "r2 = build_request b
      ((if be_QueryStringsToPass b = [] then id else handed_query (be_QueryStringsToPass b)) r)"
  shows "case lb_hosts (fe_subscriber env b) w of
      Inl e \<Rightarrow> fst (lb ctx r2 w) = Ret None (Some e)
    | Inr hs \<Rightarrow> \<exists>h \<in> set hs.
        (case bl_net_url (fe_balancing env) (h @ rq_Path (GeneratePath (be_URLPattern b) r)) of
           Inl e \<Rightarrow> fst (lb ctx r2 w) = Ret None (Some e)
         | Inr _ \<Rightarrow> \<exists>q w'. sends env b h r q \<and>
             fst (lb ctx r2 w) = fst (fe_backend env b ctx q w') \<and>
             snd (snd (lb ctx r2 w)) = snd (snd (fe_backend env b ctx q w')))"
proof -
  let ?qf = "if be_QueryStringsToPass b = [] then id else handed_query (be_QueryStringsToPass b)"
  let ?p = "fe_backend env b"
  let ?path = "rq_Path (GeneratePath (be_URLPattern b) r)"
  have params: "rq_Params (?qf r) = rq_Params r" by (simp add: handed_query_frame)
  have path: "rq_Path r2 = ?path"
    using GeneratePath_params [OF params] by (simp add: assms(9) build_request_frame)
  have "distinct (keys (query_of (?qf r)))"
    using assms(6) by (simp add: handed_query_def query_of_def distinct_select)
  then have "distinct (keys (query_of r2))" by (simp only: assms(9) build_request_frame)
  note call = balanced_call [OF assms(2,7,8) this, of ctx, unfolded path]
  show ?thesis
  proof (cases "lb_hosts (fe_subscriber env b) w")
    case (Inl e)
    with call show ?thesis by auto
  next
    case (Inr hs)
    with call obtain h w' where h: "h \<in> set hs" and
      net: "case bl_net_url (fe_balancing env) (h @ ?path) of
          Inl e \<Rightarrow> lb ctx r2 w = (Ret None (Some e), r2\<lparr>rq_URL := None\<rparr>, w')
        | Inr t \<Rightarrow> \<exists>u. u_base u = t \<and>
            (\<forall>k. read_values (u_RawQuery u) k =
              read_values (after (CHR ''?'') (before (CHR ''#'') (h @ ?path))) k @
              values_of (query_of r2) k) \<and>
            lb ctx r2 w = hf ctx (r2\<lparr>rq_URL := Some u\<rparr>) w'"
      by auto
    show ?thesis
    proof (cases "bl_net_url (fe_balancing env) (h @ ?path)")
      case (Inl e)
      with h net Inr show ?thesis by (auto intro!: bexI [of _ h])
    next
      case url: (Inr t)
      with net obtain u where base: "bl_net_url (fe_balancing env) (h @ ?path) = Inr (u_base u)"
        and vals: "\<forall>k. read_values (u_RawQuery u) k =
            read_values (after (CHR ''?'') (before (CHR ''#'') (h @ ?path))) k @
            values_of (query_of (?qf r)) k"
        and run: "lb ctx r2 w = hf ctx (r2\<lparr>rq_URL := Some u\<rparr>) w'"
        by (auto simp: assms(9) build_request_frame)
      define q where "q = (if be_HeadersToPass b = [] then id
          else handed_headers (be_HeadersToPass b)) (r2\<lparr>rq_URL := Some u\<rparr>)"
      have "sends env b h r q"
        unfolding q_def assms(9)
        by (rule built_request_sends [OF assms(3-6) refl refl refl base vals])
      moreover have "fst (lb ctx r2 w) = fst (?p ctx q w')"
          "snd (snd (lb ctx r2 w)) = snd (snd (?p ctx q w'))"
        using headers_hand_on [OF assms(1)] by (simp_all add: run hands_on_def q_def)
      ultimately have "\<exists>q w'. sends env b h r q \<and> fst (lb ctx r2 w) = fst (?p ctx q w') \<and>
          snd (snd (lb ctx r2 w)) = snd (snd (?p ctx q w'))"
        by blast
      then show ?thesis
        unfolding Inr sum.case by (intro bexI [OF _ h]) (simp only: url sum.case)
    qed
  qed
qed

lemma stack_sends:
  assumes "newStack env b = Built mw"
    and "section_of (be_ExtraConfig b) plugin_Namespace = None"
    and "GetOptions (fe_gql env) (be_ExtraConfig b) = Inl e" and "be_ConcurrentCalls b \<le> 1"
    and "distinct (be_HeadersToPass b)" and "distinct (be_QueryStringsToPass b)"
    and "distinct (keys (rq_Headers r))" and "distinct (keys (query_of r))"
    and "rand_ok (bl_rand (fe_balancing env) w)" and "hosts_ok (fe_subscriber env b) w"
  shows "case lb_hosts (fe_subscriber env b) w of
      Inl e \<Rightarrow> fst (mw ctx r w) = Ret None (Some e)
    | Inr hs \<Rightarrow> \<exists>h \<in> set hs.
        (case bl_net_url (fe_balancing env) (h @ rq_Path (GeneratePath (be_URLPattern b) r)) of
           Inl e \<Rightarrow> fst (mw ctx r w) = Ret None (Some e)
         | Inr _ \<Rightarrow> \<exists>q w'. sends env b h r q \<and>
             fst (mw ctx r w) = fst (fe_backend env b ctx q w') \<and>
             snd (snd (mw ctx r w)) = snd (snd (fe_backend env b ctx q w')))"
proof -
  obtain hf lb where hf: "NewFilterHeadersMiddleware b [fe_backend env b] = Built hf"
    and lb: "NewLoadBalancedMiddlewareWithSubscriber (fe_balancing env) (fe_cell env b)
      (fe_start env) (fe_subscriber env b) [hf] = Built lb"
    and top: "NewFilterQueryStringsMiddleware b
      [\<lambda>ctx r w. (if be_ConcurrentCalls b > 1
        then fe_concurrent env (be_ConcurrentCalls b) (percent 75 (be_Timeout b)) lb else lb)
          ctx (build_request b r) w] = Built mw"
    by (rule plain_stack_parts [OF assms(1-3)])
  have qf: "NewFilterQueryStringsMiddleware b [\<lambda>ctx r w. lb ctx (build_request b r) w] = Built mw"
    using top assms(4) by simp
  define r2 where "r2 = build_request b
    ((if be_QueryStringsToPass b = [] then id else handed_query (be_QueryStringsToPass b)) r)"
  have mw: "fst (mw ctx r w) = fst (lb ctx r2 w)" "snd (snd (mw ctx r w)) = snd (snd (lb ctx r2 w))"
    using query_hands_on [OF qf] by (simp_all add: hands_on_def r2_def)
  from balanced_sends [OF hf lb assms(5-10) r2_def] show ?thesis unfolding mw .
qed


section \<open>A stack\<close>

definition sample_factory_env :: "(unit, unit) factory_env" where
  "sample_factory_env =
     \<lparr>fe_backend = (\<lambda>_. NoopProxy), fe_subscriber = (\<lambda>_. FixedSubscriber [''http://h'']),
      fe_balancing = \<lparr>bl_rand = (\<lambda>_ _. 0), bl_net_url = (\<lambda>s. Inr (before (CHR ''?'') s)), bl_procs = 1\<rparr>,
      fe_cell = (\<lambda>_. \<lparr>cl_get = (\<lambda>_. 0), cl_put = (\<lambda>_ w. w)\<rparr>), fe_start = \<lparr>now = 0\<rparr>,
      fe_plugins = Register.New, fe_gql = sample_gql_lib, fe_flat = sample_flat_lib,
      fe_combiners = newCombinerRegister [] combineData, fe_mergers = [],
      fe_filterers = (\<lambda>_. Inr []), fe_concurrent = (\<lambda>_ _ p. p),
      fe_merge = (\<lambda>_ ps. first_proxy ps), fe_seq = (\<lambda>_. sample_env)\<rparr>"

definition sample_stack_backend :: backend where
  "sample_stack_backend = sample_filter_backend\<lparr>be_Method := ''PUT'', be_URLPattern := ''/x?z=1''\<rparr>"

lemma sample_stack_built: "\<exists>mw. newStack sample_factory_env sample_stack_backend = Built mw"
  by (simp add: newStack_def NewBackendPluginMiddleware_def NewGraphQLMiddleware_def GetOptions_def
      NewFilterHeadersMiddleware_def NewFilterQueryStringsMiddleware_def
      NewLoadBalancedMiddlewareWithSubscriber_def newLoadBalancedMiddleware_def
      newRequestBuilderMiddleware_def section_of_def sample_stack_backend_def
      sample_filter_backend_def zero_backend_def)


end
