(* ===== verification/SD_Dnssrv.thy ===== *)
theory SD_Dnssrv
  imports SD
begin

text \<open>
  \<open>sd/dnssrv/subscriber.go\<close>: hosts from DNS SRV records. The records are sorted, those of the best
  priority are kept, and each is listed in proportion to its weight. The resolution itself
  (\<open>net.LookupSRV\<close>) is a parameter; ports and weights are uint16.
\<close>

section \<open>Records and their order\<close>

datatype srv = SRV (srv_Priority: "16 word") (srv_Weight: "16 word") (srv_Target: string)
  (srv_Port: "16 word")

text \<open>The comparison \<open>resolve\<close> sorts by: priority, then the larger weight, target and port.\<close>

definition srv_less :: "srv \<Rightarrow> srv \<Rightarrow> bool" where
  "srv_less a b \<longleftrightarrow>
     (if srv_Priority a = srv_Priority b then
        if srv_Weight a = srv_Weight b then
          if srv_Target a = srv_Target b then srv_Port a < srv_Port b
          else srv_Target a < srv_Target b
        else srv_Weight a > srv_Weight b
      else srv_Priority a < srv_Priority b)"

instantiation srv :: linorder
begin

definition less_srv :: "srv \<Rightarrow> srv \<Rightarrow> bool" where
  "less_srv a b \<longleftrightarrow> srv_less a b"

definition less_eq_srv :: "srv \<Rightarrow> srv \<Rightarrow> bool" where
  "less_eq_srv a b \<longleftrightarrow> srv_less a b \<or> a = b"

instance
proof
  fix a b c :: srv
  show "(a < b) = (a \<le> b \<and> \<not> b \<le> a)"
    by (cases a; cases b) (auto simp: less_srv_def less_eq_srv_def srv_less_def split: if_splits)
  show "a \<le> a" by (simp add: less_eq_srv_def)
  show "a \<le> b \<Longrightarrow> b \<le> c \<Longrightarrow> a \<le> c"
    by (cases a; cases b; cases c) (auto simp: less_eq_srv_def srv_less_def split: if_splits)
  show "a \<le> b \<Longrightarrow> b \<le> a \<Longrightarrow> a = b"
    by (cases a; cases b) (auto simp: less_eq_srv_def srv_less_def split: if_splits)
  show "a \<le> b \<or> b \<le> a"
    by (cases a; cases b) (auto simp: less_eq_srv_def srv_less_def split: if_splits)
qed

end

lemma srv_le_priority: "a \<le> b \<Longrightarrow> srv_Priority a \<le> srv_Priority b"
  by (auto simp: less_eq_srv_def srv_less_def split: if_splits)

section \<open>Weights\<close>

text \<open>
  \<open>normalize\<close>: the products and the sum are int64 values that cannot overflow here (a weight is below
  \<open>2 ^ 16\<close>), the result is cut to a uint16.
\<close>

definition normalize_ws :: "16 word list \<Rightarrow> 16 word list" where
  "normalize_ws ws =
     (let scale = (if length ws > 100 then int (length ws) else 100);
          total_w = sum_list (map uint ws) in
      if total_w \<le> scale then ws
      else map (\<lambda>w. word_of_int ((uint w * scale) sdiv total_w)) ws)"

function localGCD :: "16 word \<Rightarrow> 16 word \<Rightarrow> 16 word" where
  "localGCD a b = (if b > 0 then localGCD b (a mod b) else a)"
  by pat_completeness auto
termination
  by (relation "measure (\<lambda>(a, b). unat b)") (auto simp: unat_mod_distrib word_less_nat_alt)

declare localGCD.simps [simp del]

definition gcd_ws :: "16 word list \<Rightarrow> 16 word" where
  "gcd_ws ws =
     (case ws of
        [] \<Rightarrow> 0
      | w # rest \<Rightarrow> fold (\<lambda>i result. localGCD result i) rest w)"

definition compact :: "16 word list \<Rightarrow> 16 word list" where
  "compact ws =
     (let tmp = normalize_ws ws;
          d = gcd_ws tmp in
      if d < 2 then tmp else map (\<lambda>w. w div d) tmp)"

section \<open>Resolution\<close>

text \<open>\<open>net.JoinHostPort\<close>: brackets around a host with a colon (an IPv6 address).\<close>

definition JoinHostPort :: "string \<Rightarrow> string \<Rightarrow> string" where
  "JoinHostPort host port =
     (if CHR '':'' \<in> set host then ''['' @ host @ '']:'' @ port else host @ '':'' @ port)"

definition host_of :: "string \<Rightarrow> srv \<Rightarrow> string" where
  "host_of scheme a = scheme @ ''://'' @ JoinHostPort (srv_Target a) (itoa (uint (srv_Port a)))"

text \<open>\<open>sort.Slice\<close> with that order; records it cannot tell apart are equal.\<close>

definition best_srvs :: "srv list \<Rightarrow> srv list" where
  "best_srvs srvs =
     (let sorted_srvs = sort srvs in
      takeWhile (\<lambda>a. \<not> srv_Priority a > srv_Priority (hd sorted_srvs)) sorted_srvs)"

definition instances :: "string \<Rightarrow> srv list \<Rightarrow> string list" where
  "instances scheme srvs =
     (let best = best_srvs srvs;
          ws = map srv_Weight best;
          host = map (host_of scheme) best in
      concat (map (\<lambda>(times, h). replicate (unat times) h) (zip (compact ws) host)))"

record subscriber_state =
  ss_name :: string
  ss_cache :: "string list"
  ss_ttl :: int
  ss_scheme :: string

definition resolve :: "string \<Rightarrow> go_err + srv list \<Rightarrow> go_err + string list" where
  "resolve scheme answer =
     (case answer of Inl e \<Rightarrow> Inl e | Inr srvs \<Rightarrow> Inr (instances scheme srvs))"

text \<open>
  \<open>update\<close> keeps the cache when the lookup fails; more than 100 instances are shuffled, \<open>perm\<close> being
  the permutation.
\<close>

definition dns_update ::
  "(nat \<Rightarrow> nat list) \<Rightarrow> go_err + srv list \<Rightarrow> subscriber_state \<Rightarrow> subscriber_state" where
  "dns_update perm answer s =
     (case resolve (ss_scheme s) answer of
        Inl e \<Rightarrow> s
      | Inr ins \<Rightarrow>
          s\<lparr>ss_cache :=
            (if length ins > 100 then NewRandomFixedSubscriber (perm (length ins)) ins else ins)\<rparr>)"

definition dns_Hosts :: "subscriber_state \<Rightarrow> string list" where
  "dns_Hosts s = ss_cache s"

definition NewDetailedWithScheme ::
  "(nat \<Rightarrow> nat list) \<Rightarrow> (string \<Rightarrow> go_err + srv list) \<Rightarrow> string \<Rightarrow> int \<Rightarrow> string \<Rightarrow> subscriber_state" where
  "NewDetailedWithScheme perm lookup name ttl scheme =
     dns_update perm (lookup name)
       \<lparr>ss_name = name, ss_cache = [], ss_ttl = ttl,
        ss_scheme = (if scheme = [] then ''http'' else scheme)\<rparr>"

abbreviation MinTTL :: int where "MinTTL \<equiv> Second"

definition SetTTL :: "int \<Rightarrow> int \<Rightarrow> int" where
  "SetTTL d TTL = (if d < MinTTL then TTL else d)"

text \<open>\<open>cfg.Host[0]\<close> panics on a backend without hosts: \<^const>\<open>None\<close>.\<close>

definition dns_SubscriberFactory ::
  "(nat \<Rightarrow> nat list) \<Rightarrow> (string \<Rightarrow> go_err + srv list) \<Rightarrow> int \<Rightarrow> backend \<Rightarrow> subscriber_state option" where
  "dns_SubscriberFactory perm lookup TTL cfg =
     (case be_Host cfg of
        [] \<Rightarrow> None
      | h # _ \<Rightarrow> Some (NewDetailedWithScheme perm lookup h TTL (be_SDScheme cfg)))"

section \<open>Lemmas on weights\<close>

lemma localGCD_gcd: "unat (localGCD a b) = gcd (unat a) (unat b)"
proof (induction a b rule: localGCD.induct)
  case (1 a b)
  show ?case
  proof (cases "b > 0")
    case True
    with 1 have "unat (localGCD a b) = gcd (unat b) (unat a mod unat b)"
      by (subst localGCD.simps) (simp add: unat_mod_distrib)
    then show ?thesis by (metis gcd.commute gcd_red_nat)
  next
    case False
    then have "b = 0" using word_gt_0 by blast
    then show ?thesis by (subst localGCD.simps) simp
  qed
qed

lemma gcd_ws_Gcd: "ws \<noteq> [] \<Longrightarrow> unat (gcd_ws ws) = Gcd (set (map unat ws))"
proof -
  have "unat (fold (\<lambda>i result. localGCD result i) rest w) = gcd (unat w) (Gcd (set (map unat rest)))"
    for rest and w :: "16 word"
  proof (induction rest arbitrary: w)
    case Nil
    then show ?case by simp
  next
    case (Cons x rest)
    then show ?case by (simp add: localGCD_gcd gcd.assoc)
  qed
  then show "ws \<noteq> [] \<Longrightarrow> unat (gcd_ws ws) = Gcd (set (map unat ws))"
    by (cases ws) (simp_all add: gcd_ws_def)
qed

lemma length_normalize_ws [simp]: "length (normalize_ws ws) = length ws"
  by (simp add: normalize_ws_def Let_def)

lemma length_compact [simp]: "length (compact ws) = length ws"
  by (simp add: compact_def Let_def)

lemma normalize_id:
  "sum_list (map uint ws) \<le> 100 \<Longrightarrow> normalize_ws ws = ws"
  by (simp add: normalize_ws_def Let_def)

lemma compact_gcd:
  "\<exists>g \<ge> 1. map unat (normalize_ws ws) = map (\<lambda>w. g * unat w) (compact ws) \<and>
     ((\<exists>w \<in> set (normalize_ws ws). w \<noteq> 0) \<longrightarrow> Gcd (set (map unat (compact ws))) = 1)"
proof (cases "gcd_ws (normalize_ws ws) < 2")
  case True
  then have c: "compact ws = normalize_ws ws" by (simp add: compact_def Let_def)
  have "Gcd (set (map unat (normalize_ws ws))) = 1" if "\<exists>w \<in> set (normalize_ws ws). w \<noteq> 0"
  proof -
    have ne: "normalize_ws ws \<noteq> []" using that by auto
    have "unat (gcd_ws (normalize_ws ws)) < 2" using True by (simp add: word_less_nat_alt)
    moreover have "Gcd (set (map unat (normalize_ws ws))) \<noteq> 0" using that
      by (auto simp: Gcd_0_iff unat_eq_zero)
    moreover have "G = 1" if "G < 2" "G \<noteq> 0" for G :: nat
      using that by auto
    ultimately show ?thesis using gcd_ws_Gcd [OF ne] by metis
  qed
  then show ?thesis using c by (intro exI [of _ 1]) simp
next
  case False
  let ?tmp = "normalize_ws ws" and ?d = "gcd_ws (normalize_ws ws)"
  have d: "unat ?d \<ge> 2" using False by (simp add: word_less_nat_alt)
  then have ne: "?tmp \<noteq> []" by (auto simp: gcd_ws_def)
  have c: "compact ws = map (\<lambda>w. w div ?d) ?tmp" using False by (simp add: compact_def Let_def)
  have dvd: "unat ?d dvd unat w" if "w \<in> set ?tmp" for w
    using gcd_ws_Gcd [OF ne] that by (simp add: Gcd_dvd)
  have "map unat ?tmp = map (\<lambda>w. unat ?d * unat w) (compact ws)"
    using dvd by (simp add: c unat_div_distrib)
  moreover have "Gcd (set (map unat (compact ws))) = 1"
  proof -
    have "unat ?d * Gcd (set (map unat (compact ws))) = Gcd (set (map unat ?tmp))"
    proof -
      have "set (map unat ?tmp) = (*) (unat ?d) ` set (map unat (compact ws))"
        unfolding calculation by (simp add: image_image)
      then show ?thesis by (simp only: Gcd_mult normalize_nat_def id_apply)
    qed
    then have "unat ?d * Gcd (set (map unat (compact ws))) = unat ?d"
      by (simp only: gcd_ws_Gcd [OF ne])
    moreover have "G = 1" if "n * G = n" "2 \<le> n" for n G :: nat
      using that by auto
    ultimately show ?thesis using d by metis
  qed
  ultimately show ?thesis using d by (intro exI [of _ "unat ?d"]) simp
qed

section \<open>Lemmas on the resolution\<close>

lemma best_srvs_set:
  "set (best_srvs srvs) = {a \<in> set srvs. \<forall>b \<in> set srvs. srv_Priority a \<le> srv_Priority b}"
proof (cases "sort srvs")
  case Nil
  then have "srvs = []" by (metis set_empty set_sort)
  then show ?thesis by (simp add: best_srvs_def)
next
  case (Cons h rest)
  have hd_min: "srv_Priority h \<le> srv_Priority b" if "b \<in> set srvs" for b
  proof -
    have "b \<in> set (h # rest)" using that Cons by (metis set_sort)
    moreover have "sorted (h # rest)" using Cons sorted_sort by metis
    ultimately have "h \<le> b" by auto
    then show ?thesis by (rule srv_le_priority)
  qed
  have h: "h \<in> set srvs" using Cons by (metis list.set_intros(1) set_sort)
  let ?P = "\<lambda>a. \<not> srv_Priority a > srv_Priority h"
  have "takeWhile ?P xs = filter ?P xs" if "sorted xs" for xs
    using that
  proof (induction xs)
    case Nil
    then show ?case by simp
  next
    case (Cons x xs)
    have "filter ?P xs = []" if "\<not> ?P x"
      using that Cons.prems srv_le_priority by (fastforce simp: filter_empty_conv)
    with Cons show ?case by auto
  qed
  note tw = this [OF sorted_sort, of srvs]
  have hd: "hd (sort srvs) = h" by (simp add: Cons)
  have "best_srvs srvs = filter ?P (sort srvs)"
    unfolding best_srvs_def Let_def hd by (rule tw)
  then have "set (best_srvs srvs) = {a \<in> set srvs. srv_Priority a \<le> srv_Priority h}"
    by (auto simp: not_less)
  then show ?thesis using hd_min h by (auto intro: order_trans)
qed

lemma sort_mset_eq: "mset xs = mset (ys :: 'a :: linorder list) \<Longrightarrow> sort xs = sort ys"
  by (rule properties_for_sort) simp_all

lemma instances_perm: "mset srvs = mset srvs' \<Longrightarrow> instances scheme srvs = instances scheme srvs'"
  using sort_mset_eq [of srvs srvs'] by (simp add: instances_def best_srvs_def)

lemma instances_hosts:
  "set (instances scheme srvs) \<subseteq> host_of scheme ` set (best_srvs srvs)"
  by (auto simp: instances_def Let_def dest!: set_zip_rightD split: if_splits)

text \<open>
  The resolution only uses the servers of the best priority, with the addresses of their
  records, and does not depend on the order of the DNS answer.
\<close>

theorem resolve_best_priority:
  assumes "resolve scheme (Inr srvs) = Inr ins" and "h \<in> set ins" and "mset srvs' = mset srvs"
  shows "(\<exists>a \<in> set srvs. h = host_of scheme a \<and> (\<forall>b \<in> set srvs. srv_Priority a \<le> srv_Priority b)) \<and>
    resolve scheme (Inr srvs') = Inr ins"
  using assms instances_hosts [of scheme srvs] instances_perm [OF assms(3)]
  by (auto simp: resolve_def best_srvs_set)


section \<open>How many instances there can be\<close>

lemma sum_div_le:
  fixes xs :: "int list"
  assumes "0 < t" and "\<forall>x \<in> set xs. 0 \<le> x" and "0 \<le> s"
  shows "t * sum_list (map (\<lambda>x. (x * s) div t) xs) \<le> sum_list xs * s"
  using assms(2)
proof (induction xs)
  case Nil
  then show ?case by simp
next
  case (Cons x xs)
  have "t * ((x * s) div t) \<le> x * s"
    using mult_div_mod_eq [of t "x * s"] pos_mod_sign [OF assms(1), of "x * s"] by linarith
  with Cons show ?case by (simp add: algebra_simps)
qed

lemma uint_le_sum:
  fixes ws :: "'a::len word list"
  shows "w \<in> set ws \<Longrightarrow> uint w \<le> sum_list (map uint ws)"
proof (induction ws)
  case (Cons v ws)
  have "0 \<le> sum_list (map uint ws)" by (intro sum_list_nonneg) auto
  with Cons show ?case by (auto intro: order_trans)
qed simp

text \<open>A weight that is scaled down fits the 16 bits it is converted to.\<close>

lemma scaled_weight:
  fixes w :: "16 word"
  assumes "uint w \<le> t" and "0 < t" and "0 \<le> scale" and "scale < 2 ^ 16"
  shows "uint (word_of_int ((uint w * scale) sdiv t) :: 16 word) = (uint w * scale) div t"
proof -
  have nn: "0 \<le> uint w * scale" using assms(3) by simp
  have "(uint w * scale) sdiv t = (uint w * scale) div t"
    using nn assms(2) by (rule sdiv_pos)
  moreover have "(uint w * scale) div t \<le> (t * scale) div t"
    using assms(1-3) by (intro zdiv_mono1 mult_right_mono)
  then have "(uint w * scale) div t \<le> scale" using assms(2) by simp
  moreover have "0 \<le> (uint w * scale) div t" using nn assms(2) by (simp add: pos_imp_zdiv_nonneg_iff)
  ultimately show ?thesis using assms(4) by (simp add: uint_word_of_int)
qed

lemma normalize_sum:
  assumes "length ws < 2 ^ 16"
  shows "sum_list (map uint (normalize_ws ws)) \<le> max 100 (int (length ws))"
proof -
  define scale where "scale = (if length ws > 100 then int (length ws) else 100)"
  define t where "t = sum_list (map uint ws)"
  have scale: "scale \<le> max 100 (int (length ws))" "0 \<le> scale" "scale < 2 ^ 16"
    using assms by (auto simp: scale_def)
  show ?thesis
  proof (cases "t \<le> scale")
    case True
    then have "normalize_ws ws = ws" by (simp add: normalize_ws_def Let_def scale_def t_def)
    then show ?thesis using True scale(1) by (simp add: t_def)
  next
    case False
    then have t: "0 < t" using scale(2) by simp
    have "uint (word_of_int ((uint w * scale) sdiv t) :: 16 word) = (uint w * scale) div t"
      if "w \<in> set ws" for w
      using uint_le_sum [OF that] by (intro scaled_weight t scale(2,3)) (simp add: t_def)
    then have "map uint (normalize_ws ws) = map (\<lambda>x. (x * scale) div t) (map uint ws)"
      using False by (simp add: normalize_ws_def Let_def scale_def [symmetric] t_def [symmetric])
    moreover have "t * sum_list (map (\<lambda>x. (x * scale) div t) (map uint ws)) \<le> t * scale"
      using sum_div_le [OF t _ scale(2), of "map uint ws"] by (simp add: t_def)
    ultimately have "sum_list (map uint (normalize_ws ws)) \<le> scale"
      using t by simp
    then show ?thesis using scale(1) by simp
  qed
qed

lemma sum_unat_uint: "int (sum_list (map unat xs)) = sum_list (map uint xs)"
  by (induction xs) auto

lemma compact_le:
  assumes "length ws < 2 ^ 16"
  shows "sum_list (map unat (compact ws)) \<le> max 100 (length ws)"
proof -
  obtain g where g: "g \<ge> 1" "map unat (normalize_ws ws) = map (\<lambda>w. g * unat w) (compact ws)"
    using compact_gcd by blast
  have "sum_list (map unat (compact ws)) \<le> g * sum_list (map unat (compact ws))"
    using g(1) by simp
  also have "\<dots> = sum_list (map unat (normalize_ws ws))"
    using g(2) by (simp add: sum_list_const_mult)
  also have "int \<dots> = sum_list (map uint (normalize_ws ws))"
    by (rule sum_unat_uint)
  finally have "int (sum_list (map unat (compact ws))) \<le> max 100 (int (length ws))"
    using normalize_sum [OF assms] by linarith
  then show ?thesis by linarith
qed

lemma instances_length:
  "length (instances scheme srvs) = sum_list (map unat (compact (map srv_Weight (best_srvs srvs))))"
proof -
  have "length (concat (map (\<lambda>(times, h). replicate (unat times) h) (zip ts hs))) =
      sum_list (map unat ts)" if "length hs = length ts" for ts :: "16 word list" and hs :: "string list"
    using that [symmetric] by (induction ts hs rule: list_induct2) simp_all
  then show ?thesis by (simp add: instances_def Let_def)
qed

text \<open>
  C24. A resolution never floods the cache: however large the weights are, it gives at most as many
  hosts as there are records of the best priority, or 100 if those are fewer.
\<close>

theorem resolve_bounded:
  assumes "length (best_srvs srvs) < 2 ^ 16" and "resolve scheme (Inr srvs) = Inr ins"
  shows "length ins \<le> max 100 (length (best_srvs srvs))"
  using compact_le [of "map srv_Weight (best_srvs srvs)"] assms instances_length [of scheme srvs]
  by (auto simp: resolve_def)

section \<open>The cache over time\<close>

definition perm_ok :: "(nat \<Rightarrow> nat list) \<Rightarrow> bool" where
  "perm_ok perm \<longleftrightarrow> (\<forall>n. mset (perm n) = mset [0..<n])"

type_synonym dns_event = "(nat \<Rightarrow> nat list) \<times> (go_err + srv list)"

definition dns_run :: "dns_event list \<Rightarrow> subscriber_state \<Rightarrow> subscriber_state" where
  "dns_run evs s = fold (\<lambda>(perm, answer) s. dns_update perm answer s) evs s"

definition last_answer :: "dns_event list \<Rightarrow> srv list option" where
  "last_answer evs =
     fold (\<lambda>(perm, answer) acc. case answer of Inl e \<Rightarrow> acc | Inr srvs \<Rightarrow> Some srvs) evs None"

lemma dns_update_cache:
  "perm_ok perm \<Longrightarrow> mset (ss_cache (dns_update perm (Inr srvs) s)) = mset (instances (ss_scheme s) srvs)"
  by (simp add: dns_update_def resolve_def perm_ok_def NewRandomFixedSubscriber_mset)

lemma dns_update_scheme [simp]: "ss_scheme (dns_update perm answer s) = ss_scheme s"
  by (simp add: dns_update_def split: sum.split)

lemma dns_update_error [simp]: "dns_update perm (Inl e) s = s"
  by (simp add: dns_update_def resolve_def)

text \<open>
  C25. A subscriber survives failing lookups: after any sequence of them its hosts are those of the
  last successful resolution (in some order when there are more than 100), and as long as there was
  none they are the ones it had; a failure never empties the cache.
\<close>

theorem dns_cache_is_last_answer:
  assumes "\<forall>ev \<in> set evs. perm_ok (fst ev)"
  shows "mset (dns_Hosts (dns_run evs s)) =
    (case last_answer evs of
       None \<Rightarrow> mset (dns_Hosts s)
     | Some srvs \<Rightarrow> mset (instances (ss_scheme s) srvs))"
  using assms
proof (induction evs rule: rev_induct)
  case Nil
  then show ?case by (simp add: dns_run_def last_answer_def)
next
  case (snoc ev evs)
  obtain perm answer where ev: "ev = (perm, answer)" by (cases ev)
  have "ss_scheme (dns_run evs s) = ss_scheme s"
    by (induction evs rule: rev_induct) (auto simp: dns_run_def)
  with snoc ev show ?case
    by (cases answer) (auto simp: dns_run_def last_answer_def dns_Hosts_def dns_update_cache)
qed

definition sample_srvs :: "srv list" where
  "sample_srvs = [SRV 2 10 ''c'' 80, SRV 1 20 ''a'' 80, SRV 1 40 ''b'' 8080]"

lemma sample_best: "best_srvs sample_srvs = [SRV 1 40 ''b'' 8080, SRV 1 20 ''a'' 80]"
  by code_simp

lemma sample_itoa: "itoa 80 = ''80''" "itoa 8080 = ''8080''"
  by (simp_all add: itoa_def digits_of.simps) code_simp+

lemma sample_compact: "compact [40, 20] = [2, 1]"
  by code_simp

lemma replicate_two: "replicate 2 x = [x, x]"
  by (simp add: numeral_2_eq_2)

lemma sample_resolve:
  "resolve ''http'' (Inr sample_srvs) = Inr [''http://b:8080'', ''http://b:8080'', ''http://a:80'']"
  by (simp add: resolve_def instances_def sample_best sample_compact host_of_def sample_itoa
      JoinHostPort_def replicate_two)

theorem resolve_best_priority_witness:
  "(\<exists>a \<in> set sample_srvs. ''http://a:80'' = host_of ''http'' a \<and>
      (\<forall>b \<in> set sample_srvs. srv_Priority a \<le> srv_Priority b)) \<and>
   resolve ''http'' (Inr (rev sample_srvs)) =
     Inr [''http://b:8080'', ''http://b:8080'', ''http://a:80'']"
proof (rule resolve_best_priority)
  show "resolve ''http'' (Inr sample_srvs) =
      Inr [''http://b:8080'', ''http://b:8080'', ''http://a:80'']"
    by (rule sample_resolve)
qed simp_all


theorem resolve_bounded_witness:
  "length [''http://b:8080'', ''http://b:8080'', ''http://a:80''] \<le>
     max 100 (length (best_srvs sample_srvs))"
proof (rule resolve_bounded)
  show "resolve ''http'' (Inr sample_srvs) =
      Inr [''http://b:8080'', ''http://b:8080'', ''http://a:80'']"
    by (rule sample_resolve)
qed (simp add: sample_best)

theorem dns_cache_is_last_answer_witness:
  "mset (dns_Hosts (dns_run [(\<lambda>n. [0..<n], Inr sample_srvs), (\<lambda>n. [0..<n], Inl ENoHosts)]
      \<lparr>ss_name = ''s'', ss_cache = [], ss_ttl = 30, ss_scheme = ''http''\<rparr>)) =
   (case last_answer [(\<lambda>n. [0..<n], Inr sample_srvs), (\<lambda>n. [0..<n], Inl ENoHosts)] of
      None \<Rightarrow> mset (dns_Hosts \<lparr>ss_name = ''s'', ss_cache = [], ss_ttl = 30, ss_scheme = ''http''\<rparr>)
    | Some srvs \<Rightarrow> mset (instances
        (ss_scheme \<lparr>ss_name = ''s'', ss_cache = [], ss_ttl = 30, ss_scheme = ''http''\<rparr>) srvs))"
  by (rule dns_cache_is_last_answer) (simp add: perm_ok_def)

text \<open>
  Records of weight zero are never used, even when there is no other one: the balancer then has no
  hosts. A small weight beside a large one is scaled down to zero.
\<close>

lemma zero_weights_give_no_hosts:
  "instances ''http'' [SRV 1 0 ''a'' 80, SRV 1 0 ''b'' 80] = []"
proof -
  have "best_srvs [SRV 1 0 ''a'' 80, SRV 1 0 ''b'' 80] = [SRV 1 0 ''a'' 80, SRV 1 0 ''b'' 80]"
    and "compact [0, 0] = [0, 0]"
    by code_simp+
  then show ?thesis by (simp add: instances_def)
qed

lemma small_weight_is_lost:
  "compact [1000, 1] = [1, 0]"
  by code_simp

end
