(* ===== verification/Backoff.thy ===== *)
theory Backoff
  imports Config_Types
begin

text \<open>
  \<open>backoff/backoff.go\<close>: the waiting times between retries. \<open>int\<close> and \<open>time.Duration\<close> are int64
  values, so shifts and products wrap (\<open>i64\<close>); \<open>rand\<close> is \<open>rand.Intn\<close>, which panics on a bound
  that is not positive (\<^const>\<open>None\<close>).
\<close>

datatype strategy = DefaultBackoff | LinearBackoff | LinearJitterBackoff | ExponentialBackoff
  | ExponentialJitterBackoff

definition GetByName :: "string \<Rightarrow> strategy" where
  "GetByName name =
     (let s = to_lower name in
      if s = ''linear'' then LinearBackoff
      else if s = ''linear-jitter'' then LinearJitterBackoff
      else if s = ''exponential'' then ExponentialBackoff
      else if s = ''exponential-jitter'' then ExponentialJitterBackoff
      else DefaultBackoff)"

abbreviation DefaultBackoffDuration :: int where
  "DefaultBackoffDuration \<equiv> Second"

text \<open>\<open>1<<uint(i)\<close> on int64: the shift count is the uint64 of \<open>i\<close>, and 64 or more gives zero.\<close>

definition shift_one :: "int \<Rightarrow> int" where
  "shift_one i = (let n = nat (i mod 2 ^ 64) in if n < 64 then i64 (2 ^ n) else 0)"

text \<open>\<open>jitter\<close>; \<open>rand n\<close> is a number below \<open>n\<close>.\<close>

definition jitter :: "(int \<Rightarrow> int) \<Rightarrow> int \<Rightarrow> int option" where
  "jitter rand i =
     (let ms = i64 (i * 1000);
          maxJitter = i64 (ms sdiv 3 + 1);
          bound = i64 (2 * maxJitter) in
      if bound \<le> 0 then None
      else
        (let ms = i64 (ms + (rand bound - maxJitter));
             ms = (if ms \<le> 0 then 1 else ms) in
         Some (i64 (ms * Millisecond))))"

fun TimeToWait :: "(int \<Rightarrow> int) \<Rightarrow> strategy \<Rightarrow> int \<Rightarrow> int option" where
  "TimeToWait rand DefaultBackoff i = Some DefaultBackoffDuration"
| "TimeToWait rand ExponentialBackoff i = Some (i64 (shift_one i * Second))"
| "TimeToWait rand ExponentialJitterBackoff i = jitter rand (shift_one i)"
| "TimeToWait rand LinearBackoff i = Some (i64 (i * Second))"
| "TimeToWait rand LinearJitterBackoff i = jitter rand i"

section \<open>The waiting times\<close>

definition rand_int_ok :: "(int \<Rightarrow> int) \<Rightarrow> bool" where
  "rand_int_ok rand \<longleftrightarrow> (\<forall>n > 0. 0 \<le> rand n \<and> rand n < n)"

lemma shift_one_small:
  assumes "0 \<le> i" and "i < 63"
  shows "shift_one i = 2 ^ nat i"
proof -
  have "(2::int) ^ nat i < 2 ^ 63" using assms by (intro power_strict_increasing) auto
  moreover have "- (2 ^ 63) \<le> (2::int) ^ nat i"
    by (rule order_trans [of _ 0]) auto
  ultimately have "i64 (2 ^ nat i) = 2 ^ nat i" by (intro i64_id)
  moreover have "i mod 2 ^ 64 = i" using assms by (intro mod_pos_pos_trivial) auto
  ultimately show ?thesis using assms by (simp add: shift_one_def Let_def)
qed

lemma jitter_range:
  assumes "rand_int_ok rand" and "0 \<le> i" and "i \<le> 5000000000"
  shows "\<exists>t. jitter rand i = Some t \<and> Millisecond \<le> t \<and>
    1000 * i - (1000 * i div 3 + 1) \<le> t div Millisecond \<and>
    t div Millisecond \<le> max 1 (1000 * i + 1000 * i div 3)"
proof -
  define ms where "ms = 1000 * i"
  define mj where "mj = ms div 3 + 1"
  have ms: "i64 (i * 1000) = ms" "0 \<le> ms" "ms \<le> 5000000000000"
    using assms(2,3) i64_id [of "i * 1000"] by (auto simp: ms_def mult.commute)
  have mj: "i64 (ms sdiv 3 + 1) = mj" "1 \<le> mj" "mj \<le> ms + 1" "mj \<le> 1700000000000"
    using ms by (auto simp: mj_def sdiv_pos intro!: i64_id)
  have bound: "i64 (2 * mj) = 2 * mj" using ms mj by (intro i64_id) auto
  have rnd: "0 \<le> rand (2 * mj)" "rand (2 * mj) < 2 * mj"
    using assms(1) mj by (auto simp: rand_int_ok_def)
  define m where "m = ms + (rand (2 * mj) - mj)"
  have m: "i64 m = m" "ms - mj \<le> m" "m \<le> ms + mj - 1"
    using rnd ms mj by (auto simp: m_def intro!: i64_id)
  define m' where "m' = (if m \<le> 0 then 1 else m)"
  have m': "1 \<le> m'" "ms - mj \<le> m'" "m' \<le> max 1 (ms + mj - 1)"
    using m ms mj by (auto simp: m'_def)
  have top: "i64 (m' * Millisecond) = m' * Millisecond"
    using m' ms mj by (intro i64_id) auto
  have "jitter rand i = Some (m' * Millisecond)"
    using ms(1) mj bound m(1) top mj(2)
    by (simp add: jitter_def Let_def m_def [symmetric] m'_def [symmetric])
  then show ?thesis using m' by (intro exI [of _ "m' * Millisecond"]) (auto simp: ms_def mj_def)
qed

text \<open>
  C28. In their working range the strategies wait what they promise: without jitter exactly \<open>i\<close> or
  \<open>2 ^ i\<close> seconds, with jitter within a third of it (and at least a millisecond), never a panic; the
  exponential one doubles from one retry to the next.
\<close>

theorem backoff_ranges:
  assumes "rand_int_ok rand" and "0 \<le> i" and "i \<le> 32"
  shows "TimeToWait rand LinearBackoff i = Some (i * Second) \<and>
    TimeToWait rand ExponentialBackoff i = Some (2 ^ nat i * Second) \<and>
    (\<exists>t. TimeToWait rand LinearJitterBackoff i = Some t \<and> Millisecond \<le> t \<and>
       1000 * i - (1000 * i div 3 + 1) \<le> t div Millisecond \<and>
       t div Millisecond \<le> max 1 (1000 * i + 1000 * i div 3)) \<and>
    (\<exists>t. TimeToWait rand ExponentialJitterBackoff i = Some t \<and> Millisecond \<le> t \<and>
       1000 * 2 ^ nat i - (1000 * 2 ^ nat i div 3 + 1) \<le> t div Millisecond \<and>
       t div Millisecond \<le> max 1 (1000 * 2 ^ nat i + 1000 * 2 ^ nat i div 3))"
proof -
  have two: "(2::int) ^ nat i \<le> 2 ^ 32" using assms by (intro power_increasing) auto
  have sh: "shift_one i = 2 ^ nat i" using assms by (intro shift_one_small) auto
  have "i64 (2 ^ nat i * Second) = 2 ^ nat i * Second"
    using two by (intro i64_id) (auto intro: order_trans [of _ 0])
  moreover have "i64 (i * Second) = i * Second" using assms by (intro i64_id) auto
  moreover have "(2::int) ^ nat i \<le> 5000000000" using two by simp
  ultimately show ?thesis
    using jitter_range [OF assms(1), of i] jitter_range [OF assms(1), of "2 ^ nat i"] assms sh
    by simp
qed

theorem backoff_ranges_witness:
  "TimeToWait (\<lambda>_. 0) LinearBackoff 3 = Some (3 * Second) \<and>
   TimeToWait (\<lambda>_. 0) ExponentialBackoff 3 = Some (2 ^ nat 3 * Second)"
  using backoff_ranges [of "\<lambda>_. 0" 3] by (simp add: rand_int_ok_def)

text \<open>Beyond the range: the exponential wait turns negative, then zero, and the jitter panics.\<close>

lemma exponential_overflows:
  "TimeToWait rand ExponentialBackoff 34 = Some (- 1266874889709551616)"
  "TimeToWait rand ExponentialBackoff 64 = Some 0"
  "TimeToWait rand ExponentialJitterBackoff 54 = None"
  by (simp_all add: shift_one_def i64_def jitter_def Let_def signed_divide_int_def)

end
