(* ===== verification/Config_Parser.thy ===== *)
theory Config_Parser
  imports Config_Init
begin

text \<open>
  The configuration parser of \<open>config/parser.go\<close>: the structs it decodes, their conversion to the
  configuration, and its errors.

  \<open>json.Unmarshal\<close> into the struct, the injected reader of files, \<open>os.ReadFile\<close> and
  \<open>time.ParseDuration\<close> are parameters, kept in \<open>parser_env\<close>. A slice of pointers may hold nil (the
  decoder stores it for a JSON null), so its elements are optional: converting a nil element
  dereferences it and the program panics, the \<^const>\<open>None\<close> of the functions below.
\<close>

section \<open>The structs of the parser\<close>

record parseable_key_pair =
  pk_PublicKey :: string
  pk_PrivateKey :: string

record parseable_tls =
  pt_IsDisabled :: bool
  pt_PublicKey :: string
  pt_PrivateKey :: string
  pt_CaCerts :: "string list"
  pt_MinVersion :: string
  pt_MaxVersion :: string
  pt_CurvePreferences :: "16 word list"
  pt_PreferServerCipherSuites :: bool
  pt_CipherSuites :: "16 word list"
  pt_EnableMTLS :: bool
  pt_DisableSystemCaPool :: bool
  pt_Keys :: "parseable_key_pair list"

record parseable_client_cert =
  pcc_Certificate :: string
  pcc_PrivateKey :: string

record parseable_client_tls =
  pct_AllowInsecureConnections :: bool
  pct_CaCerts :: "string list"
  pct_DisableSystemCaPool :: bool
  pct_MinVersion :: string
  pct_MaxVersion :: string
  pct_CurvePreferences :: "16 word list"
  pct_CipherSuites :: "16 word list"
  pct_ClientCerts :: "parseable_client_cert list"

record parseable_backend =
  pb_Group :: string
  pb_Method :: string
  pb_Host :: "string list"
  pb_HostSanitizationDisabled :: bool
  pb_URLPattern :: string
  pb_AllowList :: "string list"
  pb_DenyList :: "string list"
  pb_Mapping :: "string gmap"
  pb_Encoding :: string
  pb_IsCollection :: bool
  pb_Target :: string
  pb_ExtraConfig :: "extra_config option"
  pb_SD :: string
  pb_HeadersToPass :: "string list"
  pb_SDScheme :: string
  pb_QueryStringsToPass :: "string list"

record parseable_endpoint =
  pe_Endpoint :: string
  pe_Method :: string
  pe_Backend :: "parseable_backend option list"
  pe_ConcurrentCalls :: int
  pe_Timeout :: string
  pe_CacheTTL :: string
  pe_QueryString :: "string list"
  pe_ExtraConfig :: "extra_config option"
  pe_HeadersToPass :: "string list"
  pe_OutputEncoding :: string

record parseable_agent =
  pa_Name :: string
  pa_MaxRetries :: int
  pa_BackoffStrategy :: string
  pa_HealthInterval :: string
  pa_ConsumerTimeout :: string
  pa_Workers :: int
  pa_Topic :: string
  pa_MaxRate :: "64 word"
  pa_Encoding :: string
  pa_Backend :: "parseable_backend option list"
  pa_ExtraConfig :: extra_config

record parseable_service =
  ps_Name :: string
  ps_Endpoints :: "parseable_endpoint option list"
  ps_AsyncAgents :: "parseable_agent option list"
  ps_Timeout :: string
  ps_CacheTTL :: string
  ps_Host :: "string list"
  ps_Port :: int
  ps_Address :: string
  ps_Version :: int
  ps_ExtraConfig :: "extra_config option"
  ps_ReadTimeout :: string
  ps_WriteTimeout :: string
  ps_IdleTimeout :: string
  ps_ReadHeaderTimeout :: string
  ps_MaxHeaderBytes :: int
  ps_DisableKeepAlives :: bool
  ps_DisableCompression :: bool
  ps_DisableStrictREST :: bool
  ps_MaxIdleConns :: int
  ps_MaxIdleConnsPerHost :: int
  ps_IdleConnTimeout :: string
  ps_ResponseHeaderTimeout :: string
  ps_ExpectContinueTimeout :: string
  ps_OutputEncoding :: string
  ps_DialerTimeout :: string
  ps_DialerFallbackDelay :: string
  ps_DialerKeepAlive :: string
  ps_Debug :: bool
  ps_Echo :: bool
  ps_Plugin :: "plugin_cfg option"
  ps_TLS :: "parseable_tls option"
  ps_ClientTLS :: "parseable_client_tls option"
  ps_UseH2C :: bool
  ps_DNSCacheTTL :: string
  ps_MaxShutdownDuration :: string

section \<open>Conversion\<close>

definition parseDuration :: "(string \<Rightarrow> int option) \<Rightarrow> string \<Rightarrow> int" where
  "parseDuration pd v = (case pd v of None \<Rightarrow> 0 | Some d \<Rightarrow> d)"

text \<open>The map behind a pointer, or the nil map.\<close>

definition deref :: "extra_config option \<Rightarrow> extra_config" where
  "deref p = (case p of None \<Rightarrow> [] | Some e \<Rightarrow> e)"

text \<open>The loop that converts the elements of a slice of pointers: nil panics.\<close>

fun each_pointer :: "('a \<Rightarrow> 'b option) \<Rightarrow> 'a option list \<Rightarrow> 'b list option" where
  "each_pointer f [] = Some []"
| "each_pointer f (None # ps) = None"
| "each_pointer f (Some p # ps) =
     obind (f p) (\<lambda>x. map_option (\<lambda>xs. x # xs) (each_pointer f ps))"

definition tls_normalize :: "parseable_tls \<Rightarrow> tls" where
  "tls_normalize p =
     \<lparr>tls_IsDisabled = pt_IsDisabled p, tls_PublicKey = pt_PublicKey p,
      tls_PrivateKey = pt_PrivateKey p, tls_CaCerts = pt_CaCerts p,
      tls_MinVersion = pt_MinVersion p, tls_MaxVersion = pt_MaxVersion p,
      tls_CurvePreferences = pt_CurvePreferences p,
      tls_PreferServerCipherSuites = pt_PreferServerCipherSuites p,
      tls_CipherSuites = pt_CipherSuites p, tls_EnableMTLS = pt_EnableMTLS p,
      tls_DisableSystemCaPool = pt_DisableSystemCaPool p,
      tls_Keys = map (\<lambda>k. \<lparr>kp_PublicKey = pk_PublicKey k, kp_PrivateKey = pk_PrivateKey k\<rparr>) (pt_Keys p)\<rparr>"

definition client_tls_normalize :: "parseable_client_tls \<Rightarrow> client_tls" where
  "client_tls_normalize p =
     \<lparr>ct_AllowInsecureConnections = pct_AllowInsecureConnections p, ct_CaCerts = pct_CaCerts p,
      ct_DisableSystemCaPool = pct_DisableSystemCaPool p, ct_MinVersion = pct_MinVersion p,
      ct_MaxVersion = pct_MaxVersion p, ct_CurvePreferences = pct_CurvePreferences p,
      ct_CipherSuites = pct_CipherSuites p,
      ct_ClientCerts = map (\<lambda>c. \<lparr>cc_Certificate = pcc_Certificate c, cc_PrivateKey = pcc_PrivateKey c\<rparr>) (pct_ClientCerts p)\<rparr>"

definition backend_normalize :: "parseable_backend \<Rightarrow> backend" where
  "backend_normalize p =
     (let b = zero_backend\<lparr>be_Group := pb_Group p, be_Method := pb_Method p, be_Host := pb_Host p,
        be_HostSanitizationDisabled := pb_HostSanitizationDisabled p,
        be_URLPattern := pb_URLPattern p, be_AllowList := pb_AllowList p,
        be_DenyList := pb_DenyList p, be_Mapping := pb_Mapping p, be_Encoding := pb_Encoding p,
        be_IsCollection := pb_IsCollection p, be_Target := pb_Target p, be_SD := pb_SD p,
        be_SDScheme := pb_SDScheme p, be_HeadersToPass := pb_HeadersToPass p,
        be_QueryStringsToPass := pb_QueryStringsToPass p\<rparr>;
          b = (if be_SDScheme b = [] then b\<lparr>be_SDScheme := ''http''\<rparr> else b) in
      b\<lparr>be_ExtraConfig := deref (pb_ExtraConfig p)\<rparr>)"

definition all_backends :: "parseable_backend option list \<Rightarrow> backend list option" where
  "all_backends = each_pointer (\<lambda>b. Some (backend_normalize b))"

definition endpoint_normalize ::
  "(string \<Rightarrow> int option) \<Rightarrow> parseable_endpoint \<Rightarrow> endpoint_config option" where
  "endpoint_normalize pd p = map_option (\<lambda>backends.
     \<lparr>ep_Endpoint = pe_Endpoint p, ep_Method = pe_Method p, ep_Backend = backends,
      ep_ConcurrentCalls = pe_ConcurrentCalls p, ep_Timeout = parseDuration pd (pe_Timeout p),
      ep_CacheTTL = parseDuration pd (pe_CacheTTL p), ep_QueryString = pe_QueryString p,
      ep_ExtraConfig = deref (pe_ExtraConfig p), ep_HeadersToPass = pe_HeadersToPass p,
      ep_OutputEncoding = pe_OutputEncoding p\<rparr>) (all_backends (pe_Backend p))"

definition agent_normalize ::
  "(string \<Rightarrow> int option) \<Rightarrow> parseable_agent \<Rightarrow> async_agent option" where
  "agent_normalize pd p = map_option (\<lambda>backends.
     \<lparr>aa_Name = pa_Name p,
      aa_Connection = \<lparr>cn_MaxRetries = pa_MaxRetries p, cn_BackoffStrategy = pa_BackoffStrategy p,
        cn_HealthInterval = parseDuration pd (pa_HealthInterval p)\<rparr>,
      aa_Consumer = \<lparr>cs_Timeout = parseDuration pd (pa_ConsumerTimeout p), cs_Workers = pa_Workers p,
        cs_Topic = pa_Topic p, cs_MaxRate = pa_MaxRate p\<rparr>,
      aa_Encoding = pa_Encoding p, aa_Backend = backends,
      aa_ExtraConfig = pa_ExtraConfig p\<rparr>) (all_backends (pa_Backend p))"

definition service_of ::
  "(string \<Rightarrow> int option) \<Rightarrow> parseable_service \<Rightarrow> endpoint_config list \<Rightarrow> async_agent list \<Rightarrow>
     service_config" where
  "service_of pd p endpoints agents =
     \<lparr>sc_Name = ps_Name p, sc_Endpoints = endpoints, sc_AsyncAgents = agents,
      sc_Timeout = parseDuration pd (ps_Timeout p),
      sc_CacheTTL = parseDuration pd (ps_CacheTTL p), sc_Host = ps_Host p, sc_Port = ps_Port p,
      sc_Address = ps_Address p, sc_Version = ps_Version p,
      sc_OutputEncoding = ps_OutputEncoding p, sc_ExtraConfig = deref (ps_ExtraConfig p),
      sc_ReadTimeout = parseDuration pd (ps_ReadTimeout p),
      sc_WriteTimeout = parseDuration pd (ps_WriteTimeout p),
      sc_IdleTimeout = parseDuration pd (ps_IdleTimeout p),
      sc_ReadHeaderTimeout = parseDuration pd (ps_ReadHeaderTimeout p),
      sc_MaxHeaderBytes = ps_MaxHeaderBytes p, sc_DisableKeepAlives = ps_DisableKeepAlives p,
      sc_DisableCompression = ps_DisableCompression p, sc_MaxIdleConns = ps_MaxIdleConns p,
      sc_MaxIdleConnsPerHost = ps_MaxIdleConnsPerHost p,
      sc_IdleConnTimeout = parseDuration pd (ps_IdleConnTimeout p),
      sc_ResponseHeaderTimeout = parseDuration pd (ps_ResponseHeaderTimeout p),
      sc_ExpectContinueTimeout = parseDuration pd (ps_ExpectContinueTimeout p),
      sc_DialerTimeout = parseDuration pd (ps_DialerTimeout p),
      sc_DialerFallbackDelay = parseDuration pd (ps_DialerFallbackDelay p),
      sc_DialerKeepAlive = parseDuration pd (ps_DialerKeepAlive p),
      sc_DisableStrictREST = ps_DisableStrictREST p, sc_Plugin = ps_Plugin p,
      sc_TLS = map_option tls_normalize (ps_TLS p), sc_UseH2C = ps_UseH2C p,
      sc_Debug = ps_Debug p, sc_Echo = ps_Echo p, sc_SequentialStart = False,
      sc_AllowInsecureConnections = False,
      sc_ClientTLS = map_option client_tls_normalize (ps_ClientTLS p),
      sc_DNSCacheTTL = parseDuration pd (ps_DNSCacheTTL p),
      sc_MaxShutdownDuration = parseDuration pd (ps_MaxShutdownDuration p)\<rparr>"

definition normalize ::
  "(string \<Rightarrow> int option) \<Rightarrow> parseable_service \<Rightarrow> service_config option" where
  "normalize pd p =
     obind (each_pointer (endpoint_normalize pd) (ps_Endpoints p)) (\<lambda>endpoints.
       obind (each_pointer (agent_normalize pd) (ps_AsyncAgents p)) (\<lambda>agents.
         Some (service_of pd p endpoints agents)))"

section \<open>Errors\<close>

text \<open>
  The errors \<open>CheckErr\<close> tells apart, with their text: a syntax error and a type error of the JSON
  decoder have the offset they occurred at, a path error its operation and its cause.
\<close>

datatype config_err =
    SyntaxError string int
  | UnmarshalTypeError string int
  | PathError string string
  | OtherError string

text \<open>The loop of \<open>getErrorRowCol\<close> over the bytes before the offset.\<close>

definition row_col_step :: "char \<Rightarrow> int \<times> int \<Rightarrow> int \<times> int" where
  "row_col_step v rc =
     (if v = CHR 0x0D then rc
      else if v = CHR 0x0A then (fst rc + 1, 0)
      else (fst rc, snd rc + 1))"

definition getErrorRowCol :: "string \<Rightarrow> int \<Rightarrow> int \<times> int" where
  "getErrorRowCol source offset =
     (let offset = (if int (length source) < offset then int (length source) - 1 else offset) in
      fold row_col_step (take (nat offset) source) (0, 0))"

record parse_error =
  pr_ConfigFile :: string
  pr_Offset :: int
  pr_Row :: int
  pr_Col :: int
  pr_Err :: string

definition quoted :: "string \<Rightarrow> string" where
  "quoted s = CHR 0x27 # s @ [CHR 0x27]"

definition ParseError_text :: "parse_error \<Rightarrow> string" where
  "ParseError_text p =
     quoted (pr_ConfigFile p) @ '': '' @ pr_Err p @ '', offset: '' @ itoa (pr_Offset p) @
     '', row: '' @ itoa (pr_Row p) @ '', col: '' @ itoa (pr_Col p)"

text \<open>The error of \<open>Parse\<close>: a located one, or a text made by \<open>fmt.Errorf\<close>.\<close>

datatype checked_err = Located parse_error | Text string

fun checked_text :: "checked_err \<Rightarrow> string" where
  "checked_text (Located p) = ParseError_text p"
| "checked_text (Text s) = s"

text \<open>The file is read once more, by \<open>os.ReadFile\<close>; a failure leaves no bytes.\<close>

definition NewParseError ::
  "(string \<Rightarrow> config_err + string) \<Rightarrow> string \<Rightarrow> string \<Rightarrow> int \<Rightarrow> parse_error" where
  "NewParseError read_file err configFile offset =
     (let b = (case read_file configFile of Inl _ \<Rightarrow> [] | Inr b \<Rightarrow> b) in
      case getErrorRowCol b offset of
        (row, col) \<Rightarrow>
          \<lparr>pr_ConfigFile = configFile, pr_Offset = offset, pr_Row = row, pr_Col = col,
           pr_Err = err\<rparr>)"

fun CheckErr :: "(string \<Rightarrow> config_err + string) \<Rightarrow> config_err \<Rightarrow> string \<Rightarrow> checked_err" where
  "CheckErr read_file (SyntaxError err off) configFile =
     Located (NewParseError read_file err configFile off)"
| "CheckErr read_file (UnmarshalTypeError err off) configFile =
     Located (NewParseError read_file err configFile off)"
| "CheckErr read_file (PathError op err) configFile =
     Text (quoted configFile @ '' ('' @ op @ ''): '' @ err)"
| "CheckErr read_file (OtherError err) configFile = Text (quoted configFile @ '': '' @ err)"

section \<open>The parser\<close>

record parser_env =
  pv_fileReader :: "string \<Rightarrow> config_err + string"
  pv_ReadFile :: "string \<Rightarrow> config_err + string"
  pv_Unmarshal :: "string \<Rightarrow> config_err + parseable_service"
  pv_ParseDuration :: "string \<Rightarrow> int option"
  pv_init :: init_env

text \<open>\<open>os.ReadFile\<close> is the reader of \<open>NewParser\<close>.\<close>

definition NewParserWithFileReader ::
  "(string \<Rightarrow> config_err + string) \<Rightarrow> parser_env \<Rightarrow> parser_env" where
  "NewParserWithFileReader f pv = pv\<lparr>pv_fileReader := f\<rparr>"

definition NewParser :: "parser_env \<Rightarrow> parser_env" where
  "NewParser pv = NewParserWithFileReader (pv_ReadFile pv) pv"

definition checked_init :: "parser_env \<Rightarrow> string \<Rightarrow> service_config \<Rightarrow> checked_err + service_config" where
  "checked_init pv configFile result =
     (case Init (pv_init pv) result of
        Inl err \<Rightarrow> Inl (CheckErr (pv_ReadFile pv) (OtherError (init_err_text err)) configFile)
      | Inr result \<Rightarrow> Inr result)"

text \<open>\<^const>\<open>None\<close> is a panic.\<close>

definition Parse :: "parser_env \<Rightarrow> string \<Rightarrow> (checked_err + service_config) option" where
  "Parse pv configFile =
     (case pv_fileReader pv configFile of
        Inl err \<Rightarrow> Some (Inl (CheckErr (pv_ReadFile pv) err configFile))
      | Inr data \<Rightarrow>
          (case pv_Unmarshal pv data of
             Inl err \<Rightarrow> Some (Inl (CheckErr (pv_ReadFile pv) err configFile))
           | Inr cfg \<Rightarrow>
               map_option (checked_init pv configFile) (normalize (pv_ParseDuration pv) cfg)))"

section \<open>Where an error is\<close>

text \<open>The lines of a text that end before its end, and the bytes of its last line that are not CR.\<close>

definition lines_before :: "string \<Rightarrow> nat" where
  "lines_before s = count_list s (CHR 0x0A)"

definition last_line_width :: "string \<Rightarrow> nat" where
  "last_line_width s = length (filter (\<lambda>c. c \<noteq> CHR 0x0D) (takeWhile (\<lambda>c. c \<noteq> CHR 0x0A) (rev s)))"

lemma row_col_fold:
  "fold row_col_step s (0, 0) = (int (lines_before s), int (last_line_width s))"
  by (induction s rule: rev_induct)
    (simp_all add: row_col_step_def lines_before_def last_line_width_def)

lemma getErrorRowCol_exact:
  assumes "0 \<le> offset" and "offset \<le> int (length source)"
  shows "getErrorRowCol source offset =
    (int (lines_before (take (nat offset) source)), int (last_line_width (take (nat offset) source)))"
  using assms by (simp add: getErrorRowCol_def row_col_fold)

lemma last_line_width_le: "lines_before s + last_line_width s \<le> length s"
proof -
  have "last_line_width s \<le> length (filter (\<lambda>c. c \<noteq> CHR 0x0A) s)"
  proof -
    have "last_line_width s \<le> length (takeWhile (\<lambda>c. c \<noteq> CHR 0x0A) (rev s))"
      by (simp add: last_line_width_def)
    also have "\<dots> = length (filter (\<lambda>c. c \<noteq> CHR 0x0A) (takeWhile (\<lambda>c. c \<noteq> CHR 0x0A) (rev s)))"
      by (metis (mono_tags, lifting) filter_True set_takeWhileD)
    also have "\<dots> \<le> length (filter (\<lambda>c. c \<noteq> CHR 0x0A) (rev s))"
      by (metis filter_append le_add1 length_append takeWhile_dropWhile_id)
    finally show ?thesis by (simp flip: rev_filter)
  qed
  moreover have "lines_before s = length (filter (\<lambda>c. c = CHR 0x0A) s)"
    by (induction s) (simp_all add: lines_before_def)
  moreover have "length (filter (\<lambda>c. c = CHR 0x0A) s) + length (filter (\<lambda>c. c \<noteq> CHR 0x0A) s) = length s"
    by (rule sum_length_filter_compl)
  ultimately show ?thesis by linarith
qed

section \<open>What the parser promises\<close>

text \<open>Something to convert: no element of the slices of pointers is nil.\<close>

definition no_null :: "parseable_service \<Rightarrow> bool" where
  "no_null p \<longleftrightarrow>
     (\<forall>x \<in> set (ps_Endpoints p). case x of None \<Rightarrow> False | Some e \<Rightarrow> None \<notin> set (pe_Backend e)) \<and>
     (\<forall>x \<in> set (ps_AsyncAgents p). case x of None \<Rightarrow> False | Some a \<Rightarrow> None \<notin> set (pa_Backend a))"

lemma each_pointer_None:
  "each_pointer f ps = None \<longleftrightarrow> (\<exists>x \<in> set ps. case x of None \<Rightarrow> True | Some p \<Rightarrow> f p = None)"
proof (induction f ps rule: each_pointer.induct)
  case (3 f p ps)
  then show ?case by (cases "f p") auto
qed auto

lemma each_pointer_Some:
  "each_pointer f ps = Some xs \<longleftrightarrow> list_all2 (\<lambda>x y. \<exists>p. x = Some p \<and> f p = Some y) ps xs"
proof (induction f ps arbitrary: xs rule: each_pointer.induct)
  case (3 f p ps)
  then show ?case by (cases "f p") (auto simp: list_all2_Cons1)
qed (auto simp: list_all2_Cons1)

lemma normalize_None: "normalize pd p = None \<longleftrightarrow> \<not> no_null p"
proof -
  have bs: "all_backends bs = None \<longleftrightarrow> None \<in> set bs" for bs
    by (auto simp: all_backends_def each_pointer_None split: option.splits)
  have "each_pointer (endpoint_normalize pd) es = None \<longleftrightarrow>
      \<not> (\<forall>x \<in> set es. case x of None \<Rightarrow> False | Some e \<Rightarrow> None \<notin> set (pe_Backend e))" for es
    by (simp add: each_pointer_None endpoint_normalize_def bs option.case_eq_if)
  note es = this
  have ags: "each_pointer (agent_normalize pd) ags = None \<longleftrightarrow>
      \<not> (\<forall>x \<in> set ags. case x of None \<Rightarrow> False | Some a \<Rightarrow> None \<notin> set (pa_Backend a))" for ags
    by (simp add: each_pointer_None agent_normalize_def bs option.case_eq_if)
  have "normalize pd p = None \<longleftrightarrow> each_pointer (endpoint_normalize pd) (ps_Endpoints p) = None \<or>
      each_pointer (agent_normalize pd) (ps_AsyncAgents p) = None"
    unfolding normalize_def by (cases "each_pointer (endpoint_normalize pd) (ps_Endpoints p)";
        cases "each_pointer (agent_normalize pd) (ps_AsyncAgents p)") simp_all
  then show ?thesis unfolding es ags no_null_def by blast
qed

lemma Init_keeps_flags:
  assumes "Init env s = Inr s'"
  shows "sc_SequentialStart s' = sc_SequentialStart s"
    "sc_AllowInsecureConnections s' = sc_AllowInsecureConnections s"
  using assms
  by (auto simp: Init_def initGlobalParams_def initAsyncAgents_def initEndpoints_def Let_def
      ebind_eq_Inr host_err_Inr split: if_splits)

lemma Init_keeps_endpoints:
  assumes "Init env s = Inr s'"
  shows "length (sc_Endpoints s') = length (sc_Endpoints s)"
  using assms
  by (auto simp: Init_def initGlobalParams_def initAsyncAgents_def initEndpoints_def Let_def
      ebind_eq_Inr host_err_Inr split: if_splits dest: emap_length)

lemma normalize_Some:
  assumes "normalize pd p = Some s"
  shows "length (sc_Endpoints s) = length (ps_Endpoints p) \<and> \<not> sc_SequentialStart s \<and>
    \<not> sc_AllowInsecureConnections s"
  using assms
  by (auto simp: normalize_def obind_eq_Some service_of_def each_pointer_Some
      dest: list_all2_lengthD)

lemma CheckErr_named: "prefix (quoted file) (checked_text (CheckErr read_file err file))"
proof (cases err)
  case (PathError op msg)
  show ?thesis unfolding PathError CheckErr.simps checked_text.simps by simp
next
  case (OtherError msg)
  show ?thesis unfolding OtherError CheckErr.simps checked_text.simps by simp
qed (simp_all only: CheckErr.simps checked_text.simps ParseError_text_def NewParseError_def Let_def
    split_def parse_error.simps prefixI)

lemma checked_init_Inr: "checked_init pv file s = Inr s' \<longleftrightarrow> Init (pv_init pv) s = Inr s'"
  by (simp add: checked_init_def split: sum.split)

lemma checked_init_Inl:
  "checked_init pv file s = Inl e \<Longrightarrow> \<exists>err. e = CheckErr (pv_ReadFile pv) err file"
  by (auto simp: checked_init_def simp del: CheckErr.simps split: sum.splits)

lemma Parse_error:
  assumes "Parse pv file = Some (Inl e)"
  shows "prefix (quoted file) (checked_text e)"
proof -
  have "\<exists>err. e = CheckErr (pv_ReadFile pv) err file"
    using assms checked_init_Inl by (auto simp: Parse_def simp del: CheckErr.simps split: sum.splits)
  then show ?thesis using CheckErr_named by blast
qed

lemma Parse_accepts:
  assumes "Parse pv file = Some (Inr cfg)"
  shows "\<exists>data p s. pv_fileReader pv file = Inr data \<and> pv_Unmarshal pv data = Inr p \<and>
    normalize (pv_ParseDuration pv) p = Some s \<and> Init (pv_init pv) s = Inr cfg"
  using assms by (auto simp: Parse_def checked_init_Inr split: sum.splits)

lemma parsed_ready: "Parse pv file = Some (Inr cfg) \<Longrightarrow> config_ready cfg"
  using Parse_accepts accepted_ready by blast

text \<open>
  C34. What \<open>Parse\<close> returns. A configuration comes from a file that was read and decoded, and it is
  ready to be used, with as many endpoints as the file has; whatever the file says, it does not ask
  for a sequential start nor for insecure connections of the service, which the parser has no
  fields for. An error's text starts with the name of the file. A panic is a JSON null where an
  endpoint, an agent or a backend is expected, and nothing else.
\<close>

theorem Parse_exact:
  "(\<forall>cfg. Parse pv file = Some (Inr cfg) \<longrightarrow>
      (\<exists>data p. pv_fileReader pv file = Inr data \<and> pv_Unmarshal pv data = Inr p \<and> no_null p \<and>
        config_ready cfg \<and> length (sc_Endpoints cfg) = length (ps_Endpoints p) \<and>
        \<not> sc_SequentialStart cfg \<and> \<not> sc_AllowInsecureConnections cfg)) \<and>
   (\<forall>e. Parse pv file = Some (Inl e) \<longrightarrow> prefix (quoted file) (checked_text e)) \<and>
   (Parse pv file = None \<longleftrightarrow>
      (\<exists>data p. pv_fileReader pv file = Inr data \<and> pv_Unmarshal pv data = Inr p \<and> \<not> no_null p))"
proof (intro conjI allI impI)
  fix cfg assume "Parse pv file = Some (Inr cfg)"
  then obtain data p s where p: "pv_fileReader pv file = Inr data" "pv_Unmarshal pv data = Inr p"
    and n: "normalize (pv_ParseDuration pv) p = Some s" and i: "Init (pv_init pv) s = Inr cfg"
    using Parse_accepts by blast
  have "no_null p" using n normalize_None [of "pv_ParseDuration pv" p] by auto
  then show "\<exists>data p. pv_fileReader pv file = Inr data \<and> pv_Unmarshal pv data = Inr p \<and> no_null p \<and>
      config_ready cfg \<and> length (sc_Endpoints cfg) = length (ps_Endpoints p) \<and>
      \<not> sc_SequentialStart cfg \<and> \<not> sc_AllowInsecureConnections cfg"
    using p normalize_Some [OF n] Init_keeps_flags [OF i] Init_keeps_endpoints [OF i]
      accepted_ready [OF i] by auto
next
  fix e assume "Parse pv file = Some (Inl e)"
  then show "prefix (quoted file) (checked_text e)"
    by (rule Parse_error)
qed (auto simp: Parse_def normalize_None split: sum.splits)

text \<open>
  C35. Where an error is. A document that does not decode gives a \<open>ParseError\<close> with the decoder's
  offset, as row the number of line ends before it and as column the number of bytes since the last
  of them, CR not counted; row and column never exceed the offset. (The file is read a second time
  for this, by \<open>os.ReadFile\<close>, whatever reader the parser was given.)
\<close>

theorem error_located:
  assumes "pv_fileReader pv file = Inr data" and "pv_ReadFile pv file = Inr data"
    and "pv_Unmarshal pv data = Inl e" and "e = SyntaxError msg off \<or> e = UnmarshalTypeError msg off"
    and "0 \<le> off" and "off \<le> int (length data)"
  shows "\<exists>p :: parse_error. Parse pv file = Some (Inl (Located p)) \<and> pr_ConfigFile p = file \<and>
    pr_Offset p = off \<and> pr_Err p = msg \<and>
    pr_Row p = int (lines_before (take (nat off) data)) \<and>
    pr_Col p = int (last_line_width (take (nat off) data)) \<and> pr_Row p + pr_Col p \<le> off"
proof -
  have "Parse pv file = Some (Inl (Located (NewParseError (pv_ReadFile pv) msg file off)))"
    using assms(1,3,4) by (auto simp: Parse_def)
  moreover have "int (lines_before (take (nat off) data)) +
      int (last_line_width (take (nat off) data)) \<le> off"
    using last_line_width_le [of "take (nat off) data"] assms(5,6) by simp
  ultimately show ?thesis
    using assms(2) getErrorRowCol_exact [OF assms(5,6)] by (simp add: NewParseError_def)
qed

section \<open>A parser\<close>

definition empty_document :: parseable_service where
  "empty_document =
     \<lparr>ps_Name = [], ps_Endpoints = [], ps_AsyncAgents = [], ps_Timeout = [], ps_CacheTTL = [],
      ps_Host = [], ps_Port = 0, ps_Address = [], ps_Version = 3, ps_ExtraConfig = None,
      ps_ReadTimeout = [], ps_WriteTimeout = [], ps_IdleTimeout = [], ps_ReadHeaderTimeout = [],
      ps_MaxHeaderBytes = 0, ps_DisableKeepAlives = False, ps_DisableCompression = False,
      ps_DisableStrictREST = False, ps_MaxIdleConns = 0, ps_MaxIdleConnsPerHost = 0,
      ps_IdleConnTimeout = [], ps_ResponseHeaderTimeout = [], ps_ExpectContinueTimeout = [],
      ps_OutputEncoding = [], ps_DialerTimeout = [], ps_DialerFallbackDelay = [],
      ps_DialerKeepAlive = [], ps_Debug = False, ps_Echo = False, ps_Plugin = None, ps_TLS = None,
      ps_ClientTLS = None, ps_UseH2C = False, ps_DNSCacheTTL = [], ps_MaxShutdownDuration = []\<rparr>"

text \<open>A decoder that knows the documents \<open>v3\<close> and fails at offset 4 of any other.\<close>

definition sample_parser :: parser_env where
  "sample_parser =
     \<lparr>pv_fileReader = Inr, pv_ReadFile = Inr,
      pv_Unmarshal = (\<lambda>d. if d = ''v3'' then Inr empty_document else Inl (SyntaxError ''bad'' 4)),
      pv_ParseDuration = (\<lambda>_. None), pv_init = sample_init_env\<rparr>"

theorem Parse_exact_witness:
  "\<exists>cfg. Parse sample_parser ''v3'' = Some (Inr cfg) \<and> config_ready cfg \<and> \<not> sc_SequentialStart cfg"
proof -
  have "Parse sample_parser ''v3'' \<noteq> None \<and> \<not> isl (the (Parse sample_parser ''v3''))" by code_simp
  then obtain cfg where "Parse sample_parser ''v3'' = Some (Inr cfg)" by (cases "the (Parse sample_parser ''v3'')") auto
  then show ?thesis using Parse_exact [of sample_parser "''v3''"] by blast
qed

text \<open>Offset 4 of the bytes a, LF, b, CR, c: one line end before it, and one byte that counts.\<close>

theorem error_located_witness:
  "\<exists>p :: parse_error.
     Parse sample_parser [CHR ''a'', CHR 0x0A, CHR ''b'', CHR 0x0D, CHR ''c''] = Some (Inl (Located p)) \<and>
     pr_Row p = 1 \<and> pr_Col p = 1"
  using error_located [of sample_parser "[CHR ''a'', CHR 0x0A, CHR ''b'', CHR 0x0D, CHR ''c'']"
      "[CHR ''a'', CHR 0x0A, CHR ''b'', CHR 0x0D, CHR ''c'']" "SyntaxError ''bad'' 4" "''bad''" 4]
  by (auto simp: sample_parser_def lines_before_def last_line_width_def)

end
