(* ===== verification/Router_Request.thy ===== *)
theory Router_Request
  imports Proxy_Http Go_Query
begin

text \<open>
  How the routers turn an HTTP request into a proxy request: \<open>NewRequestBuilder\<close> and \<open>clientIP\<close> of
  \<open>router/mux/endpoint.go\<close>, \<open>NewRequest\<close> of \<open>router/gin/endpoint.go\<close>. The two are separate pieces of
  code that have to agree.
\<close>

section \<open>The request of the server\<close>

text \<open>
  What the server hands to a handler; \<open>ir_RawQuery\<close> is the query text of the URL, the header map has
  canonical keys.
\<close>

record http_in =
  ir_Method :: string
  ir_Path :: string
  ir_RawQuery :: string
  ir_RequestURI :: string
  ir_User :: string
  ir_Fragment :: string
  ir_Host :: string
  ir_RemoteAddr :: string
  ir_Header :: "string list gmap"
  ir_Body :: "string option"

text \<open>\<open>URL.Query()\<close>: the pairs of the query text, gathered by name.\<close>

definition url_Query :: "string \<Rightarrow> string list gmap" where
  "url_Query text =
     fold (\<lambda>(k, v) m. mput k ((case map_of m k of None \<Rightarrow> [] | Some vs \<Rightarrow> vs) @ [v]) m)
       (ParseQuery text) []"

lemma values_of_mput [gmap_simps]: "values_of (mput k vs m) x = (if x = k then vs else values_of m x)"
  by (simp add: values_of_def map_of_mput)

lemma values_of_None: "map_of m k = None \<Longrightarrow> values_of m k = []"
  and values_of_Some: "map_of m k = Some vs \<Longrightarrow> values_of m k = vs"
  by (simp_all add: values_of_def)

lemma url_Query_lookup: "values_of (url_Query text) k = read_values text k"
proof -
  have "values_of (fold (\<lambda>(k, v) m. mput k ((case map_of m k of None \<Rightarrow> [] | Some vs \<Rightarrow> vs) @ [v]) m) kvs m) k =
      values_of m k @ map snd (filter (\<lambda>kv. fst kv = k) kvs)" for kvs m
    by (induction kvs arbitrary: m) (auto simp: values_of_def gmap_simps split: option.split)
  from this [of "ParseQuery text" "[]"] show ?thesis
    by (simp add: url_Query_def read_values_def values_of_def)
qed

lemma url_Query_not_empty: "map_of (url_Query text) k = Some vs \<Longrightarrow> vs \<noteq> []"
proof -
  have "(\<forall>k vs. map_of m k = Some vs \<longrightarrow> vs \<noteq> []) \<Longrightarrow>
      map_of (fold (\<lambda>(k, v) m. mput k ((case map_of m k of None \<Rightarrow> [] | Some vs \<Rightarrow> vs) @ [v]) m) kvs m) k = Some vs \<Longrightarrow>
      vs \<noteq> []" for kvs m
  proof (induction kvs arbitrary: m)
    case (Cons kv kvs)
    show ?case
      by (rule Cons.IH [OF _ Cons.prems(2) [simplified]])
        (use Cons.prems(1) in \<open>cases kv; auto simp: gmap_simps split: if_splits\<close>)
  qed simp
  from this [of "[]" "ParseQuery text"] show "map_of (url_Query text) k = Some vs \<Longrightarrow> vs \<noteq> []"
    by (simp add: url_Query_def)
qed

section \<open>What both routers forward\<close>

abbreviation requestParamsAsterisk :: string where "requestParamsAsterisk \<equiv> ''*''"

abbreviation server_HeadersToSend :: "string list" where "server_HeadersToSend \<equiv> [''Content-Type'']"

text \<open>The loop over the headers to send; the asterisk takes the whole map and ends it.\<close>

fun forward_headers :: "string list gmap \<Rightarrow> string list \<Rightarrow> string list gmap \<Rightarrow> string list gmap" where
  "forward_headers H [] headers = headers"
| "forward_headers H (k # ks) headers =
     (if k = requestParamsAsterisk then H
      else
        (case map_of H (CanonicalMIMEHeaderKey k) of
           Some h \<Rightarrow> forward_headers H ks (mput k h headers)
         | None \<Rightarrow> forward_headers H ks headers))"

text \<open>The loop over the query strings, in the same way.\<close>

fun forward_query :: "string list gmap \<Rightarrow> string list \<Rightarrow> string list gmap \<Rightarrow> string list gmap" where
  "forward_query Q [] query = query"
| "forward_query Q (s # ss) query =
     (if s = requestParamsAsterisk then Q
      else
        (case map_of Q s of
           Some v \<Rightarrow> forward_query Q ss (if length v > 0 then mput s v query else query)
         | None \<Rightarrow> forward_query Q ss query))"

text \<open>\<open>agent\<close> is the user agent of the gateway.\<close>

definition set_identity ::
  "string list \<Rightarrow> string \<Rightarrow> string \<Rightarrow> string list gmap \<Rightarrow> string list gmap" where
  "set_identity agent ip host headers =
     (let headers = mput ''X-Forwarded-Host'' [host] (mput ''X-Forwarded-For'' [ip] headers) in
      if map_of headers ''User-Agent'' = None then mput ''User-Agent'' agent headers
      else mput ''X-Forwarded-Via'' agent headers)"

section \<open>The mux router\<close>

definition is_space :: "char \<Rightarrow> bool" where
  "is_space c \<longleftrightarrow> c = CHR '' '' \<or> (9 \<le> (of_char c :: nat) \<and> (of_char c :: nat) \<le> 13)"

definition TrimSpace :: "string \<Rightarrow> string" where
  "TrimSpace s = rev (dropWhile is_space (rev (dropWhile is_space s)))"

text \<open>\<open>split_host\<close> is the host \<open>net.SplitHostPort\<close> finds in an address.\<close>

definition clientIP :: "(string \<Rightarrow> string option) \<Rightarrow> http_in \<Rightarrow> string" where
  "clientIP split_host r =
     (let ip = TrimSpace (hd (split_on (CHR '','') (header_get (ir_Header r) ''X-Forwarded-For'')));
          ip = (if ip = [] then TrimSpace (header_get (ir_Header r) ''X-Real-Ip'') else ip) in
      if ip \<noteq> [] then ip
      else if header_get (ir_Header r) ''X-Appengine-Remote-Addr'' \<noteq> []
      then header_get (ir_Header r) ''X-Appengine-Remote-Addr''
      else
        (case split_host (TrimSpace (ir_RemoteAddr r)) of Some ip \<Rightarrow> ip | None \<Rightarrow> []))"

definition NewRequestBuilder ::
  "(http_in \<Rightarrow> string gmap) \<Rightarrow> (string \<Rightarrow> string option) \<Rightarrow> string list \<Rightarrow> http_in \<Rightarrow> string list \<Rightarrow>
     string list \<Rightarrow> request" where
  "NewRequestBuilder paramExtractor split_host agent r queryString headersToSend =
     \<lparr>rq_Method = ir_Method r, rq_URL = None,
      rq_Query = Some (forward_query (url_Query (ir_RawQuery r)) queryString []),
      rq_Path = ir_Path r, rq_Body = ir_Body r, rq_Params = paramExtractor r,
      rq_Headers = set_identity agent (clientIP split_host r) (ir_Host r)
        (forward_headers (ir_Header r) headersToSend [])\<rparr>"

definition NoopParamExtractor :: "http_in \<Rightarrow> string gmap" where
  "NoopParamExtractor r = []"

section \<open>The gin router\<close>

text \<open>The parameters of the route get their first letter in upper case; \<open>ip\<close> is \<open>c.ClientIP()\<close>.\<close>

definition gin_params :: "(string \<times> string) list \<Rightarrow> string gmap" where
  "gin_params ps =
     fold (\<lambda>(k, v). mput (CanonicalMIMEHeaderKey (take 1 k) @ drop 1 k) v) ps []"

definition gin_NewRequest ::
  "string list \<Rightarrow> string list \<Rightarrow> (string \<times> string) list \<Rightarrow> string \<Rightarrow> http_in \<Rightarrow> string list \<Rightarrow> request" where
  "gin_NewRequest agent headersToSend ps ip r queryString =
     (let headersToSend = (if headersToSend = [] then server_HeadersToSend else headersToSend) in
      \<lparr>rq_Method = ir_Method r, rq_URL = None,
       rq_Query = Some (forward_query (url_Query (ir_RawQuery r)) queryString []),
       rq_Path = ir_Path r, rq_Body = ir_Body r, rq_Params = gin_params ps,
       rq_Headers = set_identity agent ip (ir_Host r)
         (forward_headers (ir_Header r) headersToSend [])\<rparr>)"

section \<open>What gets through\<close>

lemma forward_headers_lookup:
  "requestParamsAsterisk \<notin> set ks \<Longrightarrow>
   map_of (forward_headers H ks headers) k =
     (if k \<in> set ks \<and> map_of H (CanonicalMIMEHeaderKey k) \<noteq> None
      then map_of H (CanonicalMIMEHeaderKey k) else map_of headers k)"
  by (induction H ks headers rule: forward_headers.induct) (auto simp: gmap_simps split: option.splits)

lemma forward_headers_all: "requestParamsAsterisk \<in> set ks \<Longrightarrow> forward_headers H ks headers = H"
  by (induction H ks headers rule: forward_headers.induct) (auto split: option.splits)

lemma forward_query_lookup:
  "requestParamsAsterisk \<notin> set ss \<Longrightarrow>
   values_of (forward_query Q ss query) k =
     (if k \<in> set ss \<and> values_of Q k \<noteq> [] then values_of Q k else values_of query k)"
proof (induction Q ss query rule: forward_query.induct)
  case (2 Q s ss query)
  then show ?case
    by (cases "map_of Q s")
      (auto simp: gmap_simps values_of_None values_of_Some simp flip: length_greater_0_conv)
qed simp

lemma forward_query_all: "requestParamsAsterisk \<in> set ss \<Longrightarrow> forward_query Q ss query = Q"
  by (induction Q ss query rule: forward_query.induct) (auto split: option.splits)

lemma set_identity_lookup:
  "map_of (set_identity agent ip host headers) k =
     (if k = ''X-Forwarded-For'' then Some [ip]
      else if k = ''X-Forwarded-Host'' then Some [host]
      else if map_of headers ''User-Agent'' = None
      then (if k = ''User-Agent'' then Some agent else map_of headers k)
      else (if k = ''X-Forwarded-Via'' then Some agent else map_of headers k))"
  by (auto simp: set_identity_def Let_def gmap_simps)

end
