(* ===== verification/Router_Mux.thy ===== *)
theory Router_Mux
  imports Router_Request
begin

text \<open>
  The router over \<open>net/http\<close>: the handler of an endpoint (\<open>router/mux/endpoint.go\<close>), the renders
  (\<open>render.go\<close>), the engine that dispatches by pattern and method (\<open>engine.go\<close>) and the
  registration of the endpoints (\<open>router.go\<close>).

  \<open>mux_env\<close> holds the parameters: the version of the gateway, \<open>json.Marshal\<close>, the translation of
  errors to status codes, \<open>net.SplitHostPort\<close>, and the renders other packages registered.
\<close>

section \<open>The response writer\<close>

text \<open>
  \<open>wr_Sent\<close> is the status and the headers once they are sent. \<open>wr_Once\<close> is \<^const>\<open>None\<close> for a plain
  writer; for the engine's \<open>HTTPErrorInterceptor\<close> it says whether it has seen a status already. Only
  \<open>WriteHeader\<close> goes through the interceptor; \<open>Write\<close> sends an implicit 200 below it.
\<close>

record writer =
  wr_Header :: "string list gmap"
  wr_Sent :: "(int \<times> string list gmap) option"
  wr_Body :: string
  wr_Once :: "bool option"

definition new_writer :: "bool option \<Rightarrow> writer" where
  "new_writer once = \<lparr>wr_Header = [], wr_Sent = None, wr_Body = [], wr_Once = once\<rparr>"

definition hset :: "string \<Rightarrow> string \<Rightarrow> writer \<Rightarrow> writer" where
  "hset k v w = w\<lparr>wr_Header := mput (CanonicalMIMEHeaderKey k) [v] (wr_Header w)\<rparr>"

definition hadd :: "string \<Rightarrow> string \<Rightarrow> writer \<Rightarrow> writer" where
  "hadd k v w =
     (let c = CanonicalMIMEHeaderKey k in
      w\<lparr>wr_Header := mput c
        ((case map_of (wr_Header w) c of None \<Rightarrow> [] | Some vs \<Rightarrow> vs) @ [v]) (wr_Header w)\<rparr>)"

definition hadd_all :: "string list gmap \<Rightarrow> writer \<Rightarrow> writer" where
  "hadd_all hs w = fold (\<lambda>(k, vs). fold (hadd k) vs) hs w"

abbreviation CompleteResponseHeaderName :: string where
  "CompleteResponseHeaderName \<equiv> ''X-Krakend-Completed''"

definition send :: "int \<Rightarrow> writer \<Rightarrow> writer" where
  "send code w = (if wr_Sent w = None then w\<lparr>wr_Sent := Some (code, wr_Header w)\<rparr> else w)"

definition WriteHeader :: "int \<Rightarrow> writer \<Rightarrow> writer" where
  "WriteHeader code w =
     send code
       (if wr_Once w = Some False
        then (if code \<noteq> 200 then hset CompleteResponseHeaderName ''false'' w else w)\<lparr>wr_Once := Some True\<rparr>
        else w)"

definition put_body :: "string \<Rightarrow> writer \<Rightarrow> writer" where
  "put_body b w = w\<lparr>wr_Body := wr_Body w @ b\<rparr>"

definition Write :: "string \<Rightarrow> writer \<Rightarrow> writer" where
  "Write b w = put_body b (send 200 w)"

text \<open>\<open>http.Error\<close>.\<close>

definition http_Error :: "string \<Rightarrow> int \<Rightarrow> writer \<Rightarrow> writer" where
  "http_Error msg code w =
     (let w = w\<lparr>wr_Header := mdel ''Content-Length'' (wr_Header w)\<rparr>;
          w = hset ''Content-Type'' ''text/plain; charset=utf-8'' w;
          w = hset ''X-Content-Type-Options'' ''nosniff'' w in
      Write (msg @ [CHR 0x0A]) (WriteHeader code w))"

text \<open>What the client gets when the handler ends.\<close>

definition reply :: "writer \<Rightarrow> int \<times> string list gmap \<times> string" where
  "reply w =
     (case wr_Sent w of
        None \<Rightarrow> (200, wr_Header w, wr_Body w)
      | Some (code, hs) \<Rightarrow> (code, hs, wr_Body w))"

section \<open>Renders\<close>

datatype render = jsonRender | jsonCollectionRender | stringRender | noopRender | CustomRender string

record mux_env =
  mx_version :: string
  mx_json :: "value \<Rightarrow> go_err + string"
  mx_errF :: "go_err \<Rightarrow> int"
  mx_split_host :: "string \<Rightarrow> string option"
  mx_custom :: "string \<Rightarrow> response option \<Rightarrow> writer \<Rightarrow> writer"

definition renderRegister :: "render gmap" where
  "renderRegister =
     [(''string'', stringRender), (''json'', jsonRender), (''no-op'', noopRender),
      (''json-collection'', jsonCollectionRender)]"

definition RegisterRender :: "string \<Rightarrow> render \<Rightarrow> render gmap \<Rightarrow> render gmap" where
  "RegisterRender name r reg = mput name r reg"

definition getWithFallback :: "render gmap \<Rightarrow> string \<Rightarrow> render \<Rightarrow> render" where
  "getWithFallback reg key fallback = (case map_of reg key of None \<Rightarrow> fallback | Some r \<Rightarrow> r)"

definition getRender :: "render gmap \<Rightarrow> endpoint_config \<Rightarrow> render" where
  "getRender reg cfg =
     (let fallback = jsonRender;
          fallback = (if length (ep_Backend cfg) = 1
                      then getWithFallback reg (be_Encoding (ep_Backend cfg ! 0)) fallback
                      else fallback) in
      if ep_OutputEncoding cfg = [] then fallback
      else getWithFallback reg (ep_OutputEncoding cfg) fallback)"

definition write_json :: "mux_env \<Rightarrow> value \<Rightarrow> writer \<Rightarrow> writer" where
  "write_json env v w =
     (case mx_json env v of
        Inl err \<Rightarrow> http_Error (err_text err) 500 w
      | Inr js \<Rightarrow> Write js w)"

text \<open>The data of a response as JSON sees it: a nil map is null.\<close>

definition data_value :: "response \<Rightarrow> value" where
  "data_value r = (case rs_Data r of None \<Rightarrow> VNil | Some m \<Rightarrow> VObj m)"

fun run_render :: "mux_env \<Rightarrow> render \<Rightarrow> response option \<Rightarrow> writer \<Rightarrow> writer" where
  "run_render env jsonRender resp w =
     (let w = hset ''Content-Type'' ''application/json'' w in
      case resp of
        None \<Rightarrow> Write ''{}'' w
      | Some r \<Rightarrow> write_json env (data_value r) w)"
| "run_render env jsonCollectionRender resp w =
     (let w = hset ''Content-Type'' ''application/json'' w in
      case resp of
        None \<Rightarrow> Write ''[]'' w
      | Some r \<Rightarrow>
          (case map_of (data_of r) ''collection'' of
             None \<Rightarrow> Write ''[]'' w
           | Some col \<Rightarrow> write_json env col w))"
| "run_render env stringRender resp w =
     (let w = hset ''Content-Type'' ''text/plain'' w in
      case resp of
        None \<Rightarrow> Write [] w
      | Some r \<Rightarrow>
          (case obind (map_of (data_of r) ''content'') as_str of
             None \<Rightarrow> Write [] w
           | Some msg \<Rightarrow> Write msg w))"
| "run_render env noopRender resp w =
     (case resp of
        None \<Rightarrow> http_Error [] 500 w
      | Some r \<Rightarrow>
          (let w = hadd_all (rs_Headers r) w;
               w = (if rs_StatusCode r \<noteq> 0 then WriteHeader (rs_StatusCode r) w else w) in
           case rs_Io r of
             None \<Rightarrow> w
           | Some rd \<Rightarrow> if fst rd = [] then w else Write (fst rd) w))"
| "run_render env (CustomRender name) resp w = mx_custom env name resp w"

section \<open>The handler of an endpoint\<close>

text \<open>\<open>StatusCode()\<close> of the errors that have it.\<close>

fun error_status :: "go_err \<Rightarrow> int option" where
  "error_status (EHTTP e) = Some (he_Code e)"
| "error_status (ENamedHTTP e _) = Some (he_Code e)"
| "error_status _ = None"

text \<open>\<open>int(d.Seconds())\<close>: whole seconds, towards zero.\<close>

definition whole_seconds :: "int \<Rightarrow> int" where
  "whole_seconds d = d sdiv Second"

definition cache_value :: "endpoint_config \<Rightarrow> string" where
  "cache_value cfg = ''public, max-age='' @ itoa (whole_seconds (ep_CacheTTL cfg))"

text \<open>The handler sets a header for the outcome and renders it; the error is \<open>ErrInternalError\<close> when the context ended.\<close>

definition final_error :: "go_err option \<Rightarrow> go_err option \<Rightarrow> go_err option" where
  "final_error cerr err = (if cerr \<noteq> None \<and> err = None then Some EInternal else err)"

definition has_data :: "response option \<Rightarrow> bool" where
  "has_data resp = (case resp of None \<Rightarrow> False | Some r \<Rightarrow> data_of r \<noteq> [])"

definition respond ::
  "mux_env \<Rightarrow> render \<Rightarrow> endpoint_config \<Rightarrow> response option \<Rightarrow> go_err option \<Rightarrow> writer \<Rightarrow> writer" where
  "respond env rd cfg resp err w =
     (case resp of
        Some r \<Rightarrow>
          if data_of r \<noteq> [] then
            (let w = (if rs_IsComplete r
                      then (let w = hset CompleteResponseHeaderName ''true'' w in
                            if ep_CacheTTL cfg \<noteq> 0 then hset ''Cache-Control'' (cache_value cfg) w else w)
                      else hset CompleteResponseHeaderName ''false'' w) in
             run_render env rd resp (hadd_all (rs_Headers r) w))
          else
            (let w = hset CompleteResponseHeaderName ''false'' w in
             case err of
               None \<Rightarrow> run_render env rd resp w
             | Some e \<Rightarrow>
                 http_Error (err_text e)
                   (case error_status e of Some c \<Rightarrow> c | None \<Rightarrow> mx_errF env e) w)
      | None \<Rightarrow>
          (let w = hset CompleteResponseHeaderName ''false'' w in
           case err of
             None \<Rightarrow> run_render env rd None w
           | Some e \<Rightarrow>
               http_Error (err_text e)
                 (case error_status e of Some c \<Rightarrow> c | None \<Rightarrow> mx_errF env e) w))"

text \<open>A handler gives the writer and the world, or panics.\<close>

datatype 'a served = Served writer "'a world_scheme" | ServePanic string

type_synonym 'a handler = "writer \<Rightarrow> http_in \<Rightarrow> ctx \<Rightarrow> 'a world_scheme \<Rightarrow> 'a served"

definition headers_to_send :: "endpoint_config \<Rightarrow> string list" where
  "headers_to_send cfg =
     (if ep_HeadersToPass cfg = [] then server_HeadersToSend else ep_HeadersToPass cfg)"

definition CustomEndpointHandlerWithHTTPError ::
  "mux_env \<Rightarrow> render gmap \<Rightarrow> (http_in \<Rightarrow> string list \<Rightarrow> string list \<Rightarrow> request) \<Rightarrow> endpoint_config \<Rightarrow>
     'a proxy \<Rightarrow> 'a handler" where
  "CustomEndpointHandlerWithHTTPError env reg rb configuration prxy w r ctx world =
     (let rd = getRender reg configuration;
          headersToSend = headers_to_send configuration;
          w = hset ''X-KRAKEND'' (''Version '' @ mx_version env) w in
      if ir_Method r \<noteq> to_upper (ep_Method configuration) then
        Served (http_Error [] 405 (hset CompleteResponseHeaderName ''false'' w)) world
      else
        (let requestCtx = with_timeout ctx (ep_Timeout configuration) world in
         case prxy requestCtx (rb r (ep_QueryString configuration) headersToSend) world of
           (Panic s, _, _) \<Rightarrow> ServePanic s
         | (Ret resp err, _, world') \<Rightarrow>
             Served (respond env rd configuration resp (final_error (ctx_err requestCtx world') err) w)
               world'))"

definition EndpointHandler ::
  "mux_env \<Rightarrow> render gmap \<Rightarrow> endpoint_config \<Rightarrow> 'a proxy \<Rightarrow> 'a handler" where
  "EndpointHandler env reg configuration prxy =
     CustomEndpointHandlerWithHTTPError env reg
       (NewRequestBuilder NoopParamExtractor (mx_split_host env) [''KrakenD Version '' @ mx_version env])
       configuration prxy"

section \<open>The service handlers\<close>

definition json_reply :: "string \<Rightarrow> writer \<Rightarrow> writer" where
  "json_reply js w = Write js (hset ''Content-Type'' ''application/json'' w)"

definition HealthHandler :: "'a handler" where
  "HealthHandler w r ctx world = Served (json_reply ''{\"status\":\"ok\"}'' w) world"

definition DebugHandler :: "'a handler" where
  "DebugHandler w r ctx world = Served (json_reply ''{\"message\":\"pong\"}'' w) world"

definition echoResponse :: "http_in \<Rightarrow> value" where
  "echoResponse r =
     VObj [(''req_uri'', VStr (ir_RequestURI r)),
       (''req_uri_details'', VObj [(''user'', VStr (ir_User r)), (''host'', VStr (ir_Host r)),
         (''path'', VStr (ir_Path r)), (''query'', VStr (Encode (url_Query (ir_RawQuery r)))),
         (''fragment'', VStr (ir_Fragment r))]),
       (''req_method'', VStr (ir_Method r)),
       (''req_querystring'',
         VObj (map (\<lambda>(k, vs). (k, VArr (map VStr vs))) (url_Query (ir_RawQuery r)))),
       (''req_body'', VStr (case ir_Body r of None \<Rightarrow> [] | Some b \<Rightarrow> b)),
       (''req_headers'', VObj (map (\<lambda>(k, vs). (k, VArr (map VStr vs))) (ir_Header r)))]"

definition EchoHandler :: "mux_env \<Rightarrow> 'a handler" where
  "EchoHandler env w r ctx world =
     Served
       (case mx_json env (echoResponse r) of
          Inl _ \<Rightarrow> WriteHeader 500 w
        | Inr js \<Rightarrow> json_reply js w) world"

section \<open>The engine\<close>

text \<open>
  Handlers by pattern and method. Which of the registered patterns a request matches, or the reply of
  the multiplexer itself (not found, a redirection), is \<open>http.ServeMux\<close>, a parameter.
\<close>

type_synonym 'a engine = "'a handler gmap gmap"

datatype mux_match = Matched string | MuxReply int string

definition DefaultEngine :: "'a engine" where
  "DefaultEngine = []"

definition Handle :: "string \<Rightarrow> string \<Rightarrow> 'a handler \<Rightarrow> 'a engine \<Rightarrow> 'a engine" where
  "Handle pattern m h e =
     mput pattern (mput m h (case map_of e pattern of None \<Rightarrow> [] | Some hs \<Rightarrow> hs)) e"

definition engine_handler :: "'a engine \<Rightarrow> string \<Rightarrow> string \<Rightarrow> 'a handler option" where
  "engine_handler e pattern m = obind (map_of e pattern) (\<lambda>hs. map_of hs m)"

definition registrableHandler :: "'a engine \<Rightarrow> string \<Rightarrow> 'a handler" where
  "registrableHandler e pattern rw req ctx world =
     (case engine_handler e pattern (ir_Method req) of
        Some h \<Rightarrow> h rw req ctx world
      | None \<Rightarrow> Served (http_Error [] 405 (hset CompleteResponseHeaderName ''false'' rw)) world)"

text \<open>\<open>NewHTTPErrorInterceptor\<close> and the dispatch.\<close>

definition NewHTTPErrorInterceptor :: "writer \<Rightarrow> writer" where
  "NewHTTPErrorInterceptor w = w\<lparr>wr_Once := Some False\<rparr>"

definition ServeHTTP :: "(string list \<Rightarrow> http_in \<Rightarrow> mux_match) \<Rightarrow> 'a engine \<Rightarrow> 'a handler" where
  "ServeHTTP match e w r ctx world =
     (let w = NewHTTPErrorInterceptor w in
      case match (keys e) r of
        Matched pattern \<Rightarrow> registrableHandler e pattern w r ctx world
      | MuxReply code msg \<Rightarrow> Served (http_Error msg code w) world)"

section \<open>The router\<close>

text \<open>\<open>IsValidSequentialEndpoint\<close> of \<open>router/helper.go\<close> accepts every endpoint.\<close>

definition IsValidSequentialEndpoint :: "endpoint_config \<Rightarrow> bool" where
  "IsValidSequentialEndpoint endpoint = True"

definition supported_methods :: "string list" where
  "supported_methods = [''GET'', ''POST'', ''PUT'', ''PATCH'', ''DELETE'']"

text \<open>
  The router registers with whatever engine it is given: \<open>add\<close> is the engine's method \<open>Handle\<close>, \<open>pf\<close>
  the proxy factory and \<open>hf\<close> the handler factory.
\<close>

definition registerKrakendEndpoint ::
  "(string \<Rightarrow> string \<Rightarrow> 'h \<Rightarrow> 'e \<Rightarrow> 'e) \<Rightarrow> string \<Rightarrow> endpoint_config \<Rightarrow> 'h \<Rightarrow> nat \<Rightarrow> 'e \<Rightarrow> 'e" where
  "registerKrakendEndpoint add meth endpoint h totBackends e =
     (let m = to_upper meth in
      if m \<noteq> ''GET'' \<and> totBackends > 1 \<and> \<not> IsValidSequentialEndpoint endpoint then e
      else if m \<notin> set supported_methods then e
      else add (ep_Endpoint endpoint) m h e)"

definition register_one ::
  "(string \<Rightarrow> string \<Rightarrow> 'h \<Rightarrow> 'e \<Rightarrow> 'e) \<Rightarrow> (endpoint_config \<Rightarrow> go_err + 'p) \<Rightarrow>
     (endpoint_config \<Rightarrow> 'p \<Rightarrow> 'h) \<Rightarrow> endpoint_config \<Rightarrow> 'e \<Rightarrow> 'e" where
  "register_one add pf hf c e =
     (case pf c of
        Inl _ \<Rightarrow> e
      | Inr proxyStack \<Rightarrow>
          registerKrakendEndpoint add (ep_Method c) c (hf c proxyStack) (length (ep_Backend c)) e)"

definition registerKrakendEndpoints ::
  "(string \<Rightarrow> string \<Rightarrow> 'h \<Rightarrow> 'e \<Rightarrow> 'e) \<Rightarrow> (endpoint_config \<Rightarrow> go_err + 'p) \<Rightarrow>
     (endpoint_config \<Rightarrow> 'p \<Rightarrow> 'h) \<Rightarrow> endpoint_config list \<Rightarrow> 'e \<Rightarrow> 'e" where
  "registerKrakendEndpoints add pf hf endpoints e = fold (register_one add pf hf) endpoints e"

definition all_methods :: "string list" where
  "all_methods =
     [''GET'', ''POST'', ''PUT'', ''PATCH'', ''DELETE'', ''HEAD'', ''OPTIONS'', ''CONNECT'', ''TRACE'']"

text \<open>The patterns of a router's configuration, and the default \<open>NewFactory\<close> gives.\<close>

record mux_patterns =
  mp_Debug :: string
  mp_Echo :: string

definition mux_DefaultConfig :: mux_patterns where
  "mux_DefaultConfig = \<lparr>mp_Debug = ''/__debug/'', mp_Echo = ''/__echo/''\<rparr>"

definition NewFactory :: "mux_patterns \<Rightarrow> mux_patterns" where
  "NewFactory cfg = (if mp_Debug cfg = [] then cfg\<lparr>mp_Debug := ''/__debug/''\<rparr> else cfg)"

text \<open>The routes of \<open>Run\<close>; running the server is not part of the model.\<close>

definition Run_routes ::
  "(string \<Rightarrow> string \<Rightarrow> 'a handler \<Rightarrow> 'e \<Rightarrow> 'e) \<Rightarrow> mux_env \<Rightarrow> mux_patterns \<Rightarrow>
     (endpoint_config \<Rightarrow> go_err + 'a proxy) \<Rightarrow> (endpoint_config \<Rightarrow> 'a proxy \<Rightarrow> 'a handler) \<Rightarrow>
     service_config \<Rightarrow> 'e \<Rightarrow> 'e" where
  "Run_routes add env patterns pf hf cfg e =
     (let e = (if sc_Debug cfg
               then fold (\<lambda>m. add (mp_Debug patterns) m DebugHandler) all_methods e else e);
          e = (if sc_Echo cfg
               then fold (\<lambda>m. add (mp_Echo patterns) m (EchoHandler env)) all_methods e else e);
          e = add ''/__health'' ''GET'' HealthHandler e in
      registerKrakendEndpoints add pf hf (sc_Endpoints cfg) e)"

text \<open>\<open>handler\<close>: the middlewares of the configuration around the engine, the last outermost.\<close>

definition httpRouter_handler :: "('h \<Rightarrow> 'h) list \<Rightarrow> 'h \<Rightarrow> 'h" where
  "httpRouter_handler middlewares h = fold (\<lambda>m. m) middlewares h"

section \<open>Dispatch\<close>

text \<open>The routes of a list of endpoints: those whose proxy is built and whose method is supported.\<close>

definition route_of ::
  "(endpoint_config \<Rightarrow> go_err + 'p) \<Rightarrow> (endpoint_config \<Rightarrow> 'p \<Rightarrow> 'h) \<Rightarrow> endpoint_config \<Rightarrow>
     ((string \<times> string) \<times> 'h) list" where
  "route_of pf hf c =
     (case pf c of
        Inl _ \<Rightarrow> []
      | Inr p \<Rightarrow>
          if to_upper (ep_Method c) \<in> set supported_methods
          then [((ep_Endpoint c, to_upper (ep_Method c)), hf c p)] else [])"

abbreviation routes_of ::
  "(endpoint_config \<Rightarrow> go_err + 'p) \<Rightarrow> (endpoint_config \<Rightarrow> 'p \<Rightarrow> 'h) \<Rightarrow> endpoint_config list \<Rightarrow>
     ((string \<times> string) \<times> 'h) list" where
  "routes_of pf hf cs \<equiv> concat (map (route_of pf hf) cs)"

lemma register_routes:
  "registerKrakendEndpoints add pf hf cs e = fold (\<lambda>((p, m), h). add p m h) (routes_of pf hf cs) e"
proof (induction cs arbitrary: e)
  case (Cons c cs)
  have "register_one add pf hf c e = fold (\<lambda>((p, m), h). add p m h) (route_of pf hf c) e"
    by (auto simp: register_one_def route_of_def registerKrakendEndpoint_def Let_def
        IsValidSequentialEndpoint_def split: sum.split)
  then show ?case using Cons.IH by (simp add: registerKrakendEndpoints_def)
qed (simp add: registerKrakendEndpoints_def)

lemma distinct_routes:
  "distinct (map (\<lambda>c. (ep_Endpoint c, to_upper (ep_Method c))) cs) \<Longrightarrow>
   distinct (map fst (routes_of pf hf cs))"
proof (induction cs)
  case (Cons c cs)
  have "fst ` set (routes_of pf hf cs) \<subseteq> (\<lambda>c. (ep_Endpoint c, to_upper (ep_Method c))) ` set cs"
    by (auto simp: route_of_def split: sum.splits if_splits)
  then show ?case using Cons by (auto simp: route_of_def split: sum.splits)
qed simp

text \<open>
  What every engine promises, whichever of two routes with the same path and method it prefers: a
  route is found under its path and method if there was none, and registering it leaves the others.
\<close>

locale route_table =
  fixes add :: "string \<Rightarrow> string \<Rightarrow> 'h \<Rightarrow> 'e \<Rightarrow> 'e"
    and get_handler :: "'e \<Rightarrow> string \<Rightarrow> string \<Rightarrow> 'h option"
  assumes get_new: "get_handler e p m = None \<Longrightarrow> get_handler (add p m h e) p m = Some h"
    and get_other: "(p', m') \<noteq> (p, m) \<Longrightarrow> get_handler (add p m h e) p' m' = get_handler e p' m'"
begin

lemma get_unregistered:
  assumes "(p, m) \<notin> fst ` set routes"
  shows "get_handler (fold (\<lambda>((p, m), h). add p m h) routes e) p m = get_handler e p m"
  using assms
proof (induction routes arbitrary: e)
  case (Cons r routes)
  then show ?case by (cases r) (auto simp: get_other)
qed simp

lemma get_registered:
  assumes "distinct (map fst routes)" and "((p, m), h) \<in> set routes" and "get_handler e p m = None"
  shows "get_handler (fold (\<lambda>((p, m), h). add p m h) routes e) p m = Some h"
  using assms
proof (induction routes arbitrary: e)
  case (Cons r routes)
  obtain p' m' h' where r: "r = ((p', m'), h')" by (cases r) auto
  show ?case
  proof (cases "(p', m') = (p, m)")
    case True
    then have "h' = h" and "(p, m) \<notin> fst ` set routes"
      using Cons.prems(1,2) by (force simp: r)+
    then show ?thesis using True Cons.prems(3) by (simp add: r get_unregistered get_new)
  next
    case False
    then show ?thesis using Cons.prems Cons.IH [of "add p' m' h' e"] by (auto simp: r get_other)
  qed
qed simp

end

lemma engine_handler_Handle:
  "engine_handler (Handle p m h e) p' m' =
     (if p' = p \<and> m' = m then Some h else engine_handler e p' m')"
  by (auto simp: engine_handler_def Handle_def gmap_simps split: option.splits)

interpretation engine_reg: kv_register "\<lambda>e (p, m). engine_handler e p m" "\<lambda>(p, m) h. Handle p m h"
  by unfold_locales (auto simp: engine_handler_Handle split: if_splits)

interpretation basic_routes: route_table Handle engine_handler
  by unfold_locales (auto simp: engine_handler_Handle)

lemma register_store:
  "registerKrakendEndpoints Handle pf hf cs e = engine_reg.store_all (routes_of pf hf cs) e"
proof -
  have "(\<lambda>((p, m), h). Handle p m h) = (\<lambda>(k, v). (\<lambda>(p, m) h. Handle p m h) k v)"
    by (auto simp: fun_eq_iff)
  then show ?thesis by (simp add: register_routes engine_reg.store_all_def)
qed

lemma dispatch_routes:
  assumes "match (keys (registerKrakendEndpoints Handle pf hf cs e)) r = Matched p"
  shows "ServeHTTP match (registerKrakendEndpoints Handle pf hf cs e) w r ctx world =
    (case map_of (rev (concat (map (route_of pf hf) cs))) (p, ir_Method r) of
       Some h \<Rightarrow> h (NewHTTPErrorInterceptor w) r ctx world
     | None \<Rightarrow>
         (case engine_handler e p (ir_Method r) of
            Some h \<Rightarrow> h (NewHTTPErrorInterceptor w) r ctx world
          | None \<Rightarrow> Served (http_Error [] 405 (hset CompleteResponseHeaderName ''false''
              (NewHTTPErrorInterceptor w))) world))"
  using assms engine_reg.get_store_all [of "routes_of pf hf cs" e "(p, ir_Method r)"]
  by (auto simp: ServeHTTP_def registrableHandler_def register_store split: option.split)

text \<open>
  C33. The mux router serves an endpoint's requests and no others: a request that matches a pattern
  goes, with its writer behind the interceptor, to the handler of the last endpoint with that path
  and method whose proxy was built; if there is none, to what was registered before the endpoints;
  and otherwise it is answered with 405, an incomplete response, and no call of any proxy.
\<close>

theorem mux_dispatch:
  assumes "match (keys (registerKrakendEndpoints Handle pf hf cs e)) r = Matched p"
  shows "ServeHTTP match (registerKrakendEndpoints Handle pf hf cs e) w r ctx world =
    (case map_of (rev (concat (map (route_of pf hf) cs))) (p, ir_Method r) of
       Some h \<Rightarrow> h (NewHTTPErrorInterceptor w) r ctx world
     | None \<Rightarrow>
         (case engine_handler e p (ir_Method r) of
            Some h \<Rightarrow> h (NewHTTPErrorInterceptor w) r ctx world
          | None \<Rightarrow> Served (http_Error [] 405 (hset CompleteResponseHeaderName ''false''
              (NewHTTPErrorInterceptor w))) world))"
  using assms by (rule dispatch_routes)

section \<open>The completeness of a reply\<close>

text \<open>
  \<open>flagged v w\<close>: nothing is sent yet, the interceptor is armed and the header is \<open>v\<close>. \<open>settled v w\<close>:
  the reply has the header \<open>v\<close> with status 200 and \<open>false\<close> with any other.
\<close>

definition flagged :: "string \<Rightarrow> writer \<Rightarrow> bool" where
  "flagged v w \<longleftrightarrow>
     wr_Sent w = None \<and> wr_Once w = Some False \<and>
     map_of (wr_Header w) CompleteResponseHeaderName = Some [v]"

definition settled :: "string \<Rightarrow> writer \<Rightarrow> bool" where
  "settled v w \<longleftrightarrow>
     (case reply w of
        (code, hs, _) \<Rightarrow>
          map_of hs CompleteResponseHeaderName = Some [if code = 200 then v else ''false''])"

lemma flagged_settled: "flagged v w \<Longrightarrow> settled v w"
  by (simp add: flagged_def settled_def reply_def)

lemma complete_canonical:
  "CanonicalMIMEHeaderKey CompleteResponseHeaderName = CompleteResponseHeaderName"
  by code_simp

lemma hset_flagged:
  "CanonicalMIMEHeaderKey k \<noteq> CompleteResponseHeaderName \<Longrightarrow> flagged v w \<Longrightarrow> flagged v (hset k x w)"
  by (simp add: flagged_def hset_def gmap_simps)

lemma hset_complete:
  "wr_Sent w = None \<Longrightarrow> wr_Once w = Some False \<Longrightarrow> flagged v (hset CompleteResponseHeaderName v w)"
  unfolding flagged_def hset_def complete_canonical by (simp add: gmap_simps)

definition no_complete :: "string list gmap \<Rightarrow> bool" where
  "no_complete hs \<longleftrightarrow> (\<forall>k \<in> fst ` set hs. CanonicalMIMEHeaderKey k \<noteq> CompleteResponseHeaderName)"

lemma hadd_all_flagged: "no_complete hs \<Longrightarrow> flagged v w \<Longrightarrow> flagged v (hadd_all hs w)"
proof (induction hs arbitrary: w)
  case Nil
  then show ?case by (simp add: hadd_all_def)
next
  case (Cons h hs)
  obtain k vs where h: "h = (k, vs)" by (cases h)
  have k: "CanonicalMIMEHeaderKey k \<noteq> CompleteResponseHeaderName" and hs: "no_complete hs"
    using Cons.prems(1) by (simp_all add: h no_complete_def)
  have "flagged v w \<Longrightarrow> flagged v (fold (hadd k) vs w)" for w
    using k by (induction vs arbitrary: w) (simp_all add: flagged_def hadd_def Let_def gmap_simps)
  with Cons.IH [OF hs] Cons.prems(2) show ?case by (simp add: hadd_all_def h)
qed

lemma put_body_settled: "settled v w \<Longrightarrow> settled v (put_body b w)"
  by (simp add: settled_def reply_def put_body_def split: option.splits prod.splits)

lemma send_settled: "settled v w \<Longrightarrow> settled v (send 200 w)"
  by (auto simp: settled_def reply_def send_def split: option.splits)

lemma Write_settled: "settled v w \<Longrightarrow> settled v (Write b w)"
  by (simp add: Write_def put_body_settled send_settled)

lemma WriteHeader_settled: "flagged v w \<Longrightarrow> settled v (WriteHeader code w)"
  unfolding flagged_def settled_def WriteHeader_def hset_def complete_canonical
  by (auto simp: send_def reply_def gmap_simps)

lemma http_Error_settled:
  assumes "flagged v w"
  shows "settled v (http_Error msg code w)"
proof -
  have keys: "CanonicalMIMEHeaderKey ''Content-Type'' \<noteq> CompleteResponseHeaderName"
      "CanonicalMIMEHeaderKey ''X-Content-Type-Options'' \<noteq> CompleteResponseHeaderName"
    by code_simp+
  have "flagged v (w\<lparr>wr_Header := mdel ''Content-Length'' (wr_Header w)\<rparr>)"
    using assms by (simp add: flagged_def gmap_simps)
  then show ?thesis
    using keys unfolding http_Error_def Let_def
    by (intro Write_settled WriteHeader_settled hset_flagged)
qed

lemma write_json_settled: "flagged v w \<Longrightarrow> settled v (write_json env x w)"
  by (auto simp: write_json_def split: sum.split intro: http_Error_settled Write_settled flagged_settled)

text \<open>Every render of the package keeps what the handler settled.\<close>

lemma render_settled:
  assumes "flagged v w" and "\<forall>n. rd \<noteq> CustomRender n"
    and "\<forall>r. resp = Some r \<longrightarrow> no_complete (rs_Headers r)"
  shows "settled v (run_render env rd resp w)"
proof -
  have ct: "CanonicalMIMEHeaderKey ''Content-Type'' \<noteq> CompleteResponseHeaderName" by code_simp
  note flagged = hset_flagged [OF ct assms(1)]
  note settled = Write_settled [OF flagged_settled [OF flagged]]
  show ?thesis
  proof (cases rd)
    case noopRender
    show ?thesis
    proof (cases resp)
      case None
      with noopRender assms(1) show ?thesis by (simp add: http_Error_settled)
    next
      case (Some r)
      have "flagged v (hadd_all (rs_Headers r) w)" using assms(1,3) Some by (simp add: hadd_all_flagged)
      with noopRender Some show ?thesis
        by (auto simp: Let_def WriteHeader_settled Write_settled flagged_settled split: option.split)
    qed
  qed (use assms(2) flagged settled write_json_settled in \<open>auto simp: Let_def split: option.split\<close>)
qed

lemma respond_settled:
  assumes "wr_Sent w = None" and "wr_Once w = Some False" and "\<forall>n. rd \<noteq> CustomRender n"
    and "\<forall>r. resp = Some r \<longrightarrow> no_complete (rs_Headers r)"
  shows "settled (if has_data resp \<and> rs_IsComplete (the resp) then ''true'' else ''false'')
    (respond env rd cfg resp err w)"
proof -
  have cc: "CanonicalMIMEHeaderKey ''Cache-Control'' \<noteq> CompleteResponseHeaderName" by code_simp
  note flagged = hset_complete [OF assms(1,2)] hset_flagged [OF cc]
  show ?thesis
    using assms(3,4)
    by (auto simp: respond_def has_data_def Let_def flagged render_settled http_Error_settled
        hadd_all_flagged split: option.split)
qed

text \<open>
  C31. What the header \<open>X-Krakend-Completed\<close> of a reply means. With any render of the package, whatever
  the proxy and the error handler do, every reply has the header, with the value \<open>true\<close> exactly when
  the method was the endpoint's, the proxy answered with complete data and the status is 200; in all
  other cases, errors of the render included, it is \<open>false\<close>. (A backend's own header of that name,
  passed on with the response, would be added to it and is excluded.)
\<close>

theorem mux_completeness:
  assumes "CustomEndpointHandlerWithHTTPError env reg rb cfg prxy (new_writer (Some False)) r ctx world =
      Served wr world'"
    and "\<forall>n. getRender reg cfg \<noteq> CustomRender n"
    and "fst (prxy (with_timeout ctx (ep_Timeout cfg) world)
      (rb r (ep_QueryString cfg) (headers_to_send cfg)) world) = Ret resp err"
    and "\<forall>a. resp = Some a \<longrightarrow> no_complete (rs_Headers a)"
    and "reply wr = (code, hs, body)"
  shows "map_of hs CompleteResponseHeaderName =
    Some [if code = 200 \<and> ir_Method r = to_upper (ep_Method cfg) \<and> has_data resp \<and>
        rs_IsComplete (the resp) then ''true'' else ''false'']"
proof -
  let ?w = "hset ''X-KRAKEND'' (''Version '' @ mx_version env) (new_writer (Some False))"
  have w: "wr_Sent ?w = None" "wr_Once ?w = Some False"
    by (simp_all add: hset_def new_writer_def)
  show ?thesis
  proof (cases "ir_Method r = to_upper (ep_Method cfg)")
    case False
    then have "wr = http_Error [] 405 (hset CompleteResponseHeaderName ''false'' ?w)"
      using assms(1) by (simp add: CustomEndpointHandlerWithHTTPError_def Let_def)
    moreover have "settled ''false'' \<dots>" using w by (simp add: http_Error_settled hset_complete)
    ultimately show ?thesis using False assms(5) by (simp add: settled_def)
  next
    case True
    obtain e where "wr = respond env (getRender reg cfg) cfg resp e ?w"
      using assms(1,3) True
      by (auto simp: CustomEndpointHandlerWithHTTPError_def Let_def split: prod.splits pres.splits)
    with respond_settled [OF w assms(2,4), of env cfg e] assms(5) True
    show ?thesis by (auto simp: settled_def)
  qed
qed

definition sample_mux_env :: mux_env where
  "sample_mux_env =
     \<lparr>mx_version = ''1'', mx_json = (\<lambda>_. Inr ''{}''), mx_errF = (\<lambda>_. 500), mx_split_host = Some,
      mx_custom = (\<lambda>_ _ w. w)\<rparr>"

definition sample_http_in :: http_in where
  "sample_http_in =
     \<lparr>ir_Method = ''GET'', ir_Path = ''/a'', ir_RawQuery = ''x=1&y=2&x=3'', ir_RequestURI = ''/a'',
      ir_User = [], ir_Fragment = [], ir_Host = ''h'', ir_RemoteAddr = ''1.2.3.4'',
      ir_Header = [(''Accept'', [''j'']), (''User-Agent'', [''u''])], ir_Body = None\<rparr>"

definition complete_proxy :: "unit proxy" where
  "complete_proxy ctx r w = (Ret (Some (new_response (Some [(''a'', VInt 1)]) True)) None, r, w)"

definition sample_endpoint :: endpoint_config where
  "sample_endpoint = zero_endpoint\<lparr>ep_Endpoint := ''/a'', ep_Method := ''get'', ep_Timeout := 1\<rparr>"

definition sample_mux_run :: "unit served" where
  "sample_mux_run =
     CustomEndpointHandlerWithHTTPError sample_mux_env renderRegister
       (NewRequestBuilder NoopParamExtractor Some [''u'']) sample_endpoint complete_proxy
       (new_writer (Some False)) sample_http_in None \<lparr>now = 0\<rparr>"

theorem mux_completeness_witness:
  "\<exists>wr world'. sample_mux_run = Served wr world' \<and>
    map_of (fst (snd (reply wr))) CompleteResponseHeaderName = Some [''true'']"
proof -
  have "case sample_mux_run of Served wr _ \<Rightarrow> fst (reply wr) = 200 | _ \<Rightarrow> False" by code_simp
  then obtain wr world' where run: "sample_mux_run = Served wr world'" and code: "fst (reply wr) = 200"
    by (auto split: served.splits)
  have rd: "\<forall>n. getRender renderRegister sample_endpoint \<noteq> CustomRender n"
  proof -
    have "getRender renderRegister sample_endpoint = jsonRender" by code_simp
    then show ?thesis by simp
  qed
  have p: "fst (complete_proxy c q w) = Ret (Some (new_response (Some [(''a'', VInt 1)]) True)) None"
    for c q w by (simp add: complete_proxy_def)
  have m: "ir_Method sample_http_in = to_upper (ep_Method sample_endpoint)" by code_simp
  have "reply wr = (200, fst (snd (reply wr)), snd (snd (reply wr)))" using code by (cases "reply wr") simp
  from mux_completeness [OF run [unfolded sample_mux_run_def] rd p _ this] m run
  show ?thesis by (intro exI [of _ wr] exI [of _ world']) (simp add: has_data_def no_complete_def)
qed

theorem mux_dispatch_witness:
  "\<forall>w ctx world. ServeHTTP (\<lambda>_ _. Matched ''/a'')
      (registerKrakendEndpoints Handle (\<lambda>_. Inr complete_proxy) (EndpointHandler sample_mux_env renderRegister)
        [sample_endpoint] DefaultEngine) w sample_http_in ctx world =
    EndpointHandler sample_mux_env renderRegister sample_endpoint complete_proxy
      (NewHTTPErrorInterceptor w) sample_http_in ctx world"
proof -
  have "to_upper (ep_Method sample_endpoint) = ''GET''" "ep_Endpoint sample_endpoint = ''/a''"
    "ir_Method sample_http_in = ''GET''"
    by code_simp+
  then show ?thesis
    by (simp add: mux_dispatch [OF refl] route_of_def supported_methods_def)
qed

end
