(* ===== verification/Router_Gin.thy ===== *)
theory Router_Gin
  imports Router_Mux Proxy_Balancing
begin

text \<open>
  The gin router: the handler of an endpoint (\<open>router/gin/endpoint.go\<close>), its renders (\<open>render.go\<close>), the
  engine's options and its check of parameters (\<open>engine.go\<close>), and the registration of endpoints with
  the automatic OPTIONS (\<open>router.go\<close>).

  Gin itself is a library this repository does not hold. What the code does to a \<open>gin.Context\<close> or an
  engine is the sequence of calls it makes, a list of \<open>gin_call\<close>.
\<close>

section \<open>Calls to gin\<close>

datatype gin_call =
    GHeader string string
  | GAddHeader string string
  | GStatus int
  | GError go_err
  | GWriteString string
  | GAbort
  | GAbortWithStatus int
  | GJSON int "value"
  | GString int string
  | GXML int "value"
  | GYAML int "value"
  | GCopy reader
  | GCustom string

text \<open>
  The parameters: the version, the translation of errors to status codes, the headers of an error
  that has some, whether error messages are returned (\<open>returnErrorMsg\<close>), and the
  text of the error of \<open>url.PathUnescape\<close>. A request has the status
  the middlewares left, the format \<open>NegotiateFormat\<close> chooses, the client IP and the parameters of the
  route, as gin reports them.
\<close>

record gin_env =
  gx_version :: string
  gx_errF :: "go_err \<Rightarrow> int"
  gx_headers :: "go_err \<Rightarrow> string list gmap"
  gx_returnErrorMsg :: bool
  gx_escape_error :: "string \<Rightarrow> string"

record gin_context =
  gc_request :: http_in
  gc_status :: int
  gc_format :: string
  gc_ClientIP :: string
  gc_Params :: "(string \<times> string) list"

section \<open>Renders\<close>

datatype gin_render =
    ginNegotiated | ginString | ginJSON | ginCollection | ginXML | ginYAML | ginNoop | ginCustom string

definition gin_renderRegister :: "gin_render gmap" where
  "gin_renderRegister =
     [(''string'', ginString), (''json'', ginJSON), (''no-op'', ginNoop),
      (''json-collection'', ginCollection), (''xml'', ginXML), (''yaml'', ginYAML),
      (''negotiate'', ginNegotiated)]"

definition gin_RegisterRender :: "string \<Rightarrow> gin_render \<Rightarrow> gin_render gmap \<Rightarrow> gin_render gmap" where
  "gin_RegisterRender name r reg = mput name r reg"

definition gin_getWithFallback :: "gin_render gmap \<Rightarrow> string \<Rightarrow> gin_render \<Rightarrow> gin_render" where
  "gin_getWithFallback reg key fallback = (case map_of reg key of None \<Rightarrow> fallback | Some r \<Rightarrow> r)"

definition gin_getRender :: "gin_render gmap \<Rightarrow> endpoint_config \<Rightarrow> gin_render" where
  "gin_getRender reg cfg =
     (let fallback = ginJSON;
          fallback = (if length (ep_Backend cfg) = 1
                      then gin_getWithFallback reg (be_Encoding (ep_Backend cfg ! 0)) fallback
                      else fallback) in
      if ep_OutputEncoding cfg = [] then fallback
      else gin_getWithFallback reg (ep_OutputEncoding cfg) fallback)"

text \<open>The renders but the negotiated one, which chooses one of them from the register.\<close>

fun gin_plain_render :: "gin_render \<Rightarrow> int \<Rightarrow> response option \<Rightarrow> gin_call list" where
  "gin_plain_render ginJSON status resp =
     [GJSON status (case resp of None \<Rightarrow> VObj [] | Some r \<Rightarrow> data_value r)]"
| "gin_plain_render ginCollection status resp =
     [GJSON status
       (case obind resp (\<lambda>r. map_of (data_of r) ''collection'') of None \<Rightarrow> VArr [] | Some col \<Rightarrow> col)]"
| "gin_plain_render ginString status resp =
     [GString status
       (case obind (obind resp (\<lambda>r. map_of (data_of r) ''content'')) as_str of None \<Rightarrow> [] | Some s \<Rightarrow> s)]"
| "gin_plain_render ginXML status resp =
     [GXML status
       (case obind resp (\<lambda>r. map_of (data_of r) ''content'') of None \<Rightarrow> VNil | Some d \<Rightarrow> d)]"
| "gin_plain_render ginYAML status resp =
     [GYAML status (case resp of None \<Rightarrow> VObj [] | Some r \<Rightarrow> data_value r)]"
| "gin_plain_render ginNoop status resp =
     (case resp of
        None \<Rightarrow> [GStatus 500]
      | Some r \<Rightarrow>
          concat (map (\<lambda>(k, vs). map (GAddHeader k) vs) (rs_Headers r)) @
          [GStatus (rs_StatusCode r)] @
          (case rs_Io r of None \<Rightarrow> [] | Some rd \<Rightarrow> [GCopy rd]))"
| "gin_plain_render (ginCustom n) status resp = [GCustom n]"
| "gin_plain_render ginNegotiated status resp = []"

definition negotiatedRender :: "gin_render gmap \<Rightarrow> string \<Rightarrow> gin_render" where
  "negotiatedRender reg format =
     (if format = ''application/xml'' then gin_getWithFallback reg ''xml'' ginJSON
      else if format = ''text/plain'' \<or> format = ''application/x-yaml''
      then gin_getWithFallback reg ''yaml'' ginJSON
      else gin_getWithFallback reg ''json'' ginJSON)"

definition gin_run_render ::
  "gin_render gmap \<Rightarrow> gin_render \<Rightarrow> gin_context \<Rightarrow> response option \<Rightarrow> gin_call list" where
  "gin_run_render reg rd c resp =
     gin_plain_render
       (case rd of ginNegotiated \<Rightarrow> negotiatedRender reg (gc_format c) | _ \<Rightarrow> rd) (gc_status c) resp"

section \<open>The handler\<close>

text \<open>\<open>Encoding()\<close> of the errors that have it.\<close>

fun error_encoding :: "go_err \<Rightarrow> string" where
  "error_encoding (EHTTP e) = he_Enc e"
| "error_encoding (ENamedHTTP e _) = he_Enc e"
| "error_encoding _ = []"

definition ErrorResponseWriter :: "go_err \<Rightarrow> gin_call list" where
  "ErrorResponseWriter err =
     (if error_encoding err \<noteq> [] then [GHeader ''Content-Type'' (error_encoding err)] else []) @
     [GWriteString (err_text err)]"

definition note_errors :: "go_err \<Rightarrow> gin_call list" where
  "note_errors err = (case err of EMerge es \<Rightarrow> map GError es | _ \<Rightarrow> [GError err])"

definition add_headers :: "string list gmap \<Rightarrow> gin_call list" where
  "add_headers hs = concat (map (\<lambda>(k, vs). map (GAddHeader k) vs) hs)"

definition gin_outcome ::
  "gin_env \<Rightarrow> gin_render gmap \<Rightarrow> gin_render \<Rightarrow> endpoint_config \<Rightarrow> gin_context \<Rightarrow> response option \<Rightarrow>
     go_err option \<Rightarrow> gin_call list" where
  "gin_outcome env reg rd cfg c resp err =
     (let complete = (if has_data resp \<and> rs_IsComplete (the resp) then ''true'' else ''false'') in
      (if has_data resp
       then (if rs_IsComplete (the resp) \<and> ep_CacheTTL cfg \<noteq> 0
             then [GHeader ''Cache-Control'' (cache_value cfg)] else []) @
            add_headers (rs_Headers (the resp))
       else []) @
      [GHeader CompleteResponseHeaderName complete] @
      (case err of
         None \<Rightarrow> gin_run_render reg rd c resp
       | Some e \<Rightarrow>
           note_errors e @
           (if resp = None
            then add_headers (gx_headers env e) @
              [GStatus (case error_status e of Some n \<Rightarrow> n | None \<Rightarrow> gx_errF env e)] @
              (if gx_returnErrorMsg env then ErrorResponseWriter e else [])
            else gin_run_render reg rd c resp)))"

datatype 'a gin_served = GServed "gin_call list" "'a world_scheme" | GPanic string

definition CustomErrorEndpointHandler ::
  "gin_env \<Rightarrow> gin_render gmap \<Rightarrow> endpoint_config \<Rightarrow> 'a proxy \<Rightarrow> gin_context \<Rightarrow> ctx \<Rightarrow> 'a world_scheme \<Rightarrow>
     'a gin_served" where
  "CustomErrorEndpointHandler env reg configuration prxy c ctx world =
     (let rd = gin_getRender reg configuration;
          requestCtx = with_timeout ctx (ep_Timeout configuration) world;
          req = gin_NewRequest [''KrakenD Version '' @ gx_version env] (ep_HeadersToPass configuration)
            (gc_Params c) (gc_ClientIP c) (gc_request c) (ep_QueryString configuration) in
      case prxy requestCtx req world of
        (Panic s, _, _) \<Rightarrow> GPanic s
      | (Ret resp err, _, world') \<Rightarrow>
          GServed
            (GHeader ''X-KRAKEND'' (''Version '' @ gx_version env) #
             gin_outcome env reg rd configuration c resp
               (final_error (ctx_err requestCtx world') err))
            world')"

section \<open>The check of parameters\<close>

text \<open>\<open>url.PathUnescape\<close>: like the one of queries, but a plus sign stands for itself.\<close>

fun PathUnescape :: "string \<Rightarrow> string option" where
  "PathUnescape [] = Some []"
| "PathUnescape (c # s) =
     (if c = CHR ''%'' then
        (case s of
           a # b # s' \<Rightarrow>
             (case (hex_val a, hex_val b) of
                (Some i, Some j) \<Rightarrow> map_option (Cons (char_of (16 * i + j))) (PathUnescape s')
              | _ \<Rightarrow> None)
         | _ \<Rightarrow> None)
      else map_option (Cons c) (PathUnescape s))"

definition bad_param :: "gin_env \<Rightarrow> string \<Rightarrow> string option" where
  "bad_param env v =
     (case PathUnescape v of
        None \<Rightarrow> Some (''error: '' @ gx_escape_error env v)
      | Some s \<Rightarrow>
          if s \<noteq> v \<or> contains s ''?'' \<or> contains s ''#'' then Some ''error: encoded url params'' else None)"

text \<open>The middleware: \<^const>\<open>None\<close> to go on, or the calls of the rejection.\<close>

fun paramChecker :: "gin_env \<Rightarrow> (string \<times> string) list \<Rightarrow> gin_call list option" where
  "paramChecker env [] = None"
| "paramChecker env ((k, v) # ps) =
     (case bad_param env v of
        Some msg \<Rightarrow> Some ([GStatus 400] @ ErrorResponseWriter (EOther msg) @ [GAbort])
      | None \<Rightarrow> paramChecker env ps)"

section \<open>The other handlers\<close>

definition gin_DebugHandler :: "gin_call list" where
  "gin_DebugHandler = [GJSON 200 (VObj [(''message'', VStr ''pong'')])]"

definition gin_EchoHandler :: "http_in \<Rightarrow> gin_call list" where
  "gin_EchoHandler r = [GJSON 200 (echoResponse r)]"

text \<open>
  The health endpoint: \<open>reports\<close> has for every agent the time of its last ping, as the goroutine that
  reads the channel writes it.
\<close>

definition health_ping :: "string \<Rightarrow> string \<Rightarrow> string gmap \<Rightarrow> string gmap" where
  "health_ping name time reports = mput name time reports"

definition healthEndpoint :: "string gmap \<Rightarrow> string \<Rightarrow> gin_call list" where
  "healthEndpoint reports time =
     [GJSON 200 (VObj [(''status'', VStr ''ok''),
        (''agents'', VObj (map (\<lambda>(k, v). (k, VStr v)) reports)), (''now'', VStr time)])]"

definition NoRoute :: "gin_call list" where
  "NoRoute = [GHeader CompleteResponseHeaderName ''false'']"

definition proxyBuildFailedHandler :: "gin_call list" where
  "proxyBuildFailedHandler = [GAbortWithStatus 500]"

section \<open>Options of the engine\<close>

text \<open>
  The section of the configuration, as JSON reads it into \<open>engineConfiguration\<close> (a parameter); an
  unset pointer is \<^const>\<open>None\<close>. The settings are the fields of the engine the code writes, over
  those gin starts with, and the middlewares and routes it installs.
\<close>

record engine_options =
  eo_DisableRedirectTrailingSlash :: "bool option"
  eo_DisableRedirectFixedPath :: "bool option"
  eo_DisableHandleMethodNotAllowed :: "bool option"
  eo_ForwardedByClientIP :: "bool option"
  eo_RemoteIPHeaders :: "string list"
  eo_TrustedProxies :: "string list"
  eo_AppEngine :: bool
  eo_MaxMultipartMemory :: int
  eo_RemoveExtraSlash :: bool
  eo_UseH2C :: bool
  eo_LoggerSkipPaths :: "string list"
  eo_ReturnErrorMsg :: bool
  eo_ObfuscateVersionHeader :: bool
  eo_DisableAccessLog :: bool
  eo_DisablePathDecoding :: bool
  eo_DisableHealthEndpoint :: bool
  eo_HealthPath :: string

definition no_options :: engine_options where
  "no_options =
     \<lparr>eo_DisableRedirectTrailingSlash = None, eo_DisableRedirectFixedPath = None,
      eo_DisableHandleMethodNotAllowed = None, eo_ForwardedByClientIP = None,
      eo_RemoteIPHeaders = [], eo_TrustedProxies = [], eo_AppEngine = False,
      eo_MaxMultipartMemory = 0, eo_RemoveExtraSlash = False, eo_UseH2C = False,
      eo_LoggerSkipPaths = [], eo_ReturnErrorMsg = False, eo_ObfuscateVersionHeader = False,
      eo_DisableAccessLog = False, eo_DisablePathDecoding = False,
      eo_DisableHealthEndpoint = False, eo_HealthPath = []\<rparr>"

record engine_settings =
  es_RedirectTrailingSlash :: bool
  es_RedirectFixedPath :: bool
  es_HandleMethodNotAllowed :: bool
  es_ContextWithFallback :: bool
  es_ForwardedByClientIP :: bool
  es_RemoteIPHeaders :: "string list"
  es_TrustedProxies :: "string list option"
  es_AppEngine :: bool
  es_MaxMultipartMemory :: int
  es_RemoveExtraSlash :: bool
  es_UseH2C :: bool

datatype engine_middleware = AccessLog "string list" | Recovery | ParamChecker

record engine_setup =
  eu_settings :: engine_settings
  eu_middlewares :: "engine_middleware list"
  eu_health :: "string option"
  eu_returnErrorMsg :: bool
  eu_hide_version :: bool

abbreviation gin_Namespace :: string where
  "gin_Namespace \<equiv> ''github_com/luraproject/lura/router/gin''"

definition negated_or :: "bool option \<Rightarrow> bool \<Rightarrow> bool" where
  "negated_or p d = (case p of None \<Rightarrow> d | Some b \<Rightarrow> \<not> b)"

definition apply_options :: "engine_options \<Rightarrow> engine_settings \<Rightarrow> engine_settings" where
  "apply_options opts e =
     e\<lparr>es_RedirectTrailingSlash :=
         negated_or (eo_DisableRedirectTrailingSlash opts) (es_RedirectTrailingSlash e),
       es_RedirectFixedPath :=
         negated_or (eo_DisableRedirectFixedPath opts) (es_RedirectFixedPath e),
       es_HandleMethodNotAllowed :=
         negated_or (eo_DisableHandleMethodNotAllowed opts) (es_HandleMethodNotAllowed e),
       es_ForwardedByClientIP :=
         (case eo_ForwardedByClientIP opts of None \<Rightarrow> es_ForwardedByClientIP e | Some b \<Rightarrow> b),
       es_RemoteIPHeaders :=
         (if eo_RemoteIPHeaders opts \<noteq> [] then map CanonicalMIMEHeaderKey (eo_RemoteIPHeaders opts)
          else es_RemoteIPHeaders e),
       es_TrustedProxies :=
         (if eo_TrustedProxies opts \<noteq> [] then Some (eo_TrustedProxies opts) else es_TrustedProxies e),
       es_AppEngine := eo_AppEngine opts, es_MaxMultipartMemory := eo_MaxMultipartMemory opts,
       es_RemoveExtraSlash := eo_RemoveExtraSlash opts, es_UseH2C := eo_UseH2C opts\<rparr>"

text \<open>
  \<open>read_options\<close> is the trip of the section through JSON: the struct it fills and whether it was
  without error; with a field of the wrong type the others are filled all the same. \<open>hidden\<close> and
  \<open>msgs\<close> are the package variables.
\<close>

definition NewEngine ::
  "(value \<Rightarrow> engine_options \<times> bool) \<Rightarrow> engine_settings \<Rightarrow> bool \<Rightarrow> bool \<Rightarrow> service_config \<Rightarrow> engine_setup"
  where
  "NewEngine read_options fresh hidden msgs cfg =
     (let e = fresh\<lparr>es_RedirectTrailingSlash := True, es_RedirectFixedPath := True,
                es_HandleMethodNotAllowed := True, es_ContextWithFallback := True\<rparr>;
          (ginOptions, ok) = (case map_of (sc_ExtraConfig cfg) gin_Namespace of
             None \<Rightarrow> (no_options, False) | Some v \<Rightarrow> read_options v) in
      \<lparr>eu_settings = (if ok then apply_options ginOptions e else e),
       eu_middlewares =
         (if eo_DisableAccessLog ginOptions then []
          else [AccessLog (if ok then eo_LoggerSkipPaths ginOptions else [])]) @
         [Recovery] @
         (if eo_DisablePathDecoding ginOptions then [] else [ParamChecker]),
       eu_health =
         (if eo_DisableHealthEndpoint ginOptions then None
          else Some (if eo_HealthPath ginOptions \<noteq> [] then eo_HealthPath ginOptions else ''/__health'')),
       eu_returnErrorMsg = (if ok then eo_ReturnErrorMsg ginOptions else msgs),
       eu_hide_version = (hidden \<or> ok \<and> eo_ObfuscateVersionHeader ginOptions)\<rparr>)"

text \<open>
  A section JSON rejects is not applied to the engine, but what it filled still switches middlewares
  off.
\<close>

lemma rejected_section_switches_checks_off:
  assumes "map_of (sc_ExtraConfig cfg) gin_Namespace = Some v"
    and "read_options v = (no_options\<lparr>eo_DisablePathDecoding := True\<rparr>, False)"
  shows "ParamChecker \<notin> set (eu_middlewares (NewEngine read_options fresh hidden msgs cfg))"
  using assms by (simp add: NewEngine_def no_options_def)

section \<open>Registration\<close>

text \<open>
  What the router registers: the calls of \<open>Any\<close> before the group, the routes of the group with the kind
  of their handler, and for every path the methods it has (\<open>urlCatalog\<close>).
\<close>

datatype gin_route_handler = ProxyHandler endpoint_config | BuildFailed | DebugRoute | EchoRoute

record gin_router =
  gr_any :: "(string \<times> gin_route_handler) list"
  gr_routes :: "(string \<times> string \<times> gin_route_handler) list"
  gr_catalog :: "string list gmap"

definition new_gin_router :: gin_router where
  "new_gin_router = \<lparr>gr_any = [], gr_routes = [], gr_catalog = []\<rparr>"

text \<open>One method more for a path of the catalog.\<close>

definition catalog_add :: "string \<Rightarrow> string \<Rightarrow> string list gmap \<Rightarrow> string list gmap" where
  "catalog_add path m cat =
     mput path (case map_of cat path of None \<Rightarrow> [m] | Some methods \<Rightarrow> methods @ [m]) cat"

definition gin_registerKrakendEndpoint ::
  "string \<Rightarrow> endpoint_config \<Rightarrow> gin_route_handler \<Rightarrow> nat \<Rightarrow> gin_router \<Rightarrow> gin_router" where
  "gin_registerKrakendEndpoint meth e h totBackends r =
     (let m = to_upper meth; path = ep_Endpoint e in
      if m \<noteq> ''GET'' \<and> totBackends > 1 \<and> \<not> IsValidSequentialEndpoint e then r
      else if m \<notin> set supported_methods then r
      else r\<lparr>gr_routes := gr_routes r @ [(m, path, h)], gr_catalog := catalog_add path m (gr_catalog r)\<rparr>)"

text \<open>\<open>built\<close> says for which endpoints the proxy factory makes a proxy.\<close>

definition gin_register_one :: "(endpoint_config \<Rightarrow> bool) \<Rightarrow> endpoint_config \<Rightarrow> gin_router \<Rightarrow> gin_router" where
  "gin_register_one built c r =
     (if built c
      then gin_registerKrakendEndpoint (ep_Method c) c (ProxyHandler c) (length (ep_Backend c)) r
      else gin_registerKrakendEndpoint (ep_Method c) c BuildFailed 1 r)"

definition gin_registerKrakendEndpoints ::
  "(endpoint_config \<Rightarrow> bool) \<Rightarrow> endpoint_config list \<Rightarrow> gin_router \<Rightarrow> gin_router" where
  "gin_registerKrakendEndpoints built cs r = fold (gin_register_one built) cs r"

text \<open>The automatic OPTIONS: a path and the value of its \<open>Allow\<close> header.\<close>

definition registerOptionEndpoints :: "gin_router \<Rightarrow> (string \<times> string) list" where
  "registerOptionEndpoints r = map (\<lambda>(path, methods). (path, join '', '' (sort methods))) (gr_catalog r)"

definition auto_options :: "service_config \<Rightarrow> bool" where
  "auto_options cfg \<longleftrightarrow>
     obind (section_of (sc_ExtraConfig cfg) gin_Namespace)
       (\<lambda>opts. obind (map_of opts ''auto_options'') as_bool) = Some True"

definition registerEndpointsAndMiddlewares ::
  "(endpoint_config \<Rightarrow> bool) \<Rightarrow> service_config \<Rightarrow> gin_router \<times> (string \<times> string) list" where
  "registerEndpointsAndMiddlewares built cfg =
     (let r = new_gin_router;
          r = (if sc_Debug cfg then r\<lparr>gr_any := gr_any r @ [(''/__debug/*param'', DebugRoute)]\<rparr> else r);
          r = (if sc_Echo cfg then r\<lparr>gr_any := gr_any r @ [(''/__echo/*param'', EchoRoute)]\<rparr> else r);
          r = gin_registerKrakendEndpoints built (sc_Endpoints cfg) r in
      (r, if auto_options cfg then registerOptionEndpoints r else []))"

section \<open>The routes of gin\<close>

text \<open>What a list of endpoints asks for, in its order.\<close>

definition gin_routes_of :: "(endpoint_config \<Rightarrow> bool) \<Rightarrow> endpoint_config list \<Rightarrow>
    (string \<times> string \<times> gin_route_handler) list" where
  "gin_routes_of built cs =
     map (\<lambda>c. (to_upper (ep_Method c), ep_Endpoint c, if built c then ProxyHandler c else BuildFailed))
       (filter (\<lambda>c. to_upper (ep_Method c) \<in> set supported_methods) cs)"

definition methods_of :: "(string \<times> string \<times> 'h) list \<Rightarrow> string \<Rightarrow> string list" where
  "methods_of routes path = map fst (filter (\<lambda>(m, p, h). p = path) routes)"

text \<open>The catalog of a list of routes.\<close>

definition catalog_of :: "(string \<times> string \<times> 'h) list \<Rightarrow> string list gmap \<Rightarrow> string list gmap" where
  "catalog_of routes cat = fold (\<lambda>(m, p, h). catalog_add p m) routes cat"

lemma gin_register_all:
  "gin_registerKrakendEndpoints built cs r =
     r\<lparr>gr_routes := gr_routes r @ gin_routes_of built cs,
       gr_catalog := catalog_of (gin_routes_of built cs) (gr_catalog r)\<rparr>"
proof (induction cs arbitrary: r)
  case Nil
  then show ?case by (simp add: gin_registerKrakendEndpoints_def gin_routes_of_def catalog_of_def)
next
  case (Cons c cs)
  have "gin_registerKrakendEndpoints built (c # cs) r =
      gin_registerKrakendEndpoints built cs (gin_register_one built c r)"
    by (simp add: gin_registerKrakendEndpoints_def)
  then show ?case
    by (simp only: Cons.IH) (simp add: gin_register_one_def gin_registerKrakendEndpoint_def Let_def
        IsValidSequentialEndpoint_def gin_routes_of_def catalog_of_def)
qed

lemma catalog_of_lookup:
  "map_of (catalog_of routes cat) p =
     (if methods_of routes p = [] then map_of cat p
      else Some ((case map_of cat p of None \<Rightarrow> [] | Some ms \<Rightarrow> ms) @ methods_of routes p))"
  by (induction routes arbitrary: cat)
    (auto simp: catalog_of_def methods_of_def catalog_add_def gmap_simps split: option.splits)

lemma distinct_catalog_of: "distinct (keys cat) \<Longrightarrow> distinct (keys (catalog_of routes cat))"
  by (induction routes arbitrary: cat) (auto simp: catalog_of_def catalog_add_def)

text \<open>
  What gin is told to serve: a route for every endpoint with a supported method, in their order,
  with the handler of its proxy or the one that answers 500 when the proxy could not be built; and
  with \<open>auto_options\<close> one OPTIONS route for every path that has a route, and for no other, which
  allows exactly the methods of the path's routes, sorted.
\<close>

theorem gin_routes_exact:
  "gr_routes (fst (registerEndpointsAndMiddlewares built cfg)) = gin_routes_of built (sc_Endpoints cfg) \<and>
   ((path, allow) \<in> set (snd (registerEndpointsAndMiddlewares built cfg)) \<longleftrightarrow>
      auto_options cfg \<and> methods_of (gin_routes_of built (sc_Endpoints cfg)) path \<noteq> [] \<and>
      allow = join '', '' (sort (methods_of (gin_routes_of built (sc_Endpoints cfg)) path)))"
proof -
  let ?routes = "gin_routes_of built (sc_Endpoints cfg)"
  let ?r = "fst (registerEndpointsAndMiddlewares built cfg)"
  have r: "gr_routes ?r = ?routes" "gr_catalog ?r = catalog_of ?routes []"
    by (simp_all add: registerEndpointsAndMiddlewares_def Let_def gin_register_all new_gin_router_def)
  have distinct: "distinct (keys (catalog_of ?routes []))" by (rule distinct_catalog_of) simp
  have "(path, ms) \<in> set (catalog_of ?routes []) \<longleftrightarrow>
      methods_of ?routes path \<noteq> [] \<and> ms = methods_of ?routes path" for ms
    unfolding map_of_eq_Some_iff [OF distinct, symmetric] catalog_of_lookup by auto
  moreover have "(path, allow) \<in> set (registerOptionEndpoints ?r) \<longleftrightarrow>
      (\<exists>ms. (path, ms) \<in> set (catalog_of ?routes []) \<and> allow = join '', '' (sort ms))"
    unfolding registerOptionEndpoints_def r(2) by force
  ultimately have "(path, allow) \<in> set (registerOptionEndpoints ?r) \<longleftrightarrow>
      methods_of ?routes path \<noteq> [] \<and> allow = join '', '' (sort (methods_of ?routes path))"
    by metis
  moreover have "snd (registerEndpointsAndMiddlewares built cfg) =
      (if auto_options cfg then registerOptionEndpoints ?r else [])"
    by (simp add: registerEndpointsAndMiddlewares_def Let_def)
  ultimately show ?thesis using r(1) by auto
qed

section \<open>Parameters stay in the path\<close>

lemma PathUnescape_plain: "CHR ''%'' \<notin> set v \<Longrightarrow> PathUnescape v = Some v"
  by (induction v) auto

lemma PathUnescape_length:
  "PathUnescape v = Some s \<Longrightarrow> length s \<le> length v \<and> (CHR ''%'' \<in> set v \<longrightarrow> length s < length v)"
proof (induction v arbitrary: s rule: PathUnescape.induct)
  case (2 c v)
  show ?case
  proof (cases "c = CHR ''%''")
    case True
    with 2(3) obtain a b v' i j t where v: "v = a # b # v'" "hex_val a = Some i" "hex_val b = Some j"
      and t: "PathUnescape v' = Some t" "s = char_of (16 * i + j) # t"
      by (auto split: list.splits option.splits)
    from 2(1) [OF True v(1) refl _ v(2,3) t(1)] have "length t \<le> length v'" by simp
    then show ?thesis by (simp add: v t)
  next
    case False
    with 2(3) obtain t where t: "PathUnescape v = Some t" "s = c # t" by auto
    from 2(2) [OF False t(1)] show ?thesis using False t(2) by auto
  qed
qed simp

lemma contains_single: "contains s [c] \<longleftrightarrow> c \<in> set s"
  by (induction s) auto

lemma bad_param_None:
  "bad_param env v = None \<longleftrightarrow> CHR ''%'' \<notin> set v \<and> CHR ''?'' \<notin> set v \<and> CHR ''#'' \<notin> set v"
proof (cases "CHR ''%'' \<in> set v")
  case True
  then have "PathUnescape v = Some s \<Longrightarrow> s \<noteq> v" for s using PathUnescape_length [of v s] by auto
  with True show ?thesis by (auto simp: bad_param_def split: option.split)
next
  case False
  then show ?thesis by (simp add: bad_param_def PathUnescape_plain contains_single)
qed

lemma paramChecker_None:
  "paramChecker env ps = None \<longleftrightarrow> (\<forall>v \<in> snd ` set ps. bad_param env v = None)"
proof (induction ps)
  case (Cons kv ps)
  then show ?case by (cases kv; cases "bad_param env (snd kv)") auto
qed simp

lemma gin_params_values: "snd ` set (gin_params ps) \<subseteq> snd ` set ps"
proof -
  have "snd ` set (fold (\<lambda>(k, v). mput (CanonicalMIMEHeaderKey (take 1 k) @ drop 1 k) v) ps m) \<subseteq>
      snd ` set ps \<union> snd ` set m" for m
  proof (induction ps arbitrary: m)
    case (Cons kv ps)
    obtain k v where kv: "kv = (k, v)" by (cases kv)
    have "snd ` set (mput (CanonicalMIMEHeaderKey (take 1 k) @ drop 1 k) v m) \<subseteq> insert v (snd ` set m)"
      using set_mput_subset [of "CanonicalMIMEHeaderKey (take 1 k) @ drop 1 k" v m] by auto
    then show ?case
      using Cons.IH [of "mput (CanonicalMIMEHeaderKey (take 1 k) @ drop 1 k) v m"] by (simp add: kv) blast
  qed simp
  from this [of "[]"] show ?thesis by (simp add: gin_params_def)
qed

lemma set_replace_all: "set (replace_all old new s) \<subseteq> set new \<union> set s"
proof (induction old new s rule: replace_all.induct)
  case (2 old new c cs)
  then show ?case using set_drop_subset [of "length old" "c # cs"] by auto
qed simp

text \<open>The characters of a path are those of the pattern and of the values.\<close>

lemma GeneratePath_chars:
  "c \<in> set (rq_Path (GeneratePath pattern r)) \<Longrightarrow>
   c \<in> set pattern \<or> (\<exists>v \<in> snd ` set (rq_Params r). c \<in> set v)"
proof -
  have fold: "c \<in> set (fold (\<lambda>(k, v) buff. replace_all (placeholder k) v buff) ps s) \<Longrightarrow>
      c \<in> set s \<or> (\<exists>v \<in> snd ` set ps. c \<in> set v)" for ps s
  proof (induction ps arbitrary: s)
    case (Cons kv ps)
    then show ?case using set_replace_all by (cases kv) fastforce
  qed simp
  show "c \<in> set (rq_Path (GeneratePath pattern r)) \<Longrightarrow>
      c \<in> set pattern \<or> (\<exists>v \<in> snd ` set (rq_Params r). c \<in> set v)"
    using fold by (auto simp: GeneratePath_def split: if_splits)
qed

lemma distinct_url_Query: "distinct (keys (url_Query text))"
proof -
  have "distinct (keys m) \<Longrightarrow> distinct (keys (fold (\<lambda>(k, v) m.
      mput k ((case map_of m k of None \<Rightarrow> [] | Some vs \<Rightarrow> vs) @ [v]) m) kvs m))" for kvs m
    by (induction kvs arbitrary: m) (auto split: prod.split)
  from this [of "[]"] show ?thesis by (simp add: url_Query_def)
qed

lemma distinct_forward_query:
  "distinct (keys Q) \<Longrightarrow> distinct (keys query) \<Longrightarrow> distinct (keys (forward_query Q ss query))"
  by (induction Q ss query rule: forward_query.induct) (auto split: option.split)

text \<open>What a client can put in the query of a backend's URL, from end to end.\<close>

definition allowed_values :: "string list \<Rightarrow> http_in \<Rightarrow> string \<Rightarrow> string list" where
  "allowed_values queryString r k =
     (if k \<in> set queryString \<or> requestParamsAsterisk \<in> set queryString
      then read_values (ir_RawQuery r) k else [])"

lemma forwarded_query:
  "values_of (forward_query (url_Query text) ss []) k =
     (if k \<in> set ss \<or> requestParamsAsterisk \<in> set ss then read_values text k else [])"
proof (cases "requestParamsAsterisk \<in> set ss")
  case True
  then show ?thesis by (simp add: forward_query_all url_Query_lookup)
next
  case False
  have "values_of ([] :: string list gmap) k = []" by (simp add: values_of_def)
  then show ?thesis using forward_query_lookup [OF False, of "url_Query text" "[]" k]
    by (auto simp: url_Query_lookup False)
qed

text \<open>
  C30. With the gin router's check of parameters on, the parameters of a path cannot add query strings:
  when a request passes the check, and neither the host nor the URL pattern has a query of its own, a
  reader of the query of the URL sent to a backend finds under each name the values the client sent
  under it if the endpoint lists that name (or the asterisk), and nothing otherwise.
\<close>

theorem gin_query_exact:
  assumes "paramChecker env ps = None"
    and "r = gin_NewRequest agent hs ps ip q queryString"
    and "\<forall>c \<in> set (host @ pattern). c \<noteq> CHR ''?'' \<and> c \<noteq> CHR ''#''"
    and "url_Parse net_url (host @ rq_Path (GeneratePath pattern r)) = Inr u"
  shows "read_values (u_RawQuery (add_query (query_of (GeneratePath pattern r)) u)) k =
    allowed_values queryString q k"
proof -
  have params: "rq_Params r = gin_params ps" and query: "query_of (GeneratePath pattern r) =
      forward_query (url_Query (ir_RawQuery q)) queryString []"
    by (simp_all add: assms(2) gin_NewRequest_def Let_def GeneratePath_def query_of_def)
  have val: "CHR ''?'' \<notin> set v \<and> CHR ''#'' \<notin> set v" if "v \<in> snd ` set (gin_params ps)" for v
  proof -
    have "v \<in> snd ` set ps" using that gin_params_values by blast
    then show ?thesis using assms(1) unfolding paramChecker_None bad_param_None by blast
  qed
  have path: "x \<notin> set (host @ rq_Path (GeneratePath pattern r))" if "x = CHR ''?'' \<or> x = CHR ''#''" for x
  proof -
    have "x \<notin> set host" "x \<notin> set pattern" using assms(3) that by auto
    moreover have "x \<notin> set v" if "v \<in> snd ` set (rq_Params r)" for v
      using val [of v] that \<open>x = CHR ''?'' \<or> x = CHR ''#''\<close> by (auto simp only: params)
    ultimately show ?thesis using GeneratePath_chars [of x pattern r] by auto
  qed
  have raw: "u_RawQuery u = []"
    using assms(4) path [of "CHR ''?''"] path [of "CHR ''#''"]
    by (auto simp: url_Parse_def split: sum.splits)
  have "distinct (keys (query_of (GeneratePath pattern r)))"
    by (simp add: query distinct_forward_query distinct_url_Query)
  from read_add_query [OF this, of u k] show ?thesis
    by (simp add: raw query forwarded_query allowed_values_def)
qed

theorem gin_query_exact_witness:
  "read_values (u_RawQuery (add_query (query_of (GeneratePath ''/u/{{.Id}}''
      (gin_NewRequest [''k''] [] [(''id'', ''7'')] ''1.2.3.4'' sample_http_in [''x''])))
      \<lparr>u_base = ''h/u/7'', u_RawQuery = []\<rparr>)) ''x'' = [''1'', ''3'']"
proof -
  let ?env = "\<lparr>gx_version = [], gx_errF = \<lambda>_. 500, gx_headers = \<lambda>_. [], gx_returnErrorMsg = False,
    gx_escape_error = \<lambda>_. []\<rparr>"
  let ?r = "gin_NewRequest [''k''] [] [(''id'', ''7'')] ''1.2.3.4'' sample_http_in [''x'']"
  have ok: "paramChecker ?env [(''id'', ''7'')] = None"
    by (simp only: paramChecker_None bad_param_None) simp
  have clean: "\<forall>c \<in> set (''h'' @ ''/u/{{.Id}}''). c \<noteq> CHR ''?'' \<and> c \<noteq> CHR ''#''" by simp
  have "rq_Path (GeneratePath ''/u/{{.Id}}'' ?r) = ''/u/7''" by code_simp
  then have "url_Parse Inr (''h'' @ rq_Path (GeneratePath ''/u/{{.Id}}'' ?r)) =
      Inr \<lparr>u_base = ''h/u/7'', u_RawQuery = []\<rparr>"
    by (simp add: url_Parse_def before_def after_def)
  note gin_query_exact [OF ok refl clean this, of "''x''"]
  moreover have "allowed_values [''x''] sample_http_in ''x'' = [''1'', ''3'']" by code_simp
  ultimately show ?thesis by (rule trans)
qed

section \<open>The two routers\<close>

text \<open>
  Both build the same request for the proxy, given the same client address and parameters.
\<close>

lemma same_request:
  assumes "gc_ClientIP c = clientIP split_host (gc_request c)"
  shows "gin_NewRequest agent (ep_HeadersToPass cfg) (gc_Params c) (gc_ClientIP c) (gc_request c) qs =
    NewRequestBuilder (\<lambda>_. gin_params (gc_Params c)) split_host agent (gc_request c) qs (headers_to_send cfg)"
  by (simp add: gin_NewRequest_def NewRequestBuilder_def headers_to_send_def assms Let_def)

fun completeness_call :: "gin_call \<Rightarrow> bool" where
  "completeness_call (GHeader k _) = (k = CompleteResponseHeaderName)"
| "completeness_call _ = False"

lemma no_completeness_calls:
  "filter completeness_call (add_headers hs) = []"
  "filter completeness_call (note_errors e) = []"
  "filter completeness_call (ErrorResponseWriter e) = []"
  "filter completeness_call (gin_plain_render rd status resp) = []"
proof -
  have adds: "\<forall>x \<in> set (concat (map (\<lambda>(k, vs). map (GAddHeader k) vs) hs)). \<not> completeness_call x" for hs
    by auto
  show "filter completeness_call (add_headers hs) = []"
    unfolding add_headers_def by (rule filter_False [OF adds])
  show "filter completeness_call (note_errors e) = []"
    by (auto simp: note_errors_def filter_empty_conv split: go_err.split)
  show "filter completeness_call (ErrorResponseWriter e) = []"
    by (simp add: ErrorResponseWriter_def)
  show "filter completeness_call (gin_plain_render rd status resp) = []"
    using filter_False [OF adds] by (cases rd) (auto split: option.split)
qed

lemma outcome_completeness:
  "filter completeness_call (gin_outcome env reg rd cfg c resp err) =
     [GHeader CompleteResponseHeaderName
       (if has_data resp \<and> rs_IsComplete (the resp) then ''true'' else ''false'')]"
  by (simp add: gin_outcome_def Let_def no_completeness_calls gin_run_render_def split: option.split)

lemma wr_Sent_hset [simp]: "wr_Sent (hset k v w) = wr_Sent w"
  by (simp add: hset_def)

lemma http_Error_status:
  assumes "wr_Sent w = None"
  shows "fst (reply (http_Error msg code w)) = code"
proof -
  have send: "\<exists>hs. wr_Sent (WriteHeader code w) = Some (code, hs)" if "wr_Sent w = None" for w
    using that by (simp add: WriteHeader_def send_def)
  have kept: "wr_Sent (Write b w) = Some x" if "wr_Sent w = Some x" for b w x
    using that by (simp add: Write_def put_body_def send_def)
  obtain hs where "wr_Sent (http_Error msg code w) = Some (code, hs)"
    using send [of "hset ''X-Content-Type-Options'' ''nosniff''
        (hset ''Content-Type'' ''text/plain; charset=utf-8''
          (w\<lparr>wr_Header := mdel ''Content-Length'' (wr_Header w)\<rparr>))"] assms kept
    unfolding http_Error_def Let_def wr_Sent_hset by auto
  then show ?thesis by (auto simp: reply_def)
qed

lemma respond_error_status:
  assumes "wr_Sent w = None"
  shows "fst (reply (respond env rd cfg None (Some e) w)) =
    (case error_status e of Some n \<Rightarrow> n | None \<Rightarrow> mx_errF env e)"
  using assms by (simp only: respond_def Let_def option.case http_Error_status wr_Sent_hset)


definition sample_gin_env :: gin_env where
  "sample_gin_env =
     \<lparr>gx_version = ''1'', gx_errF = (\<lambda>_. 500), gx_headers = (\<lambda>_. []), gx_returnErrorMsg = False,
      gx_escape_error = (\<lambda>_. [])\<rparr>"

definition sample_gin_context :: gin_context where
  "sample_gin_context =
     \<lparr>gc_request = sample_http_in, gc_status = 200, gc_format = [],
      gc_ClientIP = clientIP Some sample_http_in, gc_Params = []\<rparr>"

definition failing_proxy :: "unit proxy" where
  "failing_proxy ctx r w = (Ret None (Some (EHTTP \<lparr>he_Code = 418, he_Msg = [], he_Enc = []\<rparr>)), r, w)"


end
