(* ===== verification/Router_Adapters.thy ===== *)
theory Router_Adapters
  imports Router_Gin Config_Init
begin

text \<open>
  The adapters to other routers: chi (\<open>router/chi\<close>), gorilla (\<open>router/gorilla\<close>), httptreemux
  (\<open>router/httptreemux\<close>) and negroni (\<open>router/negroni\<close>). All but chi are engines for the mux router;
  chi has a router of its own. They differ in how they turn the parameters of a route into those of
  the proxy request.

  The routing libraries are not part of the repository. \<open>title\<close> is \<open>cases.Title(language.Und)\<close>; the
  values of the parameters of a route are what the library reports; the choice of a path is a
  parameter, and of gorilla the model uses what its documentation says, that routes are tried in the
  order they were added and the first that matches wins.
\<close>

section \<open>Parameters\<close>

definition extractParamsFromEndpoint ::
  "(string \<Rightarrow> string) \<Rightarrow> (string \<Rightarrow> string) \<Rightarrow> string list \<Rightarrow> string gmap" where
  "extractParamsFromEndpoint title URLParam ps =
     fold (\<lambda>param. mput (title (take 1 param) @ drop 1 param) (URLParam param)) ps []"

definition gorillaParamsExtractor :: "(string \<Rightarrow> string) \<Rightarrow> string gmap \<Rightarrow> string gmap" where
  "gorillaParamsExtractor title vars = fold (\<lambda>(key, v). mput (title key) v) vars []"

definition httptreemux_ParamsExtractor :: "(string \<Rightarrow> string) \<Rightarrow> string gmap \<Rightarrow> string gmap" where
  "httptreemux_ParamsExtractor title ps = fold (\<lambda>(key, v). mput (title key) v) ps []"

text \<open>The handler factories: the mux handler over a request builder with these parameters.\<close>

definition NewEndpointHandler ::
  "mux_env \<Rightarrow> render gmap \<Rightarrow> (string \<Rightarrow> string) \<Rightarrow> (http_in \<Rightarrow> (string \<times> string) list) \<Rightarrow> endpoint_config \<Rightarrow>
     'a proxy \<Rightarrow> 'a handler" where
  "NewEndpointHandler env reg title URLParams cfg prxy =
     CustomEndpointHandlerWithHTTPError env reg
       (NewRequestBuilder
         (\<lambda>r. extractParamsFromEndpoint title (\<lambda>k. the (map_of (URLParams r) k)) (map fst (URLParams r)))
         (mx_split_host env) [''KrakenD Version '' @ mx_version env])
       cfg prxy"

definition gorilla_HandlerFactory ::
  "mux_env \<Rightarrow> render gmap \<Rightarrow> (string \<Rightarrow> string) \<Rightarrow> (http_in \<Rightarrow> string gmap) \<Rightarrow> endpoint_config \<Rightarrow>
     'a proxy \<Rightarrow> 'a handler" where
  "gorilla_HandlerFactory env reg title Vars cfg prxy =
     CustomEndpointHandlerWithHTTPError env reg
       (NewRequestBuilder (\<lambda>r. gorillaParamsExtractor title (Vars r)) (mx_split_host env)
         [''KrakenD Version '' @ mx_version env])
       cfg prxy"

section \<open>Engines for the mux router\<close>

definition gorilla_DefaultConfig :: mux_patterns where
  "gorilla_DefaultConfig = \<lparr>mp_Debug = ''/__debug/{params}'', mp_Echo = ''/__echo/{params}''\<rparr>"

definition httptreemux_DefaultConfig :: mux_patterns where
  "httptreemux_DefaultConfig = \<lparr>mp_Debug = ''/__debug/{params}'', mp_Echo = []\<rparr>"

text \<open>\<open>DefaultConfigWithRouter\<close> of negroni keeps all of gorilla's configuration but the engine.\<close>

definition negroni_DefaultConfig :: mux_patterns where
  "negroni_DefaultConfig = gorilla_DefaultConfig"

text \<open>The routes of a gorilla router in the order they were added: method, path and handler.\<close>

type_synonym 'a gorilla_engine = "(string \<times> string \<times> 'a handler) list"

definition gorilla_Handle :: "string \<Rightarrow> string \<Rightarrow> 'h \<Rightarrow> (string \<times> string \<times> 'h) list \<Rightarrow> (string \<times> string \<times> 'h) list"
  where
  "gorilla_Handle pattern m h g = g @ [(m, pattern, h)]"

text \<open>\<open>matches\<close> is gorilla's matching of a path template; \<open>missing\<close> its reply when no route matches.\<close>

definition gorilla_route ::
  "(string \<Rightarrow> http_in \<Rightarrow> bool) \<Rightarrow> (string \<times> string \<times> 'h) list \<Rightarrow> http_in \<Rightarrow> 'h option" where
  "gorilla_route matches g r =
     map_option (\<lambda>(m, p, h). h) (find (\<lambda>(m, p, h). matches p r \<and> m = ir_Method r) g)"

definition gorilla_ServeHTTP ::
  "(string \<Rightarrow> http_in \<Rightarrow> bool) \<Rightarrow> 'a handler \<Rightarrow> 'a gorilla_engine \<Rightarrow> 'a handler" where
  "gorilla_ServeHTTP matches missing g w r ctx world =
     (let w = NewHTTPErrorInterceptor w in
      case gorilla_route matches g r of
        Some h \<Rightarrow> h w r ctx world
      | None \<Rightarrow> missing w r ctx world)"

text \<open>
  Negroni runs its own handlers (those of \<open>Classic\<close>, then the given ones) around the gorilla router;
  \<open>chain\<close> is the handler the library makes of them.
\<close>

record ('a, 'm) negroni_engine =
  ne_routes :: "'a gorilla_engine"
  ne_handlers :: "'m list"

definition newNegroniEngine :: "'m list \<Rightarrow> 'm list \<Rightarrow> ('a, 'm) negroni_engine" where
  "newNegroniEngine classic middlewares = \<lparr>ne_routes = [], ne_handlers = classic @ middlewares\<rparr>"

definition negroni_Handle ::
  "string \<Rightarrow> string \<Rightarrow> 'a handler \<Rightarrow> ('a, 'm) negroni_engine \<Rightarrow> ('a, 'm) negroni_engine" where
  "negroni_Handle pattern m h e = e\<lparr>ne_routes := gorilla_Handle pattern m h (ne_routes e)\<rparr>"

definition negroni_ServeHTTP ::
  "('m list \<Rightarrow> 'a handler \<Rightarrow> 'a handler) \<Rightarrow> (string \<Rightarrow> http_in \<Rightarrow> bool) \<Rightarrow> 'a handler \<Rightarrow>
     ('a, 'm) negroni_engine \<Rightarrow> 'a handler" where
  "negroni_ServeHTTP chain matches missing e w r ctx world =
     chain (ne_handlers e)
       (\<lambda>w r ctx world.
          case gorilla_route matches (ne_routes e) r of
            Some h \<Rightarrow> h w r ctx world
          | None \<Rightarrow> missing w r ctx world)
       (NewHTTPErrorInterceptor w) r ctx world"

text \<open>Httptreemux takes the method first; what it does with the routes is its own.\<close>

definition httptreemux_Handle ::
  "string \<Rightarrow> string \<Rightarrow> 'h \<Rightarrow> (string \<times> string \<times> 'h) list \<Rightarrow> (string \<times> string \<times> 'h) list" where
  "httptreemux_Handle pattern m h g = g @ [(m, pattern, h)]"

definition httptreemux_ServeHTTP ::
  "((string \<times> string \<times> 'a handler) list \<Rightarrow> 'a handler) \<Rightarrow> (string \<times> string \<times> 'a handler) list \<Rightarrow>
     'a handler" where
  "httptreemux_ServeHTTP serve g w = serve g (NewHTTPErrorInterceptor w)"

section \<open>Chi\<close>

text \<open>The calls of the chi router: routes (method, path, handler), the middlewares and the handler of \<open>NotFound\<close>.\<close>

record ('a, 'm) chi_engine =
  ch_middlewares :: "'m list"
  ch_routes :: "(string \<times> string \<times> 'a handler) list"
  ch_NotFound :: "'a handler option"

definition chi_add ::
  "string \<Rightarrow> string \<Rightarrow> 'a handler \<Rightarrow> ('a, 'm) chi_engine \<Rightarrow> ('a, 'm) chi_engine" where
  "chi_add pattern m h e = e\<lparr>ch_routes := ch_routes e @ [(m, pattern, h)]\<rparr>"

definition chi_NewFactory :: "string \<Rightarrow> string" where
  "chi_NewFactory debugPattern = (if debugPattern = [] then ''/__debug/'' else debugPattern)"

definition registerDebugEndpoints :: "string \<Rightarrow> ('a, 'm) chi_engine \<Rightarrow> ('a, 'm) chi_engine" where
  "registerDebugEndpoints debugPattern =
     fold (\<lambda>m. chi_add debugPattern m DebugHandler) [''GET'', ''POST'', ''PUT'', ''PATCH'', ''DELETE'']"

definition chi_registerKrakendEndpoint ::
  "string \<Rightarrow> endpoint_config \<Rightarrow> 'a handler \<Rightarrow> nat \<Rightarrow> ('a, 'm) chi_engine \<Rightarrow> ('a, 'm) chi_engine" where
  "chi_registerKrakendEndpoint meth endpoint h totBackends e =
     (let m = to_upper meth; path = ep_Endpoint endpoint in
      if m \<noteq> ''GET'' \<and> totBackends > 1 \<and> \<not> IsValidSequentialEndpoint endpoint then e
      else if m \<in> set [''GET'', ''POST'', ''PUT'', ''PATCH'', ''DELETE''] then chi_add path m h e
      else e)"

definition chi_registerKrakendEndpoints ::
  "(endpoint_config \<Rightarrow> go_err + 'a proxy) \<Rightarrow> (endpoint_config \<Rightarrow> 'a proxy \<Rightarrow> 'a handler) \<Rightarrow>
     endpoint_config list \<Rightarrow> ('a, 'm) chi_engine \<Rightarrow> ('a, 'm) chi_engine" where
  "chi_registerKrakendEndpoints pf hf endpoints e =
     fold (\<lambda>c e. case pf c of
         Inl _ \<Rightarrow> e
       | Inr proxyStack \<Rightarrow>
           chi_registerKrakendEndpoint (ep_Method c) c (hf c proxyStack) (length (ep_Backend c)) e)
       endpoints e"

text \<open>\<open>http.NotFound\<close> after the header.\<close>

definition chi_NotFound :: "'a handler" where
  "chi_NotFound w r ctx world =
     Served (http_Error ''404 page not found'' 404 (hset CompleteResponseHeaderName ''false'' w)) world"

definition chi_Run ::
  "string \<Rightarrow> 'm list \<Rightarrow> (endpoint_config \<Rightarrow> go_err + 'a proxy) \<Rightarrow>
     (endpoint_config \<Rightarrow> 'a proxy \<Rightarrow> 'a handler) \<Rightarrow> service_config \<Rightarrow> ('a, 'm) chi_engine \<Rightarrow>
     ('a, 'm) chi_engine" where
  "chi_Run debugPattern middlewares pf hf cfg e =
     (let e = e\<lparr>ch_middlewares := ch_middlewares e @ middlewares\<rparr>;
          e = (if sc_Debug cfg then registerDebugEndpoints debugPattern e else e);
          e = chi_add ''/__health'' ''GET'' HealthHandler e;
          e = chi_registerKrakendEndpoints pf hf (sc_Endpoints cfg) e in
      e\<lparr>ch_NotFound := Some chi_NotFound\<rparr>)"

section \<open>Every engine has the routes\<close>

definition gorilla_get :: "(string \<times> string \<times> 'h) list \<Rightarrow> string \<Rightarrow> string \<Rightarrow> 'h option" where
  "gorilla_get g p m = map_option (\<lambda>(m, p, h). h) (find (\<lambda>(m', p', h). p' = p \<and> m' = m) g)"

lemma find_append: "find P (xs @ ys) = (case find P xs of None \<Rightarrow> find P ys | Some x \<Rightarrow> Some x)"
  by (induction xs) auto

interpretation gorilla_routes: route_table gorilla_Handle gorilla_get
  by unfold_locales (auto simp: gorilla_Handle_def gorilla_get_def find_append split: option.splits)

interpretation negroni_routes: route_table negroni_Handle "\<lambda>e. gorilla_get (ne_routes e)"
  by unfold_locales
    (simp_all add: negroni_Handle_def gorilla_routes.get_new gorilla_routes.get_other)

interpretation chi_routes: route_table chi_add "\<lambda>e. gorilla_get (ch_routes e)"
proof unfold_locales
  have "ch_routes (chi_add p m h e) = gorilla_Handle p m h (ch_routes e)"
    for p m and h :: "'a handler" and e :: "('a, 'm) chi_engine"
    by (simp add: chi_add_def gorilla_Handle_def)
  note add = this
  show "gorilla_get (ch_routes (chi_add p m h e)) p m = Some h"
    if "gorilla_get (ch_routes e) p m = None"
    for e :: "('a, 'm) chi_engine" and p m h
    by (simp only: add gorilla_routes.get_new [OF that])
  show "gorilla_get (ch_routes (chi_add p m h e)) p' m' = gorilla_get (ch_routes e) p' m'"
    if "(p', m') \<noteq> (p, m)" for p' m' p m h and e :: "('a, 'm) chi_engine"
    by (simp only: add gorilla_routes.get_other [OF that])
qed

text \<open>Chi's registration is that of the mux router with its own engine.\<close>

lemma chi_register_one:
  "chi_registerKrakendEndpoint m c h n e = registerKrakendEndpoint chi_add m c h n e"
  by (simp add: chi_registerKrakendEndpoint_def registerKrakendEndpoint_def supported_methods_def Let_def)

lemma chi_registers: "chi_registerKrakendEndpoints pf hf cs e = registerKrakendEndpoints chi_add pf hf cs e"
  unfolding chi_registerKrakendEndpoints_def registerKrakendEndpoints_def chi_register_one
  by (simp add: register_one_def [abs_def])


text \<open>
  With two endpoints on one path and method the routers differ: the basic engine serves the last of
  them, gorilla the first.
\<close>

lemma duplicate_routes_differ:
  assumes "pf c = Inr p" and "pf c' = Inr p'" and "ep_Endpoint c' = ep_Endpoint c"
    and "to_upper (ep_Method c') = to_upper (ep_Method c)"
    and "to_upper (ep_Method c) \<in> set supported_methods"
  shows "engine_handler (registerKrakendEndpoints Handle pf hf [c, c'] DefaultEngine)
      (ep_Endpoint c) (to_upper (ep_Method c)) = Some (hf c' p')"
    and "gorilla_get (registerKrakendEndpoints gorilla_Handle pf hf [c, c'] [])
      (ep_Endpoint c) (to_upper (ep_Method c)) = Some (hf c p)"
  using assms by (simp_all add: register_routes route_of_def engine_handler_Handle gorilla_Handle_def
      gorilla_get_def)

section \<open>Parameters of the path\<close>

text \<open>
  A fold that stores every pair under the key made from its name, when the keys differ.
\<close>

lemma map_of_keyed:
  assumes "distinct (map (\<lambda>(k, v). key k) ps)" and "(k, v) \<in> set ps"
  shows "map_of (fold (\<lambda>(k, v). mput (key k) v) ps m) (key k) = Some v"
proof -
  have other: "x \<notin> (\<lambda>(k, v). key k) ` set qs \<Longrightarrow>
      map_of (fold (\<lambda>(k, v). mput (key k) v) qs m) x = map_of m x" for qs m x
    by (induction qs arbitrary: m) (auto simp: gmap_simps)
  show ?thesis
    using assms
  proof (induction ps arbitrary: m)
    case (Cons kv ps)
    obtain k' v' where kv: "kv = (k', v')" by (cases kv)
    show ?case
    proof (cases "(k, v) = (k', v')")
      case True
      then have "key k \<notin> (\<lambda>(k, v). key k) ` set ps" using Cons.prems(1) by (simp add: kv)
      then show ?thesis using True by (simp add: kv other gmap_simps)
    next
      case False
      then show ?thesis using Cons.prems Cons.IH [of "mput (key k') v' m"] by (auto simp: kv)
    qed
  qed simp
qed

lemma chi_params_fold:
  assumes "distinct (map fst ps)"
  shows "extractParamsFromEndpoint title (\<lambda>k. the (map_of ps k)) (map fst ps) =
    fold (\<lambda>(k, v). mput (param_key title k) v) ps []"
proof -
  have "fold (\<lambda>param. mput (title (take 1 param) @ drop 1 param) (the (map_of ps param))) (map fst qs) m =
      fold (\<lambda>(k, v). mput (param_key title k) v) qs m" if "set qs \<subseteq> set ps" for qs m
    using that
  proof (induction qs arbitrary: m)
    case (Cons kv qs)
    then show ?case
      using map_of_is_SomeI [OF assms, of "fst kv" "snd kv"] by (cases kv) (simp add: param_key_def)
  qed simp
  then show ?thesis unfolding extractParamsFromEndpoint_def by blast
qed

text \<open>
  On a single byte a name can start with, a letter or a digit or one of a few signs, the title caser
  and the canonical form of a header agree.
\<close>

definition ascii_title :: "(string \<Rightarrow> string) \<Rightarrow> bool" where
  "ascii_title title \<longleftrightarrow> (\<forall>c. is_url_key_char c \<longrightarrow> title [c] = CanonicalMIMEHeaderKey [c])"

lemma gin_key:
  assumes "ascii_title title" and "k \<noteq> []" and "is_url_key_char (hd k)"
  shows "CanonicalMIMEHeaderKey (take 1 k) @ drop 1 k = param_key title k"
  using assms by (cases k) (simp_all add: param_key_def ascii_title_def)

text \<open>
  C38. The parameters of a route reach the backend under the keys the configuration gave them. With gin
  and with chi, every parameter the route reports is in the request under the key that \<open>Init\<close> wrote
  into the URL patterns for its name, with the value the route reports, if no two of the names get
  the same key.
\<close>

theorem route_params_keyed:
  assumes "distinct (map (\<lambda>(k, v). param_key title k) ps)" and "(name, v) \<in> set ps"
    and "ascii_title title" and "\<forall>k \<in> fst ` set ps. k \<noteq> [] \<and> is_url_key_char (hd k)"
  shows "map_of (rq_Params (gin_NewRequest agent hs ps ip r qs)) (param_key title name) = Some v \<and>
    map_of (extractParamsFromEndpoint title (\<lambda>k. the (map_of ps k)) (map fst ps))
      (param_key title name) = Some v"
proof -
  have names: "distinct (map fst ps)"
    using assms(1) by (induction ps) (auto simp: image_iff)
  have keyed: "map_of (fold (\<lambda>(k, v). mput (param_key title k) v) ps []) (param_key title name) = Some v"
    by (rule map_of_keyed [OF assms(1,2)])
  moreover have "gin_params ps = fold (\<lambda>(k, v). mput (param_key title k) v) ps []"
    unfolding gin_params_def
    by (rule fold_cong) (use assms(4) gin_key [OF assms(3)] in \<open>auto simp: fun_eq_iff\<close>)
  ultimately show ?thesis
    by (simp add: gin_NewRequest_def Let_def chi_params_fold [OF names])
qed

text \<open>
  Gorilla, negroni and httptreemux pass the whole name to the title caser, which writes every letter
  but the first in lower case: a parameter in camel case then has a key that no URL pattern uses.
\<close>

lemma gorilla_params_lose_case:
  assumes "title ''userId'' = ''Userid''" and "title ''u'' = ''U''"
  shows "map_of (gorillaParamsExtractor title [(''userId'', v)]) (param_key title ''userId'') = None"
    and "map_of (httptreemux_ParamsExtractor title [(''userId'', v)]) (param_key title ''userId'') = None"
  using assms by (simp_all add: gorillaParamsExtractor_def httptreemux_ParamsExtractor_def param_key_def)

section \<open>Examples\<close>

definition sample_title :: "string \<Rightarrow> string" where
  "sample_title s = (case s of [c] \<Rightarrow> CanonicalMIMEHeaderKey [c] | _ \<Rightarrow> s)"

definition sample_params :: "(string \<times> string) list" where
  "sample_params = [(''id'', ''7''), (''userId'', ''x'')]"

theorem route_params_keyed_witness:
  "map_of (rq_Params (gin_NewRequest [] [] sample_params [] sample_http_in []))
     (param_key sample_title ''userId'') = Some ''x''"
proof -
  have d: "distinct (map (\<lambda>(k, v). param_key sample_title k) sample_params)" by code_simp
  have m: "(''userId'', ''x'') \<in> set sample_params" by (simp add: sample_params_def)
  have t: "ascii_title sample_title" by (simp add: ascii_title_def sample_title_def)
  have n: "\<forall>k \<in> fst ` set sample_params. k \<noteq> [] \<and> is_url_key_char (hd k)" by code_simp
  show ?thesis by (rule route_params_keyed [OF d m t n, THEN conjunct1])
qed


end
