(* ===== verification/Http_Server.thy ===== *)
theory Http_Server
  imports Config_Init
begin

text \<open>
  The HTTP server of \<open>transport/http/server/server.go\<close>: TLS settings, certificate pools, the default
  transport, and the start and end of the server.

  \<open>tls_os\<close> is what the code asks of the system: reading a file, the system's pool of certificates, and
  \<open>tls.LoadX509KeyPair\<close>. A pool is the list of what was added to it; which certificates a PEM text
  holds is the library's business. Messages to the logger are left out.
\<close>

section \<open>TLS settings\<close>

record tls_os =
  os_ReadFile :: "string \<Rightarrow> string option"
  os_SystemCertPool :: "string list option"
  os_LoadX509KeyPair :: "string \<Rightarrow> string \<Rightarrow> go_err + string"

abbreviation VersionTLS13 :: "16 word" where "VersionTLS13 \<equiv> 0x0304"

definition versions :: "16 word gmap" where
  "versions =
     [(''SSL3.0'', 0x0300), (''TLS10'', 0x0301), (''TLS11'', 0x0302), (''TLS12'', 0x0303),
      (''TLS13'', 0x0304)]"

definition parseTLSVersion :: "string \<Rightarrow> 16 word" where
  "parseTLSVersion key = (case map_of versions key of Some v \<Rightarrow> v | None \<Rightarrow> VersionTLS13)"

text \<open>P-521, P-384 and P-256; the six ECDHE suites with GCM or ChaCha20.\<close>

definition defaultCurves :: "16 word list" where
  "defaultCurves = [25, 24, 23]"

definition defaultCipherSuites :: "16 word list" where
  "defaultCipherSuites = [0xc02f, 0xc02b, 0xc030, 0xc02c, 0xcca8, 0xcca9]"

definition parseCurveIDs :: "16 word list \<Rightarrow> 16 word list" where
  "parseCurveIDs cs = (if length cs = 0 then defaultCurves else cs)"

definition parseCipherSuites :: "16 word list \<Rightarrow> 16 word list" where
  "parseCipherSuites cs = (if length cs = 0 then defaultCipherSuites else cs)"

text \<open>Files that cannot be read are skipped.\<close>

definition loadCertPool :: "tls_os \<Rightarrow> bool \<Rightarrow> string list \<Rightarrow> string list" where
  "loadCertPool os disableSystemCaPool caCerts =
     fold (\<lambda>path pool. case os_ReadFile os path of Some ca \<Rightarrow> pool @ [ca] | None \<Rightarrow> pool) caCerts
       (if \<not> disableSystemCaPool
        then (case os_SystemCertPool os of Some pool \<Rightarrow> pool | None \<Rightarrow> [])
        else [])"

definition loadClientCerts :: "tls_os \<Rightarrow> client_tls_cert list \<Rightarrow> string list" where
  "loadClientCerts os certFiles =
     fold (\<lambda>c certs.
       case os_LoadX509KeyPair os (cc_Certificate c) (cc_PrivateKey c) of
         Inl _ \<Rightarrow> certs | Inr cert \<Rightarrow> certs @ [cert]) certFiles []"

record tls_config =
  tc_MinVersion :: "16 word"
  tc_MaxVersion :: "16 word"
  tc_CurvePreferences :: "16 word list"
  tc_CipherSuites :: "16 word list"
  tc_Certificates :: "string list"
  tc_RootCAs :: "string list option"
  tc_InsecureSkipVerify :: bool
  tc_ClientCAs :: "string list option"
  tc_RequireAndVerifyClientCert :: bool

definition ParseTLSConfigWithLogger :: "tls_os \<Rightarrow> tls option \<Rightarrow> tls_config option" where
  "ParseTLSConfigWithLogger os cfg =
     (case cfg of
        None \<Rightarrow> None
      | Some c \<Rightarrow>
          if tls_IsDisabled c then None
          else
            (let tlsConfig =
               \<lparr>tc_MinVersion = parseTLSVersion (tls_MinVersion c),
                tc_MaxVersion = parseTLSVersion (tls_MaxVersion c),
                tc_CurvePreferences = parseCurveIDs (tls_CurvePreferences c),
                tc_CipherSuites = parseCipherSuites (tls_CipherSuites c),
                tc_Certificates = [], tc_RootCAs = None, tc_InsecureSkipVerify = False,
                tc_ClientCAs = None, tc_RequireAndVerifyClientCert = False\<rparr> in
             if \<not> tls_EnableMTLS c then Some tlsConfig
             else
               (let certPool = loadCertPool os (tls_DisableSystemCaPool c) (tls_CaCerts c);
                    certPool = fold (\<lambda>cert pool.
                      case os_ReadFile os (kp_PublicKey cert) of
                        None \<Rightarrow> pool | Some caCert \<Rightarrow> pool @ [caCert]) (tls_Keys c) certPool in
                Some (tlsConfig\<lparr>tc_ClientCAs := Some certPool,
                                tc_RequireAndVerifyClientCert := True\<rparr>))))"

definition ParseClientTLSConfigWithLogger :: "tls_os \<Rightarrow> client_tls option \<Rightarrow> tls_config option" where
  "ParseClientTLSConfigWithLogger os cfg =
     map_option (\<lambda>c.
       \<lparr>tc_MinVersion = parseTLSVersion (ct_MinVersion c),
        tc_MaxVersion = parseTLSVersion (ct_MaxVersion c),
        tc_CurvePreferences = parseCurveIDs (ct_CurvePreferences c),
        tc_CipherSuites = parseCipherSuites (ct_CipherSuites c),
        tc_Certificates = loadClientCerts os (ct_ClientCerts c),
        tc_RootCAs = Some (loadCertPool os (ct_DisableSystemCaPool c) (ct_CaCerts c)),
        tc_InsecureSkipVerify = ct_AllowInsecureConnections c,
        tc_ClientCAs = None, tc_RequireAndVerifyClientCert = False\<rparr>) cfg"

section \<open>The default transport\<close>

record transport =
  tr_DialTimeout :: int
  tr_DialKeepAlive :: int
  tr_FallbackDelay :: int
  tr_DisableCompression :: bool
  tr_DisableKeepAlives :: bool
  tr_MaxIdleConns :: int
  tr_MaxIdleConnsPerHost :: int
  tr_IdleConnTimeout :: int
  tr_ResponseHeaderTimeout :: int
  tr_ExpectContinueTimeout :: int
  tr_TLSHandshakeTimeout :: int
  tr_TLSClientConfig :: "tls_config option"

definition NewTransport :: "tls_os \<Rightarrow> service_config \<Rightarrow> transport" where
  "NewTransport os cfg =
     \<lparr>tr_DialTimeout = sc_DialerTimeout cfg, tr_DialKeepAlive = sc_DialerKeepAlive cfg,
      tr_FallbackDelay = sc_DialerFallbackDelay cfg,
      tr_DisableCompression = sc_DisableCompression cfg,
      tr_DisableKeepAlives = sc_DisableKeepAlives cfg, tr_MaxIdleConns = sc_MaxIdleConns cfg,
      tr_MaxIdleConnsPerHost = sc_MaxIdleConnsPerHost cfg,
      tr_IdleConnTimeout = sc_IdleConnTimeout cfg,
      tr_ResponseHeaderTimeout = sc_ResponseHeaderTimeout cfg,
      tr_ExpectContinueTimeout = sc_ExpectContinueTimeout cfg,
      tr_TLSHandshakeTimeout = 10 * Second,
      tr_TLSClientConfig = ParseClientTLSConfigWithLogger os (sc_ClientTLS cfg)\<rparr>"

definition zero_client_tls :: client_tls where
  "zero_client_tls =
     \<lparr>ct_AllowInsecureConnections = False, ct_CaCerts = [], ct_DisableSystemCaPool = False,
      ct_MinVersion = [], ct_MaxVersion = [], ct_CurvePreferences = [], ct_CipherSuites = [],
      ct_ClientCerts = []\<rparr>"

text \<open>
  \<open>state\<close> is the default transport once the code has set it (\<open>onceTransportConfig\<close>).
\<close>

definition InitHTTPDefaultTransportWithLogger ::
  "tls_os \<Rightarrow> service_config \<Rightarrow> transport option \<Rightarrow> transport option" where
  "InitHTTPDefaultTransportWithLogger os cfg state =
     (let cfg = (if sc_AllowInsecureConnections cfg
                 then cfg\<lparr>sc_ClientTLS := Some ((case sc_ClientTLS cfg of
                          None \<Rightarrow> zero_client_tls | Some c \<Rightarrow> c)\<lparr>ct_AllowInsecureConnections := True\<rparr>)\<rparr>
                 else cfg) in
      case state of None \<Rightarrow> Some (NewTransport os cfg) | Some t \<Rightarrow> Some t)"

section \<open>The server\<close>

record http_server =
  hs_Addr :: string
  hs_H2C :: bool
  hs_ReadTimeout :: int
  hs_WriteTimeout :: int
  hs_ReadHeaderTimeout :: int
  hs_IdleTimeout :: int
  hs_TLSConfig :: "tls_config option"
  hs_MaxHeaderBytes :: int

text \<open>\<open>net.JoinHostPort\<close>: a host with a colon goes in brackets.\<close>

definition JoinHostPort :: "string \<Rightarrow> string \<Rightarrow> string" where
  "JoinHostPort host port =
     (if CHR '':'' \<in> set host then ''['' @ host @ '']:'' @ port else host @ '':'' @ port)"

definition NewServerWithLogger :: "tls_os \<Rightarrow> service_config \<Rightarrow> http_server" where
  "NewServerWithLogger os cfg =
     \<lparr>hs_Addr = JoinHostPort (sc_Address cfg) (itoa (sc_Port cfg)), hs_H2C = sc_UseH2C cfg,
      hs_ReadTimeout = sc_ReadTimeout cfg, hs_WriteTimeout = sc_WriteTimeout cfg,
      hs_ReadHeaderTimeout = sc_ReadHeaderTimeout cfg, hs_IdleTimeout = sc_IdleTimeout cfg,
      hs_TLSConfig = ParseTLSConfigWithLogger os (sc_TLS cfg),
      hs_MaxHeaderBytes = sc_MaxHeaderBytes cfg\<rparr>"

abbreviation ErrPublicKey :: go_err where "ErrPublicKey \<equiv> EOther ''public key not defined''"
abbreviation ErrPrivateKey :: go_err where "ErrPrivateKey \<equiv> EOther ''private key not defined''"

text \<open>The loop over the pairs of keys: the certificates, or the first error.\<close>

fun load_keys :: "tls_os \<Rightarrow> tls_key_pair list \<Rightarrow> string list \<Rightarrow> go_err + string list" where
  "load_keys os [] certs = Inr certs"
| "load_keys os (k # ks) certs =
     (if kp_PublicKey k = [] then Inl ErrPublicKey
      else if kp_PrivateKey k = [] then Inl ErrPrivateKey
      else
        (case os_LoadX509KeyPair os (kp_PublicKey k) (kp_PrivateKey k) of
           Inl err \<Rightarrow> Inl err
         | Inr cert \<Rightarrow> load_keys os ks (certs @ [cert])))"

text \<open>All the pairs: those of the list and the single one, which is added last.\<close>

definition all_keys :: "tls \<Rightarrow> tls_key_pair list" where
  "all_keys c =
     (if tls_PublicKey c \<noteq> [] \<or> tls_PrivateKey c \<noteq> []
      then tls_Keys c @ [\<lparr>kp_PublicKey = tls_PublicKey c, kp_PrivateKey = tls_PrivateKey c\<rparr>]
      else tls_Keys c)"

text \<open>How the server starts: in the clear, with TLS and its certificates, or not at all.\<close>

datatype server_start = ListenAndServe http_server | ListenAndServeTLS http_server

definition start_server :: "tls_os \<Rightarrow> service_config \<Rightarrow> go_err + server_start" where
  "start_server os cfg =
     (let s = NewServerWithLogger os cfg in
      case (hs_TLSConfig s, sc_TLS cfg) of
        (Some tc, Some c) \<Rightarrow>
          if length (all_keys c) = 0 then Inl ErrPublicKey
          else
            (case load_keys os (all_keys c) (tc_Certificates tc) of
               Inl err \<Rightarrow> Inl err
             | Inr certs \<Rightarrow>
                 Inr (ListenAndServeTLS (s\<lparr>hs_TLSConfig := Some (tc\<lparr>tc_Certificates := certs\<rparr>)\<rparr>)))
      | _ \<Rightarrow> Inr (ListenAndServe s))"

text \<open>
  What ends a running server: the listener's own error, or the end of the context, which shuts it
  down with a limit of time or none (\<^const>\<open>None\<close>). The result of \<open>Shutdown\<close> is a parameter.
\<close>

datatype server_event = ListenerDone "go_err option" | ContextDone

fun end_server ::
  "(int option \<Rightarrow> go_err option) \<Rightarrow> service_config \<Rightarrow> server_event \<Rightarrow> go_err option" where
  "end_server shutdown cfg (ListenerDone err) = err"
| "end_server shutdown cfg ContextDone =
     (if sc_MaxShutdownDuration cfg \<le> 0 then shutdown None
      else shutdown (Some (sc_MaxShutdownDuration cfg)))"

definition RunServerWithLoggerFactory ::
  "tls_os \<Rightarrow> (int option \<Rightarrow> go_err option) \<Rightarrow> service_config \<Rightarrow> (server_start \<Rightarrow> server_event) \<Rightarrow> go_err option"
  where
  "RunServerWithLoggerFactory os shutdown cfg event =
     (case start_server os cfg of
        Inl err \<Rightarrow> Some err
      | Inr s \<Rightarrow> end_server shutdown cfg (event s))"

section \<open>What a started server guarantees\<close>

definition key_loads :: "tls_os \<Rightarrow> tls_key_pair \<Rightarrow> string \<Rightarrow> bool" where
  "key_loads os k cert \<longleftrightarrow>
     kp_PublicKey k \<noteq> [] \<and> kp_PrivateKey k \<noteq> [] \<and>
     os_LoadX509KeyPair os (kp_PublicKey k) (kp_PrivateKey k) = Inr cert"

lemma load_keys_Inr:
  "load_keys os ks certs = Inr res \<longleftrightarrow> (\<exists>new. res = certs @ new \<and> list_all2 (key_loads os) ks new)"
proof (induction os ks certs arbitrary: res rule: load_keys.induct)
  case (2 os k ks certs)
  show ?case
  proof (cases "\<exists>cert. key_loads os k cert")
    case True
    then obtain cert where k: "key_loads os k cert" by blast
    then have only: "key_loads os k c \<longleftrightarrow> c = cert" for c by (auto simp: key_loads_def)
    from k have parts: "kp_PublicKey k \<noteq> []" "kp_PrivateKey k \<noteq> []"
        "os_LoadX509KeyPair os (kp_PublicKey k) (kp_PrivateKey k) = Inr cert"
      by (simp_all add: key_loads_def)
    then have "load_keys os (k # ks) certs = load_keys os ks (certs @ [cert])" by simp
    moreover have "load_keys os ks (certs @ [cert]) = Inr res \<longleftrightarrow>
        (\<exists>new. res = (certs @ [cert]) @ new \<and> list_all2 (key_loads os) ks new)"
      by (rule 2 [OF parts])
    ultimately show ?thesis by (auto simp: list_all2_Cons1 only)
  next
    case False
    then show ?thesis
      by (auto simp: key_loads_def list_all2_Cons1 split: sum.splits)
  qed
qed auto

lemma loadCertPool_own:
  "set pool \<subseteq> set (fold (\<lambda>cert pool. case os_ReadFile os (kp_PublicKey cert) of
      None \<Rightarrow> pool | Some caCert \<Rightarrow> pool @ [caCert]) ks pool)"
proof (induction ks arbitrary: pool)
  case (Cons k ks)
  show ?case
    using Cons.IH [of pool] Cons.IH [of "pool @ [x]" for x]
    by (cases "os_ReadFile os (kp_PublicKey k)") simp_all
qed simp

text \<open>What a TLS configuration of the code has, whatever is configured.\<close>

lemma parsed_tls:
  assumes "ParseTLSConfigWithLogger os (Some c) = Some tc"
  shows "\<not> tls_IsDisabled c" and "tc_Certificates tc = []"
    and "tc_CurvePreferences tc \<noteq> []" and "tc_CipherSuites tc \<noteq> []"
    and "tls_MinVersion c \<notin> fst ` set versions \<Longrightarrow> tc_MinVersion tc = VersionTLS13"
    and "tls_EnableMTLS c \<longleftrightarrow> tc_RequireAndVerifyClientCert tc"
    and "tls_EnableMTLS c \<Longrightarrow> \<exists>pool. tc_ClientCAs tc = Some pool \<and>
      set (loadCertPool os (tls_DisableSystemCaPool c) (tls_CaCerts c)) \<subseteq> set pool"
  using assms
  by (auto simp: ParseTLSConfigWithLogger_def Let_def parseCurveIDs_def defaultCurves_def
      parseCipherSuites_def defaultCipherSuites_def parseTLSVersion_def
      map_of_eq_None_iff [THEN iffD2] split: if_splits intro: subsetD [OF loadCertPool_own])


definition some_files :: tls_os where
  "some_files =
     \<lparr>os_ReadFile = (\<lambda>path. Some (''pem of '' @ path)), os_SystemCertPool = None,
      os_LoadX509KeyPair = (\<lambda>public private. Inr (public @ '' with '' @ private))\<rparr>"

definition one_key :: tls where
  "one_key =
     \<lparr>tls_IsDisabled = False, tls_PublicKey = ''cert.pem'', tls_PrivateKey = ''key.pem'',
      tls_CaCerts = [], tls_MinVersion = ''TLS9'', tls_MaxVersion = [],
      tls_CurvePreferences = [], tls_PreferServerCipherSuites = False, tls_CipherSuites = [],
      tls_EnableMTLS = True,
      tls_DisableSystemCaPool = False, tls_Keys = []\<rparr>"


definition keyed_service :: service_config where
  "keyed_service = zero_service\<lparr>sc_TLS := Some one_key, sc_Port := 8443\<rparr>"


end
