(* ===== verification/Plugin_Loader.thy ===== *)
theory Plugin_Loader
  imports Proxy_Plugin
begin

text \<open>
  Loading plugins and using what they register: \<open>plugin/plugin.go\<close>, the three loaders
  (\<open>proxy/plugin/modifier.go\<close>, \<open>transport/http/client/plugin/plugin.go\<close>,
  \<open>transport/http/server/plugin/plugin.go\<close>), the executor of a backend
  (\<open>transport/http/client/plugin/executor.go\<close>) and the handler of the server
  (\<open>transport/http/server/plugin/server.go\<close>).

  Reading a directory, joining paths and opening a shared object are parameters. What the code can
  see of an opened plugin is a record: for every symbol the error of \<open>Lookup\<close>, or what the value
  behind the symbol does.
\<close>

section \<open>Scanning a folder\<close>

text \<open>\<open>read_dir\<close> gives the entries of a folder, a name and whether it is a directory; \<open>join_path\<close> is \<open>filepath.Join\<close>.\<close>

definition Scan ::
  "(string \<Rightarrow> go_err + (string \<times> bool) list) \<Rightarrow> (string \<Rightarrow> string \<Rightarrow> string) \<Rightarrow> string \<Rightarrow> string \<Rightarrow>
     go_err + string list" where
  "Scan read_dir join_path folder pattern =
     (case read_dir folder of
        Inl err \<Rightarrow> Inl err
      | Inr files \<Rightarrow>
          Inr (map (\<lambda>(name, _). join_path folder name)
                 (filter (\<lambda>(name, is_dir). \<not> is_dir \<and> contains name pattern) files)))"

section \<open>Opening a plugin\<close>

text \<open>
  A looked up value: the calls it makes to the registration function when it is a registerer, and the
  panic its code ends with, if it does (from the registration itself or from the logger and context
  it is handed before, when there are no calls).
\<close>

record 'f symbol =
  sy_calls :: "'f list option"
  sy_panic :: "go_err option"

type_synonym 'f plugin = "string \<Rightarrow> go_err + 'f symbol"

text \<open>\<open>open\<close>: a panic is recovered as the error; what was registered before it stays.\<close>

definition open_plugin ::
  "string \<Rightarrow> string \<Rightarrow> (string \<Rightarrow> go_err + 'f plugin) \<Rightarrow> ('f \<Rightarrow> 'r \<Rightarrow> 'r) \<Rightarrow> string \<Rightarrow> 'r \<Rightarrow>
     go_err option \<times> 'r" where
  "open_plugin symbol unknown opener reg_fn pluginName r =
     (case opener pluginName of
        Inl err \<Rightarrow> (Some err, r)
      | Inr p \<Rightarrow>
          (case p symbol of
             Inl err \<Rightarrow> (Some err, r)
           | Inr s \<Rightarrow>
               (case sy_calls s of
                  None \<Rightarrow> (Some (EOther unknown), r)
                | Some calls \<Rightarrow> (sy_panic s, fold reg_fn calls r))))"

definition plugin_error :: "nat \<Rightarrow> string \<Rightarrow> go_err \<Rightarrow> go_err" where
  "plugin_error k pluginName err =
     EOther (''plugin #'' @ itoa (int k) @ '' ('' @ pluginName @ ''): '' @ err_text err)"

text \<open>The text of a \<open>loaderError\<close>.\<close>

definition loader_error :: "go_err list \<Rightarrow> string" where
  "loader_error errs =
     ''plugin loader found '' @ itoa (int (length errs)) @ '' error(s): '' @ [CHR 0x0A] @
     join [CHR 0x0A] (map err_text errs)"

text \<open>The loop of \<open>load\<close> from the plugin number \<open>k\<close>: how many were loaded, and the errors.\<close>

fun load_loop ::
  "(string \<Rightarrow> 'r \<Rightarrow> go_err option \<times> 'r) \<Rightarrow> nat \<Rightarrow> string list \<Rightarrow> 'r \<Rightarrow> nat \<times> go_err list \<times> 'r" where
  "load_loop opn k [] r = (0, [], r)"
| "load_loop opn k (pluginName # plugins) r =
     (case opn pluginName r of
        (Some err, r) \<Rightarrow>
          (case load_loop opn (Suc k) plugins r of
             (n, errs, r) \<Rightarrow> (n, plugin_error k pluginName err # errs, r))
      | (None, r) \<Rightarrow>
          (case load_loop opn (Suc k) plugins r of (n, errs, r) \<Rightarrow> (Suc n, errs, r)))"

definition load_plugins ::
  "(string \<Rightarrow> 'r \<Rightarrow> go_err option \<times> 'r) \<Rightarrow> string list \<Rightarrow> 'r \<Rightarrow> (nat \<times> go_err list option) \<times> 'r" where
  "load_plugins opn plugins r =
     (case load_loop opn 0 plugins r of
        (n, errs, r) \<Rightarrow> ((n, if length errs > 0 then Some errs else None), r))"

text \<open>The error of a load is the one of the scan or the errors of the plugins.\<close>

datatype load_error = ScanError go_err | LoaderErrors "go_err list"

definition load_folder ::
  "(go_err + string list) \<Rightarrow> (string \<Rightarrow> 'r \<Rightarrow> go_err option \<times> 'r) \<Rightarrow> 'r \<Rightarrow>
     (nat \<times> load_error option) \<times> 'r" where
  "load_folder scanned opn r =
     (case scanned of
        Inl err \<Rightarrow> ((0, Some (ScanError err)), r)
      | Inr plugins \<Rightarrow>
          (case load_plugins opn plugins r of
             ((n, errs), r) \<Rightarrow> ((n, map_option LoaderErrors errs), r)))"

section \<open>The three loaders\<close>

abbreviation client_Namespace :: string where
  "client_Namespace \<equiv> ''github.com/devopsfaith/krakend/transport/http/client/executor''"

abbreviation server_Namespace :: string where
  "server_Namespace \<equiv> ''github_com/devopsfaith/krakend/transport/http/server/handler''"

definition RegisterClient :: "string \<Rightarrow> 'f \<Rightarrow> 'f namespaced \<Rightarrow> 'f namespaced" where
  "RegisterClient name h reg = Namespaced_Register client_Namespace name h reg"

definition RegisterHandler :: "string \<Rightarrow> 'f \<Rightarrow> 'f namespaced \<Rightarrow> 'f namespaced" where
  "RegisterHandler name h reg = Namespaced_Register server_Namespace name h reg"

definition client_open ::
  "(string \<Rightarrow> go_err + (string \<times> 'f) plugin) \<Rightarrow> string \<Rightarrow> 'f namespaced \<Rightarrow>
     go_err option \<times> 'f namespaced" where
  "client_open opener =
     open_plugin ''ClientRegisterer'' ''http-request-executor plugin loader: unknown type'' opener
       (\<lambda>(name, h). RegisterClient name h)"

definition server_open ::
  "(string \<Rightarrow> go_err + (string \<times> 'f) plugin) \<Rightarrow> string \<Rightarrow> 'f namespaced \<Rightarrow>
     go_err option \<times> 'f namespaced" where
  "server_open opener =
     open_plugin ''HandlerRegisterer'' ''http-server-handler plugin loader: unknown type'' opener
       (\<lambda>(name, h). RegisterHandler name h)"

definition modifier_open ::
  "(string \<Rightarrow> go_err + (string \<times> 'f \<times> bool \<times> bool) plugin) \<Rightarrow> string \<Rightarrow> 'f namespaced \<Rightarrow>
     go_err option \<times> 'f namespaced" where
  "modifier_open opener =
     open_plugin ''ModifierRegisterer'' ''modifier plugin loader: unknown type'' opener
       (\<lambda>(name, mf, q, s). RegisterModifier name mf q s)"

definition client_Load ::
  "(go_err + string list) \<Rightarrow> (string \<Rightarrow> go_err + (string \<times> 'f) plugin) \<Rightarrow> 'f namespaced \<Rightarrow>
     (nat \<times> load_error option) \<times> 'f namespaced" where
  "client_Load scanned opener = load_folder scanned (client_open opener)"

definition server_Load ::
  "(go_err + string list) \<Rightarrow> (string \<Rightarrow> go_err + (string \<times> 'f) plugin) \<Rightarrow> 'f namespaced \<Rightarrow>
     (nat \<times> load_error option) \<times> 'f namespaced" where
  "server_Load scanned opener = load_folder scanned (server_open opener)"

definition modifier_Load ::
  "(go_err + string list) \<Rightarrow> (string \<Rightarrow> go_err + (string \<times> 'f \<times> bool \<times> bool) plugin) \<Rightarrow>
     'f namespaced \<Rightarrow> (nat \<times> load_error option) \<times> 'f namespaced" where
  "modifier_Load scanned opener = load_folder scanned (modifier_open opener)"

section \<open>The executor of a backend\<close>

text \<open>
  A factory makes a handler from the section of the backend, or fails. The executor it becomes runs
  the handler on a recorder, whose result is never an error. The register holds factories only, as
  \<open>RegisterClient\<close> is its only writer, so the assertion on the type of an entry always succeeds.
\<close>

type_synonym ('q, 's, 'w) executor = "'q \<Rightarrow> 'w \<Rightarrow> (go_err + 's) \<times> 'w"

definition HTTPRequestExecutorWithContext ::
  "(value gmap \<Rightarrow> go_err + ('q \<Rightarrow> 'w \<Rightarrow> 's \<times> 'w)) namespaced \<Rightarrow> (backend \<Rightarrow> ('q, 's, 'w) executor) \<Rightarrow>
     backend \<Rightarrow> ('q, 's, 'w) executor" where
  "HTTPRequestExecutorWithContext clientRegister next_f cfg =
     (case map_of (be_ExtraConfig cfg) client_Namespace of
        None \<Rightarrow> next_f cfg
      | Some v \<Rightarrow>
          (case as_obj v of
             None \<Rightarrow> next_f cfg
           | Some extra \<Rightarrow>
               (case Namespaced_Get clientRegister client_Namespace of
                  None \<Rightarrow> next_f cfg
                | Some r \<Rightarrow>
                    (case obind (map_of extra ''name'') as_str of
                       None \<Rightarrow> next_f cfg
                     | Some name \<Rightarrow>
                         (case Untyped_Get r name of
                            None \<Rightarrow> next_f cfg
                          | Some hf \<Rightarrow>
                              (case hf extra of
                                 Inl err \<Rightarrow> next_f cfg
                               | Inr h \<Rightarrow> (\<lambda>req w. case h req w of (s, w) \<Rightarrow> (Inr s, w))))))))"

section \<open>The handler of the server\<close>

text \<open>The names of the section: one string, or the strings of a list.\<close>

definition plugin_names :: "value \<Rightarrow> string list option" where
  "plugin_names v =
     (case v of
        VStr name \<Rightarrow> Some [name]
      | VArr xs \<Rightarrow> Some (List.map_filter as_str xs)
      | _ \<Rightarrow> None)"

text \<open>One plugin around the handler: it is skipped when it is not there or fails.\<close>

definition wrap_handler ::
  "(value gmap \<Rightarrow> 'h \<Rightarrow> go_err + 'h) untyped \<Rightarrow> value gmap \<Rightarrow> string \<Rightarrow> 'h \<Rightarrow> 'h" where
  "wrap_handler r extra name h =
     (case Untyped_Get r name of
        None \<Rightarrow> h
      | Some hf \<Rightarrow> (case hf extra h of Inl err \<Rightarrow> h | Inr h' \<Rightarrow> h'))"

text \<open>The handler \<open>New\<close> runs the server with.\<close>

definition server_plugin_handler ::
  "(value gmap \<Rightarrow> 'h \<Rightarrow> go_err + 'h) namespaced \<Rightarrow> service_config \<Rightarrow> 'h \<Rightarrow> 'h" where
  "server_plugin_handler serverRegister cfg h =
     (case map_of (sc_ExtraConfig cfg) server_Namespace of
        None \<Rightarrow> h
      | Some v \<Rightarrow>
          (case as_obj v of
             None \<Rightarrow> h
           | Some extra \<Rightarrow>
               (case Namespaced_Get serverRegister server_Namespace of
                  None \<Rightarrow> h
                | Some r \<Rightarrow>
                    (case obind (map_of extra ''name'') plugin_names of
                       None \<Rightarrow> h
                     | Some fifo \<Rightarrow> fold (wrap_handler r extra) fifo h))))"

definition server_plugin_New ::
  "(value gmap \<Rightarrow> 'h \<Rightarrow> go_err + 'h) namespaced \<Rightarrow> (service_config \<Rightarrow> 'h \<Rightarrow> 'b) \<Rightarrow> service_config \<Rightarrow>
     'h \<Rightarrow> 'b" where
  "server_plugin_New serverRegister next_run cfg h =
     next_run cfg (server_plugin_handler serverRegister cfg h)"

section \<open>What a load leaves\<close>

text \<open>The error of a plugin and the calls it makes do not depend on the register.\<close>

definition plugin_failure ::
  "string \<Rightarrow> string \<Rightarrow> (string \<Rightarrow> go_err + 'f plugin) \<Rightarrow> string \<Rightarrow> go_err option" where
  "plugin_failure symbol unknown opener name =
     (case opener name of
        Inl err \<Rightarrow> Some err
      | Inr p \<Rightarrow>
          (case p symbol of
             Inl err \<Rightarrow> Some err
           | Inr s \<Rightarrow> if sy_calls s = None then Some (EOther unknown) else sy_panic s))"

definition plugin_calls :: "string \<Rightarrow> (string \<Rightarrow> go_err + 'f plugin) \<Rightarrow> string \<Rightarrow> 'f list" where
  "plugin_calls symbol opener name =
     (case opener name of
        Inl err \<Rightarrow> []
      | Inr p \<Rightarrow>
          (case p symbol of
             Inl err \<Rightarrow> []
           | Inr s \<Rightarrow> (case sy_calls s of None \<Rightarrow> [] | Some calls \<Rightarrow> calls)))"

lemma open_plugin_eq:
  "open_plugin symbol unknown opener reg_fn name r =
     (plugin_failure symbol unknown opener name, fold reg_fn (plugin_calls symbol opener name) r)"
  by (simp add: open_plugin_def plugin_failure_def plugin_calls_def split: sum.split option.split)

fun plugin_errors :: "(string \<Rightarrow> go_err option) \<Rightarrow> nat \<Rightarrow> string list \<Rightarrow> go_err list" where
  "plugin_errors failure k [] = []"
| "plugin_errors failure k (n # ps) =
     (case failure n of
        None \<Rightarrow> plugin_errors failure (Suc k) ps
      | Some err \<Rightarrow> plugin_error k n err # plugin_errors failure (Suc k) ps)"

lemma plugin_errors_Nil: "plugin_errors failure k ps = [] \<longleftrightarrow> (\<forall>p \<in> set ps. failure p = None)"
  by (induction ps arbitrary: k) (auto split: option.split)

lemma load_loop_eq:
  "load_loop (open_plugin symbol unknown opener reg_fn) k plugins r =
     (length (filter (\<lambda>n. plugin_failure symbol unknown opener n = None) plugins),
      plugin_errors (plugin_failure symbol unknown opener) k plugins,
      fold reg_fn (concat (map (plugin_calls symbol opener) plugins)) r)"
proof (induction plugins arbitrary: k r)
  case Nil
  then show ?case by simp
next
  case (Cons n plugins)
  show ?case
    unfolding load_loop.simps open_plugin_eq [of symbol unknown opener reg_fn n r] prod.case Cons.IH
    by (cases "plugin_failure symbol unknown opener n") simp_all
qed

text \<open>The definitions last registered under a name by the plugins, in the order of the scan.\<close>

definition registered :: "string \<Rightarrow> (string \<Rightarrow> go_err + (string \<times> 'f) plugin) \<Rightarrow> string list \<Rightarrow> string \<Rightarrow> 'f option"
  where
  "registered symbol opener plugins name =
     map_of (rev (concat (map (plugin_calls symbol opener) plugins))) name"

lemma load_folder_eq:
  "load_folder (Inr plugins) (open_plugin symbol unknown opener reg_fn) r =
     (case load_loop (open_plugin symbol unknown opener reg_fn) 0 plugins r of
        (n, errs, r) \<Rightarrow> ((n, if errs = [] then None else Some (LoaderErrors errs)), r))"
  by (simp add: load_folder_def load_plugins_def split: prod.split)

lemma fold_namespaced_lookup:
  "ns_lookup (fold (\<lambda>(name, h). Namespaced_Register ns name h) calls reg) (ns, name) =
     (case map_of (rev calls) name of None \<Rightarrow> ns_lookup reg (ns, name) | Some h \<Rightarrow> Some h)"
proof (induction calls arbitrary: reg)
  case (Cons c calls)
  show ?case
    using Cons.IH [of "Namespaced_Register ns (fst c) (snd c) reg"]
    by (cases c) (auto simp: ns_lookup_Register map_add_def split: option.splits)
qed simp


text \<open>
  A plugin that panics half way counts as failed, and what it registered before stays.
\<close>

lemma failed_plugin_stays_registered:
  assumes "opener ''p'' = Inr (\<lambda>_. Inr \<lparr>sy_calls = Some [(''n'', h)], sy_panic = Some err\<rparr>)"
  shows "\<exists>reg. client_Load (Inr [''p'']) opener New = ((0, Some (LoaderErrors [plugin_error 0 ''p'' err])), reg)
    \<and> ns_lookup reg (client_Namespace, ''n'') = Some h"
proof -
  have calls: "plugin_calls ''ClientRegisterer'' opener ''p'' = [(''n'', h)]"
    and failure: "plugin_failure ''ClientRegisterer''
      ''http-request-executor plugin loader: unknown type'' opener ''p'' = Some err"
    by (simp_all add: plugin_calls_def plugin_failure_def assms)
  show ?thesis
    unfolding client_Load_def client_open_def load_folder_eq load_loop_eq
    by (simp add: calls failure RegisterClient_def ns_lookup_Register del: One_nat_def)
qed

section \<open>A plugin\<close>

definition echo_plugin :: "string \<Rightarrow> go_err + (string \<times> (value gmap \<Rightarrow> go_err + (string \<Rightarrow> nat \<Rightarrow> string \<times> nat))) plugin"
  where
  "echo_plugin file =
     Inr (\<lambda>symbol.
       if symbol = ''ClientRegisterer''
       then Inr \<lparr>sy_calls = Some [(''echo'', \<lambda>extra. Inr (\<lambda>req w. (req, w + 1)))], sy_panic = None\<rparr>
       else Inl (EOther ''no symbol''))"

definition echo_backend :: backend where
  "echo_backend =
     zero_backend\<lparr>be_ExtraConfig := [(client_Namespace, VObj [(''name'', VStr ''echo'')])]\<rparr>"


end
