(* ===== verification/Async_Agents.thy ===== *)
theory Async_Agents
  imports Config_Init Backoff
begin

text \<open>
  The starter of asynchronous agents (\<open>async/asyncagent.go\<close>): for every agent of the configuration it
  builds a proxy pipe and offers the agent to the factories until one accepts it.

  The proxy factory and the agent factories (drivers of message brokers, in other repositories) are
  parameters; a factory sees the options and may change the world, whose goroutines, channels and
  error group are not modelled.
\<close>

section \<open>Options\<close>

text \<open>\<open>ShouldContinue\<close> closes over the number of retries of the agent, which \<open>ao_Agent\<close> holds.\<close>

record 'p async_options =
  ao_Agent :: async_agent
  ao_Endpoint :: endpoint_config
  ao_Proxy :: 'p
  ao_BackoffF :: strategy

definition ShouldContinue :: "'p async_options \<Rightarrow> int \<Rightarrow> bool" where
  "ShouldContinue opts i \<longleftrightarrow> i \<le> cn_MaxRetries (aa_Connection (ao_Agent opts))"

text \<open>\<open>math.MaxInt\<close> on a 64-bit machine.\<close>

abbreviation MaxInt :: int where "MaxInt \<equiv> 2 ^ 63 - 1"

text \<open>The verb \<open>%02d\<close> of a number that is not negative.\<close>

definition two_digits :: "nat \<Rightarrow> string" where
  "two_digits n = (if n < 10 then CHR ''0'' # digits_of n else digits_of n)"

section \<open>Start\<close>

text \<open>The agent with its name and the timeout of its consumer in every backend.\<close>

definition agent_named :: "nat \<Rightarrow> async_agent \<Rightarrow> async_agent" where
  "agent_named i agent =
     (let agent = (if aa_Name agent = [] then agent\<lparr>aa_Name := ''AsyncAgent-'' @ two_digits i\<rparr> else agent) in
      agent\<lparr>aa_Backend := map (\<lambda>b. b\<lparr>be_Timeout := cs_Timeout (aa_Consumer agent)\<rparr>) (aa_Backend agent)\<rparr>)"

definition agent_endpoint :: "async_agent \<Rightarrow> endpoint_config" where
  "agent_endpoint agent =
     zero_endpoint\<lparr>ep_Endpoint := aa_Name agent, ep_Timeout := cs_Timeout (aa_Consumer agent),
       ep_Backend := aa_Backend agent, ep_ExtraConfig := aa_ExtraConfig agent\<rparr>"

text \<open>The options of agent number \<open>i\<close>, when its pipe can be built.\<close>

definition agent_options ::
  "(endpoint_config \<Rightarrow> go_err + 'p) \<Rightarrow> nat \<Rightarrow> async_agent \<Rightarrow> 'p async_options option" where
  "agent_options pf i agent =
     (let agent = agent_named i agent; endpoint = agent_endpoint agent in
      case pf endpoint of
        Inl err \<Rightarrow> None
      | Inr p \<Rightarrow>
          (let agent = (if cn_MaxRetries (aa_Connection agent) \<le> 0
                        then agent\<lparr>aa_Connection := (aa_Connection agent)\<lparr>cn_MaxRetries := MaxInt\<rparr>\<rparr>
                        else agent) in
           Some \<lparr>ao_Agent = agent, ao_Endpoint = endpoint, ao_Proxy = p,
                 ao_BackoffF = GetByName (cn_BackoffStrategy (aa_Connection agent))\<rparr>))"

text \<open>The loop over the factories, which the first that accepts ends.\<close>

fun offer :: "('o \<Rightarrow> 'w \<Rightarrow> bool \<times> 'w) list \<Rightarrow> 'o \<Rightarrow> 'w \<Rightarrow> 'w" where
  "offer [] opts w = w"
| "offer (f # fs) opts w = (case f opts w of (accepted, w) \<Rightarrow> if accepted then w else offer fs opts w)"

fun start_agents ::
  "(endpoint_config \<Rightarrow> go_err + 'p) \<Rightarrow> ('p async_options \<Rightarrow> 'w \<Rightarrow> bool \<times> 'w) list \<Rightarrow> nat \<Rightarrow>
     async_agent list \<Rightarrow> 'w \<Rightarrow> 'w" where
  "start_agents pf a i [] w = w"
| "start_agents pf a i (agent # agents) w =
     start_agents pf a (Suc i) agents
       (case agent_options pf i agent of None \<Rightarrow> w | Some opts \<Rightarrow> offer a opts w)"

abbreviation ErrNoAgents :: go_err where "ErrNoAgents \<equiv> EOther ''no agent factories defined''"

text \<open>
  \<open>AgentStarter.Start\<close>: the world after it, and the error the returned function is known to give (with
  factories it waits for the group).
\<close>

definition AgentStarter_Start ::
  "('p async_options \<Rightarrow> 'w \<Rightarrow> bool \<times> 'w) list \<Rightarrow> (endpoint_config \<Rightarrow> go_err + 'p) \<Rightarrow>
     async_agent list \<Rightarrow> 'w \<Rightarrow> go_err option \<times> 'w" where
  "AgentStarter_Start a pf agents w =
     (if length a = 0 then (Some ErrNoAgents, w) else (None, start_agents pf a 0 agents w))"

section \<open>Who starts an agent\<close>

text \<open>A factory that keeps a record of the options it is offered.\<close>

definition recording ::
  "('o \<Rightarrow> bool) \<Rightarrow> nat \<Rightarrow> 'o \<Rightarrow> (nat \<times> 'o) list \<Rightarrow> bool \<times> (nat \<times> 'o) list" where
  "recording accepts k opts w = (accepts opts, w @ [(k, opts)])"

text \<open>The offers of one agent: every factory up to the first that accepts.\<close>

fun offers :: "('o \<Rightarrow> bool) list \<Rightarrow> nat \<Rightarrow> 'o \<Rightarrow> (nat \<times> 'o) list" where
  "offers [] k opts = []"
| "offers (f # fs) k opts = (k, opts) # (if f opts then [] else offers fs (Suc k) opts)"

lemma offer_recording:
  "offer (map (\<lambda>(k, f). recording f k) (zip [k..<k + length fs] fs)) opts w = w @ offers fs k opts"
proof (induction fs arbitrary: k w)
  case (Cons f fs)
  have "[k..<k + length (f # fs)] = k # [Suc k..<Suc k + length fs]"
    unfolding upt_rec [of k "k + length (f # fs)"] by simp
  then show ?case
    using Cons.IH [of "Suc k" "w @ [(k, opts)]"] by (simp add: recording_def del: upt_Suc)
qed simp

lemma offers_set:
  "(j, x) \<in> set (offers fs k opts) \<longleftrightarrow>
     x = opts \<and> k \<le> j \<and> j < k + length fs \<and> (\<forall>i < j - k. \<not> (fs ! i) opts)"
proof (induction fs arbitrary: k)
  case (Cons f fs)
  show ?case
  proof (cases "j = k")
    case False
    have "(\<forall>i < j - k. \<not> ((f # fs) ! i) opts) \<longleftrightarrow> \<not> f opts \<and> (\<forall>i < j - Suc k. \<not> (fs ! i) opts)"
      if "k < j"
    proof -
      have "j - k = Suc (j - Suc k)" using that by simp
      then show ?thesis by (simp add: All_less_Suc2)
    qed
    then show ?thesis using False Cons.IH [of "Suc k"] by auto
  next
    case True
    then show ?thesis using Cons.IH [of "Suc k"] by auto
  qed
qed simp

definition options_ready :: "'p async_options \<Rightarrow> bool" where
  "options_ready opts \<longleftrightarrow>
     ep_Endpoint (ao_Endpoint opts) \<noteq> [] \<and> ep_Endpoint (ao_Endpoint opts) = aa_Name (ao_Agent opts) \<and>
     ep_Timeout (ao_Endpoint opts) \<noteq> 0 \<and>
     (\<forall>b \<in> set (ep_Backend (ao_Endpoint opts)). be_Timeout b = ep_Timeout (ao_Endpoint opts)) \<and>
     ShouldContinue opts 1"

lemma agent_options_ready:
  assumes "agent_options pf i agent = Some opts" and "agent_ready agent"
  shows "options_ready opts"
  using assms
  by (auto simp: agent_options_def agent_named_def agent_endpoint_def options_ready_def Let_def
      ShouldContinue_def agent_ready_def zero_endpoint_def split: sum.splits if_splits)

text \<open>The offers of a list of agents from number \<open>i\<close> on.\<close>

fun all_offers ::
  "(endpoint_config \<Rightarrow> go_err + 'p) \<Rightarrow> ('p async_options \<Rightarrow> bool) list \<Rightarrow> nat \<Rightarrow> async_agent list \<Rightarrow>
     (nat \<times> 'p async_options) list" where
  "all_offers pf fs i [] = []"
| "all_offers pf fs i (agent # agents) =
     (case agent_options pf i agent of None \<Rightarrow> [] | Some opts \<Rightarrow> offers fs 0 opts) @
     all_offers pf fs (Suc i) agents"

definition recorders :: "('o \<Rightarrow> bool) list \<Rightarrow> ('o \<Rightarrow> (nat \<times> 'o) list \<Rightarrow> bool \<times> (nat \<times> 'o) list) list" where
  "recorders fs = map (\<lambda>(k, f). recording f k) (zip [0..<length fs] fs)"

lemma start_agents_recording:
  "start_agents pf (recorders fs) i agents w = w @ all_offers pf fs i agents"
proof (induction agents arbitrary: i w)
  case (Cons agent agents)
  then show ?case
    using offer_recording [of 0 fs] by (simp add: recorders_def split: option.split)
qed simp

lemma all_offers_ready:
  assumes "\<forall>agent \<in> set agents. agent_ready agent" and "(j, opts) \<in> set (all_offers pf fs i agents)"
  shows "options_ready opts \<and> j < length fs \<and> (\<forall>k < j. \<not> (fs ! k) opts)"
  using assms
proof (induction agents arbitrary: i)
  case (Cons agent agents)
  then show ?case
    using agent_options_ready [of pf i agent]
    by (auto simp: offers_set split: option.splits)
qed simp

text \<open>
  C40. How agents are started. With factories that only say whether they accept, every agent whose pipe
  can be built is offered to them in their order up to the first that accepts, and to no other, agent
  by agent; and for the agents of an initialised configuration what is offered is ready to run: a
  named endpoint with the timeout of the consumer, the same in every backend, and at least one retry.
  Without factories nothing happens but the error.
\<close>

theorem agents_offered:
  assumes "\<forall>agent \<in> set agents. agent_ready agent"
  shows "AgentStarter_Start [] pf agents w = (Some ErrNoAgents, w) \<and>
    (fs \<noteq> [] \<longrightarrow> AgentStarter_Start (recorders fs) pf agents [] = (None, all_offers pf fs 0 agents)) \<and>
    (\<forall>(j, opts) \<in> set (all_offers pf fs 0 agents).
       options_ready opts \<and> j < length fs \<and> (\<forall>k < j. \<not> (fs ! k) opts))"
  using all_offers_ready [OF assms, of _ _ pf fs 0]
  by (auto simp: AgentStarter_Start_def start_agents_recording recorders_def [symmetric])
    (simp_all add: recorders_def)

definition sample_agent :: async_agent where
  "sample_agent =
     \<lparr>aa_Name = [], aa_Connection = \<lparr>cn_MaxRetries = 0, cn_BackoffStrategy = ''linear'', cn_HealthInterval = Second\<rparr>,
      aa_Consumer = \<lparr>cs_Timeout = Second, cs_Workers = 1, cs_Topic = ''t'', cs_MaxRate = 0\<rparr>,
      aa_Encoding = ''json'', aa_Backend = [], aa_ExtraConfig = []\<rparr>"

theorem agents_offered_witness:
  "map fst (all_offers (\<lambda>_. Inr ()) [\<lambda>_. False, \<lambda>_. True, \<lambda>_. True] 0 [sample_agent]) = [0, 1] \<and>
   list_all (\<lambda>(j, opts). options_ready opts)
     (all_offers (\<lambda>_. Inr ()) [\<lambda>_. False, \<lambda>_. True, \<lambda>_. True] 0 [sample_agent])"
proof -
  have "\<forall>agent \<in> set [sample_agent]. agent_ready agent"
    by (simp add: agent_ready_def sample_agent_def)
  from agents_offered [OF this, of "\<lambda>_. Inr ()" _ "[\<lambda>_. False, \<lambda>_. True, \<lambda>_. True]"]
  have "\<forall>(j, opts) \<in> set (all_offers (\<lambda>_. Inr ()) [\<lambda>_. False, \<lambda>_. True, \<lambda>_. True] 0 [sample_agent]).
      options_ready opts" by fast
  moreover have "map fst (all_offers (\<lambda>_. Inr ()) [\<lambda>_. False, \<lambda>_. True, \<lambda>_. True] 0 [sample_agent]) = [0, 1]"
    by (simp add: agent_options_def Let_def)
  ultimately show ?thesis by (auto simp: list_all_iff)
qed

end
