(* ===== verification/Logging.thy ===== *)
theory Logging
  imports Go_Values
begin

text \<open>
  The logger (\<open>logging/log.go\<close>) and the middleware that logs requests and responses
  (\<open>proxy/logging.go\<close>). A call of the logger gives the lines it writes; the arguments are texts
  (the verb \<open>%v\<close> of a value is a parameter of the callers), and the date that package \<open>log\<close> puts
  first is left out.
\<close>

section \<open>Levels\<close>

abbreviation LEVEL_DEBUG :: int where "LEVEL_DEBUG \<equiv> 0"
abbreviation LEVEL_INFO :: int where "LEVEL_INFO \<equiv> 1"
abbreviation LEVEL_WARNING :: int where "LEVEL_WARNING \<equiv> 2"
abbreviation LEVEL_ERROR :: int where "LEVEL_ERROR \<equiv> 3"
abbreviation LEVEL_CRITICAL :: int where "LEVEL_CRITICAL \<equiv> 4"

definition logLevels :: "int gmap" where
  "logLevels =
     [(''DEBUG'', LEVEL_DEBUG), (''INFO'', LEVEL_INFO), (''WARNING'', LEVEL_WARNING),
      (''ERROR'', LEVEL_ERROR), (''CRITICAL'', LEVEL_CRITICAL)]"

record basic_logger =
  lg_Level :: int
  lg_Prefix :: string

abbreviation ErrInvalidLogLevel :: go_err where "ErrInvalidLogLevel \<equiv> EOther ''invalid log level''"

definition defaultLogger :: basic_logger where
  "defaultLogger = \<lparr>lg_Level = LEVEL_CRITICAL, lg_Prefix = []\<rparr>"

definition NewLogger :: "string \<Rightarrow> string \<Rightarrow> basic_logger \<times> go_err option" where
  "NewLogger level pre =
     (case map_of logLevels (to_upper level) of
        None \<Rightarrow> (defaultLogger, Some ErrInvalidLogLevel)
      | Some l \<Rightarrow> (\<lparr>lg_Level = l, lg_Prefix = pre\<rparr>, None))"

definition prependLog :: "basic_logger \<Rightarrow> string \<Rightarrow> string list \<Rightarrow> string list" where
  "prependLog l level v = [join '' '' (lg_Prefix l # level # v)]"

definition log_Debug :: "basic_logger \<Rightarrow> string list \<Rightarrow> string list" where
  "log_Debug l v = (if lg_Level l > LEVEL_DEBUG then [] else prependLog l ''DEBUG:'' v)"

definition log_Info :: "basic_logger \<Rightarrow> string list \<Rightarrow> string list" where
  "log_Info l v = (if lg_Level l > LEVEL_INFO then [] else prependLog l ''INFO:'' v)"

definition log_Warning :: "basic_logger \<Rightarrow> string list \<Rightarrow> string list" where
  "log_Warning l v = (if lg_Level l > LEVEL_WARNING then [] else prependLog l ''WARNING:'' v)"

definition log_Error :: "basic_logger \<Rightarrow> string list \<Rightarrow> string list" where
  "log_Error l v = (if lg_Level l > LEVEL_ERROR then [] else prependLog l ''ERROR:'' v)"

definition log_Critical :: "basic_logger \<Rightarrow> string list \<Rightarrow> string list" where
  "log_Critical l v = prependLog l ''CRITICAL:'' v"

text \<open>\<open>Fatal\<close> writes its line and ends the process.\<close>

definition log_Fatal :: "basic_logger \<Rightarrow> string list \<Rightarrow> string list" where
  "log_Fatal l v = prependLog l ''FATAL:'' v"

lemma level_written:
  "log_Debug l v \<noteq> [] \<longleftrightarrow> lg_Level l \<le> LEVEL_DEBUG"
  "log_Info l v \<noteq> [] \<longleftrightarrow> lg_Level l \<le> LEVEL_INFO"
  "log_Warning l v \<noteq> [] \<longleftrightarrow> lg_Level l \<le> LEVEL_WARNING"
  "log_Error l v \<noteq> [] \<longleftrightarrow> lg_Level l \<le> LEVEL_ERROR"
  "log_Critical l v \<noteq> []" "log_Fatal l v \<noteq> []"
  by (auto simp: log_Debug_def log_Info_def log_Warning_def log_Error_def log_Critical_def
      log_Fatal_def prependLog_def)

lemma NewLogger_level:
  "snd (NewLogger level pre) = None \<Longrightarrow>
   LEVEL_DEBUG \<le> lg_Level (fst (NewLogger level pre)) \<and> lg_Level (fst (NewLogger level pre)) \<le> LEVEL_CRITICAL"
  by (auto simp: NewLogger_def logLevels_def split: if_splits option.splits)

section \<open>The logging middleware\<close>

text \<open>
  \<open>put\<close> writes lines to the world, \<open>show_req\<close> and \<open>took\<close> print the request and the time a call took.
\<close>

definition logging_proxy ::
  "(string list \<Rightarrow> 'a world_scheme \<Rightarrow> 'a world_scheme) \<Rightarrow> (request \<Rightarrow> string) \<Rightarrow> (int \<Rightarrow> string) \<Rightarrow>
     basic_logger \<Rightarrow> string \<Rightarrow> 'a proxy \<Rightarrow> 'a proxy" where
  "logging_proxy put show_req took l logPrefix next_p ctx r w =
     (let begin_at = now w;
          w = put (log_Info l [logPrefix, ''Calling backend'']) w;
          w = put (log_Debug l [logPrefix, ''Request'', show_req r]) w in
      case next_p ctx r w of
        (Panic s, r, w) \<Rightarrow> (Panic s, r, w)
      | (Ret result err, r, w) \<Rightarrow>
          (let w = put (log_Info l [logPrefix, ''Call to backend took'', took (now w - begin_at)]) w in
           case err of
             Some e \<Rightarrow>
               (Ret result err, r, put (log_Warning l [logPrefix, ''Call to backend failed:'', err_text e]) w)
           | None \<Rightarrow>
               (Ret result err, r,
                if result = None
                then put (log_Warning l [logPrefix, ''Call to backend returned a null response'']) w
                else w)))"

definition NewLoggingMiddleware ::
  "(string list \<Rightarrow> 'a world_scheme \<Rightarrow> 'a world_scheme) \<Rightarrow> (request \<Rightarrow> string) \<Rightarrow> (int \<Rightarrow> string) \<Rightarrow>
     basic_logger \<Rightarrow> string \<Rightarrow> 'a proxy list \<Rightarrow> 'a proxy built" where
  "NewLoggingMiddleware put show_req took l name next_ps =
     (if length next_ps > 1 then BFatal
      else
        Built (logging_proxy put show_req took l (''['' @ to_upper name @ '']'') (first_proxy next_ps)))"

text \<open>
  The middleware does not touch the call: the answer and the request are those of the next proxy,
  and with a writer that a proxy cannot observe so is the rest of the world.
\<close>

lemma logging_transparent:
  assumes "\<And>ls w. next_p ctx r (put ls w) =
      (case next_p ctx r w of (res, q, w') \<Rightarrow> (res, q, put ls w'))"
    and "\<And>ls w. view (put ls w) = view w"
  shows "(case logging_proxy put show_req took l pre next_p ctx r w of (res, q, w') \<Rightarrow> (res, q, view w')) =
    (case next_p ctx r w of (res, q, w') \<Rightarrow> (res, q, view w'))"
  by (auto simp: logging_proxy_def Let_def assms split: prod.split pres.split option.split)

end
