(* ===== verification/Gateway.thy ===== *)
theory Gateway
  imports Config_Parser Router_Adapters Proxy_Factory
begin

text \<open>
  The gateway as a program puts it together: the parser reads a configuration, the mux router
  registers its endpoints with the stacks of the default factory, and serves requests.
\<close>

section \<open>From the configuration to the routes\<close>

text \<open>
  A call of the proxy factory from the router: the proxy, the error, or \<^const>\<open>None\<close> when it ends the
  process or panics.
\<close>

definition build_proxy ::
  "('a, 't) factory_env \<Rightarrow> endpoint_config \<Rightarrow> (go_err + 'a proxy) option" where
  "build_proxy env cfg =
     (case defaultFactory_New env cfg of
        Inl err \<Rightarrow> Some (Inl err)
      | Inr (Built p) \<Rightarrow> Some (Inr p)
      | Inr _ \<Rightarrow> None)"

text \<open>How a start ends: with an engine to serve, with an error to report, or without control.\<close>

datatype 'a start = Serving service_config "'a engine" | Reported string | Ended

definition start_gateway ::
  "parser_env \<Rightarrow> ('a, 't) factory_env \<Rightarrow> mux_env \<Rightarrow> string \<Rightarrow> 'a start" where
  "start_gateway pv fenv menv file =
     (case Parse pv file of
        None \<Rightarrow> Ended
      | Some (Inl e) \<Rightarrow> Reported (checked_text e)
      | Some (Inr cfg) \<Rightarrow>
          if list_ex (\<lambda>c. Option.is_none (build_proxy fenv c)) (sc_Endpoints cfg) then Ended
          else
            Serving cfg
              (Run_routes Handle menv (NewFactory mux_DefaultConfig) (\<lambda>c. the (build_proxy fenv c))
                (EndpointHandler menv renderRegister) cfg DefaultEngine))"

section \<open>What a started gateway serves\<close>

lemma ready_proxy_built:
  assumes "build_proxy env cfg \<noteq> None" and "endpoint_ready cfg"
  shows "\<exists>p. build_proxy env cfg = Some (Inr p)"
proof -
  have "defaultFactory_New env cfg \<noteq> Inl err" for err
    using assms(2) by (simp add: defaultFactory_New_def endpoint_ready_def Let_def)
  then show ?thesis using assms(1) by (auto simp: build_proxy_def split: sum.splits built.splits)
qed

lemma map_of_rev_distinct:
  assumes "distinct (map fst xs)" and "(k, v) \<in> set xs"
  shows "map_of (rev xs) k = Some v"
  using assms by (simp add: rev_map [symmetric])

lemma handler_runs:
  assumes "ir_Method r = to_upper (ep_Method c)"
  shows "EndpointHandler menv reg c p w r ctx world =
    (case p (with_timeout ctx (ep_Timeout c) world)
       (NewRequestBuilder NoopParamExtractor (mx_split_host menv)
         [''KrakenD Version '' @ mx_version menv] r (ep_QueryString c) (headers_to_send c)) world of
       (Panic s, _, _) \<Rightarrow> ServePanic s
     | (Ret resp err, _, world') \<Rightarrow>
         Served
           (respond menv (getRender reg c) c resp
             (final_error (ctx_err (with_timeout ctx (ep_Timeout c) world) world') err)
             (hset ''X-KRAKEND'' (''Version '' @ mx_version menv) w))
           world')"
  unfolding EndpointHandler_def CustomEndpointHandlerWithHTTPError_def Let_def assms
  by (simp only: simp_thms if_False)

lemma started_serves:
  assumes "start_gateway pv fenv menv file = Serving cfg e"
    and "distinct (map (\<lambda>c. (ep_Endpoint c, to_upper (ep_Method c))) (sc_Endpoints cfg))"
    and "c \<in> set (sc_Endpoints cfg)" and "ir_Method r = to_upper (ep_Method c)"
    and "to_upper (ep_Method c) \<in> set supported_methods"
    and "match (keys e) r = Matched (ep_Endpoint c)"
  shows "ep_Timeout c \<noteq> 0 \<and>
    (\<exists>p. defaultFactory_New fenv c = Inr (Built p) \<and>
       ServeHTTP match e w r ctx world =
         (case p (with_timeout ctx (ep_Timeout c) world)
            (NewRequestBuilder NoopParamExtractor (mx_split_host menv)
              [''KrakenD Version '' @ mx_version menv] r (ep_QueryString c) (headers_to_send c)) world of
            (Panic s, _, _) \<Rightarrow> ServePanic s
          | (Ret resp err, _, world') \<Rightarrow>
              Served
                (respond menv (getRender renderRegister c) c resp
                  (final_error (ctx_err (with_timeout ctx (ep_Timeout c) world) world') err)
                  (hset ''X-KRAKEND'' (''Version '' @ mx_version menv) (NewHTTPErrorInterceptor w)))
                world'))"
proof -
  let ?pf = "\<lambda>c. the (build_proxy fenv c)" and ?hf = "EndpointHandler menv renderRegister"
  let ?routes = "routes_of ?pf ?hf (sc_Endpoints cfg)"
  from assms(1) have parsed: "Parse pv file = Some (Inr cfg)"
    and built: "\<forall>c \<in> set (sc_Endpoints cfg). build_proxy fenv c \<noteq> None"
    and run: "e = Run_routes Handle menv (NewFactory mux_DefaultConfig) ?pf ?hf cfg DefaultEngine"
    by (auto simp: start_gateway_def list_ex_iff Option.is_none_def
        split: option.splits sum.splits if_splits)
  then obtain e0 where e: "e = registerKrakendEndpoints Handle ?pf ?hf (sc_Endpoints cfg) e0"
    by (simp add: Run_routes_def Let_def)
  have ready: "endpoint_ready c"
    using parsed_ready [OF parsed] assms(3) by (simp add: config_ready_def)
  then obtain p where p: "build_proxy fenv c = Some (Inr p)"
    using ready_proxy_built built assms(3) by blast
  have "distinct (map fst ?routes)"
    by (rule distinct_routes [OF assms(2)])
  moreover have "((ep_Endpoint c, ir_Method r), ?hf c p) \<in> set ?routes"
    using assms(3-5) p by (auto simp: route_of_def intro!: bexI [of _ c])
  ultimately have "map_of (rev ?routes) (ep_Endpoint c, ir_Method r) = Some (?hf c p)"
    by (rule map_of_rev_distinct)
  then have "ServeHTTP match e w r ctx world = ?hf c p (NewHTTPErrorInterceptor w) r ctx world"
    using dispatch_routes [of match ?pf ?hf "sc_Endpoints cfg" e0 r "ep_Endpoint c"] assms(6)
    by (simp add: e)
  moreover have "defaultFactory_New fenv c = Inr (Built p)"
    using p by (auto simp: build_proxy_def split: sum.splits built.splits)
  moreover have "ep_Timeout c \<noteq> 0" using ready by (simp add: endpoint_ready_def)
  ultimately show ?thesis unfolding handler_runs [OF assms(4)] by blast
qed

text \<open>
  C3. A gateway that starts serves its configuration. When no two endpoints share a path and method,
  a request with a supported method that the multiplexer matches to the path of an endpoint with that
  method is answered by calling, once, the stack the factory built for that very endpoint, on the
  request made of it and with a context that ends after the endpoint's timeout, which is set; and the
  reply is what the endpoint's handler makes of its answer.
\<close>

theorem gateway_serves:
  assumes "start_gateway pv fenv menv file = Serving cfg e"
    and "distinct (map (\<lambda>c. (ep_Endpoint c, to_upper (ep_Method c))) (sc_Endpoints cfg))"
    and "c \<in> set (sc_Endpoints cfg)" and "ir_Method r = to_upper (ep_Method c)"
    and "to_upper (ep_Method c) \<in> set supported_methods"
    and "match (keys e) r = Matched (ep_Endpoint c)"
  shows "ep_Timeout c \<noteq> 0 \<and>
    (\<exists>p. defaultFactory_New fenv c = Inr (Built p) \<and>
       ServeHTTP match e w r ctx world =
         (case p (with_timeout ctx (ep_Timeout c) world)
            (NewRequestBuilder NoopParamExtractor (mx_split_host menv)
              [''KrakenD Version '' @ mx_version menv] r (ep_QueryString c) (headers_to_send c)) world of
            (Panic s, _, _) \<Rightarrow> ServePanic s
          | (Ret resp err, _, world') \<Rightarrow>
              Served
                (respond menv (getRender renderRegister c) c resp
                  (final_error (ctx_err (with_timeout ctx (ep_Timeout c) world) world') err)
                  (hset ''X-KRAKEND'' (''Version '' @ mx_version menv) (NewHTTPErrorInterceptor w)))
                world'))"
  using assms by (rule started_serves)

section \<open>From the client to a backend\<close>

text \<open>
  What an endpoint lets a client say in a header: a name that is listed takes the values the client
  gave under the canonical form of the name, the asterisk takes everything.
\<close>

definition allowed_header :: "string list \<Rightarrow> http_in \<Rightarrow> string \<Rightarrow> string list option" where
  "allowed_header hs r k =
     (if requestParamsAsterisk \<in> set hs then map_of (ir_Header r) k
      else if k \<in> set hs then map_of (ir_Header r) (CanonicalMIMEHeaderKey k)
      else None)"

text \<open>The headers the gateway sets itself.\<close>

definition identity_headers :: "string list" where
  "identity_headers = [''User-Agent'', ''X-Forwarded-For'', ''X-Forwarded-Host'', ''X-Forwarded-Via'']"

lemma forwarded_header:
  "map_of (forward_headers (ir_Header r) hs []) k = allowed_header hs r k"
  by (simp add: allowed_header_def forward_headers_all forward_headers_lookup)

lemma distinct_forward_headers:
  "distinct (keys H) \<Longrightarrow> distinct (keys headers) \<Longrightarrow> distinct (keys (forward_headers H ks headers))"
  by (induction H ks headers rule: forward_headers.induct) (auto split: option.split)

lemma distinct_set_identity:
  "distinct (keys headers) \<Longrightarrow> distinct (keys (set_identity agent ip host headers))"
  by (simp add: set_identity_def Let_def)

text \<open>
  The contract of an endpoint on one plain backend: \<open>q\<close> is what the backend may be sent on host \<open>h\<close>
  when the client has sent \<open>r\<close>.
\<close>

definition relayed ::
  "('a, 't) factory_env \<Rightarrow> endpoint_config \<Rightarrow> backend \<Rightarrow> string \<Rightarrow> http_in \<Rightarrow> request \<Rightarrow> bool" where
  "relayed env c b h r q \<longleftrightarrow>
     rq_Method q = be_Method b \<and> rq_Body q = ir_Body r \<and>
     (\<forall>k. k \<notin> set identity_headers \<longrightarrow> map_of (rq_Headers q) k =
        (if passes (be_HeadersToPass b) k then allowed_header (headers_to_send c) r k else None)) \<and>
     (\<exists>u. rq_URL q = Some u \<and> bl_net_url (fe_balancing env) (h @ rq_Path q) = Inr (u_base u) \<and>
        (\<forall>k. read_values (u_RawQuery u) k =
           read_values (after (CHR ''?'') (before (CHR ''#'') (h @ rq_Path q))) k @
           (if passes (be_QueryStringsToPass b) k then allowed_values (ep_QueryString c) r k else [])))"

lemma sends_relayed:
  assumes "sends env b h (NewRequestBuilder pe sh agent r (ep_QueryString c) (headers_to_send c)) q"
  shows "relayed env c b h r q"
proof -
  have "map_of (set_identity agent ip host (forward_headers (ir_Header r) (headers_to_send c) [])) k =
      allowed_header (headers_to_send c) r k" if "k \<notin> set identity_headers" for ip host k
    using that by (simp add: identity_headers_def set_identity_lookup forwarded_header)
  moreover have "values_of (forward_query (url_Query (ir_RawQuery r)) (ep_QueryString c) []) k =
      allowed_values (ep_QueryString c) r k" for k
    by (simp add: forwarded_query allowed_values_def)
  ultimately show ?thesis
    using assms by (auto simp: sends_def relayed_def NewRequestBuilder_def query_of_def)
qed

lemma plain_stack:
  assumes "defaultFactory_New env c = Inr (Built p)" and "ep_Backend c = [b]"
    and "section_of (ep_ExtraConfig c) plugin_Namespace = None"
    and "getStaticMiddlewareCfg (ep_ExtraConfig c) = None"
  shows "newStack env b = Built p"
  using assms by (auto simp: defaultFactory_New_def newSingle_def on_top_Built NewPluginMiddleware_def
      NewStaticMiddleware_def EmptyMiddleware_def)

lemma same_answer:
  "fst x = fst y \<Longrightarrow> snd (snd x) = snd (snd y) \<Longrightarrow>
   (case x of (Panic s, _, _) \<Rightarrow> P s | (Ret resp err, _, w) \<Rightarrow> Q resp err w) =
   (case y of (Panic s, _, _) \<Rightarrow> P s | (Ret resp err, _, w) \<Rightarrow> Q resp err w)"
  by (cases x rule: prod_cases3; cases y rule: prod_cases3; cases "fst y") simp_all


section \<open>A gateway\<close>

text \<open>A document with one endpoint on one backend.\<close>

definition sample_document :: parseable_service where
  "sample_document = empty_document\<lparr>ps_Host := [''b:80''],
     ps_Endpoints := [Some \<lparr>pe_Endpoint = ''/u'', pe_Method = [],
       pe_Backend = [Some \<lparr>pb_Group = [], pb_Method = [], pb_Host = [],
         pb_HostSanitizationDisabled = False, pb_URLPattern = ''/a'', pb_AllowList = [],
         pb_DenyList = [], pb_Mapping = [], pb_Encoding = [], pb_IsCollection = False,
         pb_Target = [], pb_ExtraConfig = None, pb_SD = [], pb_HeadersToPass = [],
         pb_SDScheme = [], pb_QueryStringsToPass = []\<rparr>],
       pe_ConcurrentCalls = 0, pe_Timeout = [], pe_CacheTTL = [], pe_QueryString = [],
       pe_ExtraConfig = None, pe_HeadersToPass = [], pe_OutputEncoding = []\<rparr>]\<rparr>"

definition gateway_parser :: parser_env where
  "gateway_parser = sample_parser\<lparr>pv_Unmarshal := \<lambda>_. Inr sample_document\<rparr>"

definition sample_start :: "unit start" where
  "sample_start = start_gateway gateway_parser sample_factory_env sample_mux_env ''krakend.json''"

definition started :: "'a start \<Rightarrow> (service_config \<Rightarrow> bool) \<Rightarrow> bool" where
  "started s P = (case s of Serving cfg e \<Rightarrow> P cfg | _ \<Rightarrow> False)"

lemma sample_started:
  "started sample_start (\<lambda>cfg. map (\<lambda>c. (ep_Endpoint c, ep_Method c)) (sc_Endpoints cfg) = [(''/u'', ''GET'')])"
  by code_simp

theorem gateway_serves_witness:
  "\<exists>cfg e c p. sample_start = Serving cfg e \<and> c \<in> set (sc_Endpoints cfg) \<and> ep_Timeout c \<noteq> 0 \<and>
     defaultFactory_New sample_factory_env c = Inr (Built p)"
proof -
  obtain cfg e where s: "sample_start = Serving cfg e"
    and eps: "map (\<lambda>c. (ep_Endpoint c, ep_Method c)) (sc_Endpoints cfg) = [(''/u'', ''GET'')]"
    using sample_started by (auto simp: started_def split: start.splits)
  then obtain c where c: "sc_Endpoints cfg = [c]" "ep_Endpoint c = ''/u''" "ep_Method c = ''GET''"
    by (auto simp: map_eq_Cons_conv)
  have up: "to_upper ''GET'' = ''GET''" by code_simp
  have d: "distinct (map (\<lambda>c. (ep_Endpoint c, to_upper (ep_Method c))) (sc_Endpoints cfg))"
    by (simp add: c(1))
  have mem: "c \<in> set (sc_Endpoints cfg)" by (simp add: c(1))
  have m: "ir_Method sample_http_in = to_upper (ep_Method c)" by (simp add: c(3) up sample_http_in_def)
  have sup: "to_upper (ep_Method c) \<in> set supported_methods" by (simp add: c(3) up supported_methods_def)
  have p: "(\<lambda>_ _. Matched (ep_Endpoint c)) (keys e) sample_http_in = Matched (ep_Endpoint c)" by simp
  show ?thesis
    using gateway_serves [OF s [unfolded sample_start_def] d mem m sup p] s mem by blast
qed

text \<open>Its one backend is plain.\<close>

definition plain_backend :: "backend \<Rightarrow> bool" where
  "plain_backend b \<longleftrightarrow> be_ConcurrentCalls b \<le> 1 \<and> be_HeadersToPass b = [] \<and>
     be_QueryStringsToPass b = [] \<and> Option.is_none (section_of (be_ExtraConfig b) plugin_Namespace) \<and>
     (case GetOptions sample_gql_lib (be_ExtraConfig b) of Inl _ \<Rightarrow> True | Inr _ \<Rightarrow> False)"

definition plain_endpoint :: "endpoint_config \<Rightarrow> bool" where
  "plain_endpoint c \<longleftrightarrow> ep_Endpoint c = ''/u'' \<and> ep_Method c = ''GET'' \<and> length (ep_Backend c) = 1 \<and>
     list_all plain_backend (ep_Backend c) \<and>
     Option.is_none (section_of (ep_ExtraConfig c) plugin_Namespace) \<and>
     Option.is_none (getStaticMiddlewareCfg (ep_ExtraConfig c))"

lemma sample_plain:
  "started sample_start (\<lambda>cfg. length (sc_Endpoints cfg) = 1 \<and> list_all plain_endpoint (sc_Endpoints cfg))"
  by code_simp

lemma sample_plain_parts:
  obtains cfg e c b err where "sample_start = Serving cfg e" and "sc_Endpoints cfg = [c]"
    and "ep_Endpoint c = ''/u''" and "ep_Method c = ''GET''" and "ep_Backend c = [b]"
    and "section_of (ep_ExtraConfig c) plugin_Namespace = None"
    and "getStaticMiddlewareCfg (ep_ExtraConfig c) = None"
    and "be_ConcurrentCalls b \<le> 1" and "be_HeadersToPass b = []" and "be_QueryStringsToPass b = []"
    and "section_of (be_ExtraConfig b) plugin_Namespace = None"
    and "GetOptions sample_gql_lib (be_ExtraConfig b) = Inl err"
proof -
  obtain cfg e where s: "sample_start = Serving cfg e" and one: "length (sc_Endpoints cfg) = 1"
    and plain: "list_all plain_endpoint (sc_Endpoints cfg)"
    using sample_plain by (auto simp: started_def split: start.splits)
  from one obtain c where c: "sc_Endpoints cfg = [c]" by (auto simp: length_Suc_conv)
  with plain have pc: "plain_endpoint c" by simp
  then obtain b where b: "ep_Backend c = [b]" "plain_backend b"
    by (auto simp: plain_endpoint_def length_Suc_conv)
  from b(2) obtain err where "GetOptions sample_gql_lib (be_ExtraConfig b) = Inl err"
    by (auto simp: plain_backend_def split: sum.splits)
  with s c pc b show thesis
    by (intro that [of cfg e c b err]) (auto simp: plain_endpoint_def plain_backend_def Option.is_none_def)
qed


end
