(* ===== verification/Server_Run.thy ===== *)
theory Server_Run
  imports Http_Server Logging Router_Adapters
begin

text \<open>
  What happens after the routes are made: the goroutine of the listener and the \<open>select\<close> that waits
  for it or for the context (\<open>RunServerWithLoggerFactory\<close> in \<open>transport/http/server/server.go\<close>), the
  end of the \<open>Run\<close> of each router, and the writer gin gets (\<open>router/gin/safecast.go\<close>).
\<close>

section \<open>The listener's goroutine\<close>

text \<open>
  \<open>sr_result\<close> is what the listener returned, once it has; the goroutine then waits to send it on
  \<open>done\<close>, which has no buffer. \<open>sr_sent\<close> tells that it did. \<open>sr_ret\<close> is what the function returned.
\<close>

record server_run =
  sr_result :: "go_err option option"
  sr_sent :: bool
  sr_ctx :: bool
  sr_ret :: "go_err option option"

definition server_init :: server_run where
  "server_init = \<lparr>sr_result = None, sr_sent = False, sr_ctx = False, sr_ret = None\<rparr>"

inductive server_step ::
  "(int option \<Rightarrow> go_err option) \<Rightarrow> service_config \<Rightarrow> server_run \<Rightarrow> server_run \<Rightarrow> bool"
  for shutdown :: "int option \<Rightarrow> go_err option" and cfg :: service_config where
  listener_returns: "sr_result s = None \<Longrightarrow> server_step shutdown cfg s (s\<lparr>sr_result := Some err\<rparr>)"
| context_ends: "\<not> sr_ctx s \<Longrightarrow> server_step shutdown cfg s (s\<lparr>sr_ctx := True\<rparr>)"
| receive: "\<lbrakk>sr_ret s = None; sr_result s = Some err; \<not> sr_sent s\<rbrakk> \<Longrightarrow>
    server_step shutdown cfg s
      (s\<lparr>sr_sent := True, sr_ret := Some (end_server shutdown cfg (ListenerDone err))\<rparr>)"
| shut: "\<lbrakk>sr_ret s = None; sr_ctx s\<rbrakk> \<Longrightarrow>
    server_step shutdown cfg s (s\<lparr>sr_ret := Some (end_server shutdown cfg ContextDone)\<rparr>)"

inductive_cases server_stepE: "server_step shutdown cfg s t"

text \<open>
  What is returned is the listener's result, received, or the result of the shutdown after the end of
  the context.
\<close>

definition server_inv ::
  "(int option \<Rightarrow> go_err option) \<Rightarrow> service_config \<Rightarrow> server_run \<Rightarrow> bool" where
  "server_inv shutdown cfg s \<longleftrightarrow>
     (case sr_ret s of
        None \<Rightarrow> \<not> sr_sent s
      | Some r \<Rightarrow>
          if sr_sent s then (\<exists>err. sr_result s = Some err \<and> r = end_server shutdown cfg (ListenerDone err))
          else sr_ctx s \<and> r = end_server shutdown cfg ContextDone)"

lemma server_reach_inv:
  "(server_step shutdown cfg)\<^sup>*\<^sup>* server_init s \<Longrightarrow> server_inv shutdown cfg s"
proof (induction rule: rtranclp_induct)
  case base
  then show ?case by (simp add: server_inv_def server_init_def)
next
  case (step s t)
  from step(2,3) show ?case
    by (elim server_stepE) (auto simp: server_inv_def split: option.splits if_splits)
qed

lemma server_returns_event:
  assumes "(server_step shutdown cfg)\<^sup>*\<^sup>* server_init s" and "sr_ret s = Some r"
  shows "\<exists>event. r = end_server shutdown cfg event \<and> (event = ContextDone \<longrightarrow> sr_ctx s)"
proof (cases "sr_sent s")
  case True
  then obtain err where "r = end_server shutdown cfg (ListenerDone err)"
    using server_reach_inv [OF assms(1)] assms(2) by (auto simp: server_inv_def)
  then show ?thesis by (intro exI [of _ "ListenerDone err"]) simp
next
  case False
  then show ?thesis using server_reach_inv [OF assms(1)] assms(2)
    by (intro exI [of _ ContextDone]) (simp add: server_inv_def)
qed

text \<open>Until it returns, the function can return as soon as the context ends or the listener does.\<close>

lemma server_can_return:
  assumes "(server_step shutdown cfg)\<^sup>*\<^sup>* server_init s" and "sr_ret s = None"
    and "sr_ctx s \<or> sr_result s \<noteq> None"
  shows "\<exists>t. server_step shutdown cfg s t \<and> sr_ret t \<noteq> None"
proof -
  have "\<not> sr_sent s" using server_reach_inv [OF assms(1)] assms(2) by (simp add: server_inv_def)
  with assms(2,3) show ?thesis by (fastforce intro: server_step.intros)
qed

text \<open>
  The channel has no buffer and nobody receives after the return: once the function has returned
  because of the context, the goroutine of the listener never gets to send, however long the process
  lives, and it can come to where nothing at all moves.
\<close>

lemma returned_stays:
  assumes "(server_step shutdown cfg)\<^sup>*\<^sup>* s t" and "sr_ret s \<noteq> None" and "\<not> sr_sent s"
  shows "sr_ret t \<noteq> None \<and> \<not> sr_sent t"
  using assms
proof (induction rule: rtranclp_induct)
  case (step t u)
  then show ?case by (elim server_stepE) auto
qed simp

lemma listener_goroutine_leaks:
  "\<exists>s. (server_step shutdown cfg)\<^sup>*\<^sup>* server_init s \<and> sr_result s \<noteq> None \<and> \<not> sr_sent s \<and>
     (\<forall>t. \<not> server_step shutdown cfg s t)"
proof -
  let ?closed = "EOther ''http: Server closed''"
  define s1 where "s1 = server_init\<lparr>sr_ctx := True\<rparr>"
  define s2 where "s2 = s1\<lparr>sr_ret := Some (end_server shutdown cfg ContextDone)\<rparr>"
  define s3 where "s3 = s2\<lparr>sr_result := Some (Some ?closed)\<rparr>"
  have "server_step shutdown cfg server_init s1"
    unfolding s1_def by (rule context_ends) (simp add: server_init_def)
  then have "(server_step shutdown cfg)\<^sup>*\<^sup>* server_init s1" by (rule r_into_rtranclp)
  moreover have "server_step shutdown cfg s1 s2"
    unfolding s2_def by (rule shut) (simp_all add: s1_def server_init_def)
  ultimately have "(server_step shutdown cfg)\<^sup>*\<^sup>* server_init s2"
    by (rule rtranclp.rtrancl_into_rtrancl)
  moreover have "server_step shutdown cfg s2 s3"
    unfolding s3_def by (rule listener_returns) (simp add: s2_def s1_def server_init_def)
  ultimately have "(server_step shutdown cfg)\<^sup>*\<^sup>* server_init s3"
    by (rule rtranclp.rtrancl_into_rtrancl)
  moreover have end_state: "sr_result s3 = Some (Some ?closed)" "\<not> sr_sent s3" "sr_ctx s3" "sr_ret s3 \<noteq> None"
    by (simp_all add: s3_def s2_def s1_def server_init_def)
  moreover have "\<not> server_step shutdown cfg s3 t" for t
    using end_state by (auto elim: server_stepE)
  ultimately show ?thesis by (intro exI [of _ s3]) simp
qed

section \<open>The end of a router's run\<close>

text \<open>
  \<open>err\<close> is the result of the server; the lines are those of the logger after the server has ended.
\<close>

abbreviation ErrServerClosed :: go_err where "ErrServerClosed \<equiv> EOther ''http: Server closed''"

definition router_ended :: "basic_logger \<Rightarrow> string \<Rightarrow> go_err option \<Rightarrow> string list" where
  "router_ended l logPrefix err =
     (case err of None \<Rightarrow> [] | Some e \<Rightarrow> log_Error l [logPrefix, err_text e]) @
     log_Info l [logPrefix, ''Router execution ended'']"

text \<open>
  What the mux router logs of an endpoint it registers or leaves out, and of a middleware (\<open>show_m\<close>
  prints it).
\<close>

definition register_lines ::
  "basic_logger \<Rightarrow> (endpoint_config \<Rightarrow> go_err + 'p) \<Rightarrow> endpoint_config \<Rightarrow> string list" where
  "register_lines l pf c =
     (case pf c of
        Inl err \<Rightarrow> log_Error l [''[SERVICE: Mux]'', ''Calling the ProxyFactory'', err_text err]
      | Inr _ \<Rightarrow>
          (let m = to_upper (ep_Method c); path = ep_Endpoint c in
           if m \<noteq> ''GET'' \<and> length (ep_Backend c) > 1 \<and> \<not> IsValidSequentialEndpoint c
           then log_Error l [''[SERVICE: Mux]'', m, '' endpoints with sequential proxy enabled only allow a non-GET in the last backend! Ignoring'', path]
           else if m \<notin> set supported_methods
           then log_Error l [''[SERVICE: Mux]'', ''Unsupported method'', m]
           else log_Debug l [''[SERVICE: Mux]'', ''Registering the endpoint'', m, path]))"

definition middleware_lines :: "basic_logger \<Rightarrow> ('m \<Rightarrow> string) \<Rightarrow> 'm list \<Rightarrow> string list" where
  "middleware_lines l show_m ms =
     concat (map (\<lambda>m. log_Debug l [''[SERVICE: Mux]'', ''Adding the middleware'', show_m m]) ms)"

text \<open>
  The whole run of the mux router: the default transport, the engine, the log. A middleware wraps a
  handler by \<open>wrap\<close>, \<open>as_handler\<close> is the engine's own.
\<close>

definition mux_Run ::
  "tls_os \<Rightarrow> mux_env \<Rightarrow> mux_patterns \<Rightarrow> (endpoint_config \<Rightarrow> go_err + 'a proxy) \<Rightarrow>
     (endpoint_config \<Rightarrow> 'a proxy \<Rightarrow> 'a handler) \<Rightarrow> basic_logger \<Rightarrow> 'm list \<Rightarrow> ('m \<Rightarrow> string) \<Rightarrow>
     ('m \<Rightarrow> 'h \<Rightarrow> 'h) \<Rightarrow> ('a engine \<Rightarrow> 'h) \<Rightarrow> (service_config \<Rightarrow> 'h \<Rightarrow> go_err option) \<Rightarrow>
     service_config \<Rightarrow> 'a engine \<times> transport option \<Rightarrow>
     ('a engine \<times> transport option) \<times> string list" where
  "mux_Run os env patterns pf hf l middlewares show_m wrap as_handler runServer cfg st =
     (let e = Run_routes Handle env patterns pf hf cfg (fst st);
          tr = InitHTTPDefaultTransportWithLogger os cfg (snd st);
          h = httpRouter_handler (map wrap middlewares) (as_handler e) in
      ((e, tr),
       concat (map (register_lines l pf) (sc_Endpoints cfg)) @
       middleware_lines l show_m middlewares @
       router_ended l ''[SERVICE: Mux]'' (runServer cfg h)))"

text \<open>
  No endpoint is dropped in silence: with a logger that writes errors, an endpoint has no route
  exactly when an error is logged for it.
\<close>

lemma prependLog_levels: "prependLog l ''DEBUG:'' v \<noteq> prependLog l ''ERROR:'' v'"
  by (cases v; cases v') (simp_all add: prependLog_def)

lemma dropped_is_reported:
  assumes "lg_Level l \<le> LEVEL_ERROR"
  shows "route_of pf hf c = [] \<longleftrightarrow> (\<exists>v. register_lines l pf c = prependLog l ''ERROR:'' v)"
proof (cases "pf c")
  case (Inl err)
  then show ?thesis using assms by (auto simp: route_of_def register_lines_def log_Error_def)
next
  case (Inr p)
  show ?thesis
  proof (cases "to_upper (ep_Method c) \<in> set supported_methods")
    case True
    have "[] \<noteq> prependLog l ''ERROR:'' v" for v by (simp add: prependLog_def)
    with True Inr prependLog_levels show ?thesis
      by (auto simp: route_of_def register_lines_def log_Debug_def Let_def IsValidSequentialEndpoint_def)
  next
    case False
    with Inr assms show ?thesis
      by (auto simp: route_of_def register_lines_def log_Error_def Let_def)
  qed
qed

text \<open>The run of the chi router; it logs nothing of a middleware.\<close>

definition chi_router_Run ::
  "tls_os \<Rightarrow> string \<Rightarrow> 'm list \<Rightarrow> (endpoint_config \<Rightarrow> go_err + 'a proxy) \<Rightarrow>
     (endpoint_config \<Rightarrow> 'a proxy \<Rightarrow> 'a handler) \<Rightarrow> basic_logger \<Rightarrow>
     (service_config \<Rightarrow> ('a, 'm) chi_engine \<Rightarrow> go_err option) \<Rightarrow> service_config \<Rightarrow>
     ('a, 'm) chi_engine \<times> transport option \<Rightarrow>
     (('a, 'm) chi_engine \<times> transport option) \<times> string list" where
  "chi_router_Run os debugPattern middlewares pf hf l runServer cfg st =
     (let e = chi_Run debugPattern middlewares pf hf cfg (fst st);
          tr = InitHTTPDefaultTransportWithLogger os cfg (snd st) in
      ((e, tr), router_ended l ''[SERVICE: Chi]'' (runServer cfg e)))"

text \<open>The gin router treats a closed server as a normal end.\<close>

definition gin_Run ::
  "tls_os \<Rightarrow> (endpoint_config \<Rightarrow> bool) \<Rightarrow> basic_logger \<Rightarrow>
     (service_config \<Rightarrow> gin_router \<times> (string \<times> string) list \<Rightarrow> go_err option) \<Rightarrow> service_config \<Rightarrow>
     transport option \<Rightarrow> transport option \<times> string list" where
  "gin_Run os built l runServer cfg tr =
     (let tr = InitHTTPDefaultTransportWithLogger os cfg tr;
          engine = registerEndpointsAndMiddlewares built cfg;
          err = runServer cfg engine in
      (tr,
       log_Info l [''[SERVICE: Gin] Listening on port:'', itoa (sc_Port cfg)] @
       router_ended l ''[SERVICE: Gin]'' (if err = Some ErrServerClosed then None else err)))"

text \<open>
  A server that cannot start (a key that is missing or does not load) ends the router with that error
  in the log, and so does a shutdown that fails; a shutdown that succeeds leaves none.
\<close>

lemma mux_Run_reports:
  assumes "start_server os cfg = Inl err" and "lg_Level l \<le> LEVEL_ERROR"
    and "runServer = (\<lambda>cfg _. RunServerWithLoggerFactory os shutdown cfg event)"
  shows "\<exists>ls ls'. snd (mux_Run os env patterns pf hf l ms show_m wrap as_handler runServer cfg st) =
    ls @ prependLog l ''ERROR:'' [''[SERVICE: Mux]'', err_text err] @ ls'"
  using assms
  by (intro exI [of _ "concat (map (register_lines l pf) (sc_Endpoints cfg)) @ middleware_lines l show_m ms"]
      exI [of _ "log_Info l [''[SERVICE: Mux]'', ''Router execution ended'']"])
    (simp add: mux_Run_def Let_def router_ended_def RunServerWithLoggerFactory_def log_Error_def)

text \<open>The default transport is set by the first run only.\<close>

lemma mux_Run_transport:
  "snd (fst (mux_Run os env patterns pf hf l ms show_m wrap as_handler runServer cfg (e, Some tr))) = Some tr"
  "snd (fst (mux_Run os env patterns pf hf l ms show_m wrap as_handler runServer cfg (e, None))) \<noteq> None"
  by (simp_all add: mux_Run_def Let_def InitHTTPDefaultTransportWithLogger_def)

section \<open>The writer of gin\<close>

text \<open>
  A response writer over a state \<open>'w\<close>; the last three operations are of optional interfaces. A
  connection is what \<open>Hijack\<close> gives, and a channel is one the writer made or one on which nothing is
  ever sent.
\<close>

datatype 'c channel = Given 'c | Silent

record ('w, 'n, 'c) http_writer =
  hw_Header :: "'w \<Rightarrow> string list gmap"
  hw_Write :: "string \<Rightarrow> 'w \<Rightarrow> (go_err + nat) \<times> 'w"
  hw_WriteHeader :: "int \<Rightarrow> 'w \<Rightarrow> 'w"
  hw_Flush :: "('w \<Rightarrow> 'w) option"
  hw_Hijack :: "('w \<Rightarrow> (go_err + 'n) \<times> 'w) option"
  hw_CloseNotify :: "('w \<Rightarrow> 'c channel \<times> 'w) option"

definition safeCast :: "('w, 'n, 'c) http_writer \<Rightarrow> ('w, 'n, 'c) http_writer" where
  "safeCast s =
     \<lparr>hw_Header = hw_Header s, hw_Write = hw_Write s, hw_WriteHeader = hw_WriteHeader s,
      hw_Flush = Some (case hw_Flush s of Some f \<Rightarrow> f | None \<Rightarrow> (\<lambda>w. w)),
      hw_Hijack =
        Some (case hw_Hijack s of Some h \<Rightarrow> h | None \<Rightarrow> (\<lambda>w. (Inl (EOther ''not supported''), w))),
      hw_CloseNotify = Some (case hw_CloseNotify s of Some h \<Rightarrow> h | None \<Rightarrow> (\<lambda>w. (Silent, w)))\<rparr>"

definition safeCaster_ServeHTTP ::
  "(('w, 'n, 'c) http_writer \<Rightarrow> 'r \<Rightarrow> 'x) \<Rightarrow> ('w, 'n, 'c) http_writer \<Rightarrow> 'r \<Rightarrow> 'x" where
  "safeCaster_ServeHTTP h w r = h (safeCast w) r"

text \<open>
  Behind it no assertion of an optional interface fails, and a writer that has the interfaces is the
  writer itself: it changes nothing, twice is once.
\<close>

lemma safeCast_total:
  "hw_Flush (safeCast w) \<noteq> None" "hw_Hijack (safeCast w) \<noteq> None" "hw_CloseNotify (safeCast w) \<noteq> None"
  by (simp_all add: safeCast_def)

lemma safeCast_full:
  "hw_Flush w \<noteq> None \<Longrightarrow> hw_Hijack w \<noteq> None \<Longrightarrow> hw_CloseNotify w \<noteq> None \<Longrightarrow> safeCast w = w"
  by (cases w) (auto simp: safeCast_def)

lemma safeCast_twice: "safeCast (safeCast w) = safeCast w"
  by (intro safeCast_full safeCast_total)

end
