(* ===== verification/Proxy_Stream.thy ===== *)
theory Proxy_Stream
  imports Go_Values
begin

text \<open>
  The reader of a body that closes itself (\<open>NewReadCloserWrapper\<close> in \<open>proxy/proxy.go\<close>): a goroutine
  waits for the context and closes the body, the caller reads through the wrapper. \<open>rc_Read\<close> is the
  body's own \<open>Read\<close>, given whether it has been closed.
\<close>

record 'b stream =
  rc_body :: 'b
  rc_closed :: nat
  rc_waiting :: bool
  rc_done :: bool
  rc_reads :: "(nat \<times> go_err option) list"

definition NewReadCloserWrapper :: "'b \<Rightarrow> 'b stream" where
  "NewReadCloserWrapper body =
     \<lparr>rc_body = body, rc_closed = 0, rc_waiting = True, rc_done = False, rc_reads = []\<rparr>"

inductive rc_step ::
  "(bool \<Rightarrow> 'b \<Rightarrow> (nat \<times> go_err option) \<times> 'b) \<Rightarrow> 'b stream \<Rightarrow> 'b stream \<Rightarrow> bool"
  for rc_Read :: "bool \<Rightarrow> 'b \<Rightarrow> (nat \<times> go_err option) \<times> 'b" where
  wrapper_Read: "rc_Read (rc_closed s > 0) (rc_body s) = (res, body) \<Longrightarrow>
    rc_step rc_Read s (s\<lparr>rc_body := body, rc_reads := rc_reads s @ [res]\<rparr>)"
| context_Done: "\<not> rc_done s \<Longrightarrow> rc_step rc_Read s (s\<lparr>rc_done := True\<rparr>)"
| closeOnCancel: "\<lbrakk>rc_waiting s; rc_done s\<rbrakk> \<Longrightarrow>
    rc_step rc_Read s (s\<lparr>rc_waiting := False, rc_closed := Suc (rc_closed s)\<rparr>)"

inductive_cases rc_stepE: "rc_step rc_Read s t"

text \<open>The body is closed once at most, by a goroutine that then ends, and only after the context.\<close>

definition rc_inv :: "'b stream \<Rightarrow> bool" where
  "rc_inv s \<longleftrightarrow> (if rc_waiting s then rc_closed s = 0 else rc_closed s = 1 \<and> rc_done s)"

lemma rc_reach_inv:
  "(rc_step rc_Read)\<^sup>*\<^sup>* (NewReadCloserWrapper body) s \<Longrightarrow> rc_inv s"
proof (induction rule: rtranclp_induct)
  case base
  then show ?case by (simp add: rc_inv_def NewReadCloserWrapper_def)
next
  case (step s t)
  from step(2,3) show ?case by (elim rc_stepE) (auto simp: rc_inv_def split: if_splits)
qed

lemma stream_closed_once:
  assumes "(rc_step rc_Read)\<^sup>*\<^sup>* (NewReadCloserWrapper body) s"
  shows "rc_closed s \<le> 1" and "rc_closed s = 1 \<Longrightarrow> rc_done s"
    and "rc_done s \<Longrightarrow> rc_closed s = 1 \<or> (\<exists>t. rc_step rc_Read s t \<and> rc_closed t = 1)"
proof -
  note inv = rc_reach_inv [OF assms]
  show "rc_closed s \<le> 1" "rc_closed s = 1 \<Longrightarrow> rc_done s"
    using inv by (auto simp: rc_inv_def split: if_splits)
  assume d: "rc_done s"
  show "rc_closed s = 1 \<or> (\<exists>t. rc_step rc_Read s t \<and> rc_closed t = 1)"
  proof (cases "rc_waiting s")
    case True
    then show ?thesis using closeOnCancel [OF True d, of rc_Read] inv
      by (intro disjI2 exI conjI) (auto simp: rc_inv_def)
  next
    case False
    then show ?thesis using inv by (simp add: rc_inv_def)
  qed
qed

text \<open>
  While the context lives the body is never closed by the wrapper: a body that is read to its end
  keeps its connection until then.
\<close>

lemma stream_open_while_context:
  "(rc_step rc_Read)\<^sup>*\<^sup>* (NewReadCloserWrapper body) s \<Longrightarrow> \<not> rc_done s \<Longrightarrow> rc_closed s = 0"
  using rc_reach_inv by (fastforce simp: rc_inv_def split: if_splits)

end
