(* ===== verification/Proxy_Endpoint.thy ===== *)
theory Proxy_Endpoint
  imports Proxy_Factory
begin

text \<open>
  An endpoint with several backends, from the proxy the factory builds down to the calls of its
  backends: the runs of the goroutines of \<^theory_text>\<open>Proxy_Parallel\<close> and of
  \<^theory_text>\<open>Proxy_Concurrent\<close> are put in the places the factory has for the scheduler.
\<close>

section \<open>Schedulers\<close>

text \<open>
  What makes \<open>m\<close> a scheduler of parallel merges: whatever it returns is the result of a run of the
  goroutines, where each launched backend answers the request (its clone is equal to it) under the
  context of the merge, in some world.
\<close>

definition run_of ::
  "merge_run \<Rightarrow> 'a proxy list \<Rightarrow> ctx \<Rightarrow> request \<Rightarrow> outcomes \<Rightarrow> response option \<times> go_err option \<Rightarrow> bool" where
  "run_of run ps ctx r outs result \<longleftrightarrow>
     (let ls = launched (mp_filters run) r (length ps) in
      (\<forall>i \<in> set ls. \<exists>w r' w'. (ps ! i) ctx r w = (Ret (fst (outs i)) (snd (outs i)), r', w')) \<and>
      (\<exists>s. (pm_step (mp_combiner run) outs (length ps) (length ls))\<^sup>*\<^sup>* (pm_init ls) s \<and>
         pm_result s = Some result))"

definition schedules :: "(merge_run \<Rightarrow> 'a proxy list \<Rightarrow> 'a proxy) \<Rightarrow> bool" where
  "schedules m \<longleftrightarrow>
     (\<forall>run ps ctx r w res err r' w'.
        mp_kind run = RunParallel \<longrightarrow> m run ps ctx r w = (Ret res err, r', w') \<longrightarrow>
        (\<exists>outs. run_of run ps (with_timeout ctx (mp_timeout run) w) r outs (res, err)))"

text \<open>
  One of them, which can be executed: each goroutine runs to its end and its message is received
  before the next starts.
\<close>

fun ask_all ::
  "'a proxy list \<Rightarrow> ctx \<Rightarrow> request \<Rightarrow> 'a world_scheme \<Rightarrow>
     (string + (response option \<times> go_err option) list) \<times> 'a world_scheme" where
  "ask_all [] ctx r w = (Inr [], w)"
| "ask_all (p # ps) ctx r w =
     (case p ctx r w of
        (Panic s, _, w) \<Rightarrow> (Inl s, w)
      | (Ret res err, _, w) \<Rightarrow>
          (case ask_all ps ctx r w of
             (Inl s, w) \<Rightarrow> (Inl s, w)
           | (Inr answers, w) \<Rightarrow> (Inr ((res, err) # answers), w)))"

definition merge_in_order :: "merge_run \<Rightarrow> 'a proxy list \<Rightarrow> 'a proxy" where
  "merge_in_order run ps ctx r w =
     (let ls = launched (mp_filters run) r (length ps) in
      case ask_all (map ((!) ps) ls) (with_timeout ctx (mp_timeout run) w) r w of
        (Inl s, w') \<Rightarrow> (Panic s, r, w')
      | (Inr answers, w') \<Rightarrow>
          (case acc_Result (acc_run (mp_combiner run)
              (map (\<lambda>i. own_msg ((!) answers) i) [0..<length answers])
              (newIncrementalMergeAccumulator (length ls))) of
             (res, err) \<Rightarrow> (Ret res err, r, w')))"

text \<open>The state of that run after \<open>j\<close> backends.\<close>

definition in_order :: "combiner \<Rightarrow> outcomes \<Rightarrow> nat list \<Rightarrow> nat \<Rightarrow> pmerge" where
  "in_order rc outs ls j =
     (pm_init (drop j ls))\<lparr>pm_i := j, pm_acc := acc_run rc (map (own_msg outs) (take j ls))
       (newIncrementalMergeAccumulator (length ls))\<rparr>"

lemma in_order_next:
  assumes "j < length ls" and "length ls \<le> cap"
  shows "(pm_step rc outs cap (length ls))\<^sup>*\<^sup>* (in_order rc outs ls j) (in_order rc outs ls (Suc j))"
proof -
  let ?step = "pm_step rc outs cap (length ls)"
  let ?s = "in_order rc outs ls j" and ?t = "in_order rc outs ls (Suc j)"
  let ?i = "ls ! j"
  have drop: "drop j ls = ?i # drop (Suc j) ls" using assms(1) by (rule Cons_nth_drop_Suc [symmetric])
  have run: "?i \<in> set (pm_running ?s)" "remove1 ?i (pm_running ?s) = drop (Suc j) ls"
    by (simp_all add: in_order_def pm_init_def drop)
  have room: "length (pm_failed ?s) < cap" "length (pm_parts ?s) < cap"
    using assms by (simp_all add: in_order_def pm_init_def)
  have acc: "pm_acc ?t = acc_msg rc 0 (own_msg outs ?i) (pm_acc ?s)"
    using assms(1) by (simp add: in_order_def take_Suc_conv_app_nth)
  show ?thesis
  proof (cases "own_msg outs ?i")
    case (MErr e)
    let ?u = "?s\<lparr>pm_running := remove1 ?i (pm_running ?s), pm_failed := pm_failed ?s @ [e]\<rparr>"
    have "?step ?s ?u"
    proof (cases "snd (outs ?i)")
      case None
      with MErr have "outs ?i = (None, None)" "e = ENullResult"
        by (auto simp: own_msg_def split: prod.splits option.splits)
      then show ?thesis using pm_step.send_nil [OF run(1) _ room(1)] by blast
    next
      case (Some e')
      with MErr have "outs ?i = (fst (outs ?i), Some e)"
        by (auto simp: own_msg_def split: prod.splits option.splits)
      then show ?thesis by (rule pm_step.send_err [OF run(1) _ room(1)])
    qed
    moreover have "?step ?u ?t"
      using pm_step.recv_failed [of ?u "length ls" e "[]" rc outs cap] assms(1) run(2) acc MErr
      by (simp add: in_order_def pm_init_def)
    ultimately show ?thesis by (meson rtranclp.rtrancl_into_rtrancl r_into_rtranclp)
  next
    case (MResp a)
    let ?u = "?s\<lparr>pm_running := remove1 ?i (pm_running ?s), pm_parts := pm_parts ?s @ [a]\<rparr>"
    have "outs ?i = (Some a, None)"
      using MResp by (auto simp: own_msg_def split: prod.splits option.splits)
    then have "?step ?s ?u" by (rule pm_step.send_part [OF run(1) _ room(2)])
    moreover have "?step ?u ?t"
      using pm_step.recv_part [of ?u "length ls" a "[]" rc outs cap] assms(1) run(2) acc MResp
      by (simp add: in_order_def pm_init_def)
    ultimately show ?thesis by (meson rtranclp.rtrancl_into_rtrancl r_into_rtranclp)
  qed
qed

lemma in_order_run:
  assumes "length ls \<le> cap"
  shows "\<exists>s. (pm_step rc outs cap (length ls))\<^sup>*\<^sup>* (pm_init ls) s \<and>
    pm_result s = Some (acc_Result (acc_run rc (map (own_msg outs) ls)
      (newIncrementalMergeAccumulator (length ls))))"
proof -
  let ?step = "pm_step rc outs cap (length ls)"
  have "j \<le> length ls \<Longrightarrow> ?step\<^sup>*\<^sup>* (pm_init ls) (in_order rc outs ls j)" for j
  proof (induction j)
    case 0
    have "in_order rc outs ls 0 = pm_init ls" by (simp add: in_order_def pm_init_def)
    then show ?case by simp
  next
    case (Suc j)
    then show ?case using in_order_next [OF _ assms, of j] by (simp add: rtranclp_trans)
  qed
  then have all: "?step\<^sup>*\<^sup>* (pm_init ls) (in_order rc outs ls (length ls))" by simp
  let ?last = "in_order rc outs ls (length ls)"
  have "?step ?last (?last\<lparr>pm_result := Some (acc_Result (pm_acc ?last))\<rparr>)"
    by (rule pm_step.return) (simp_all add: in_order_def pm_init_def)
  with all have "?step\<^sup>*\<^sup>* (pm_init ls) (?last\<lparr>pm_result := Some (acc_Result (pm_acc ?last))\<rparr>)"
    by (rule rtranclp.rtrancl_into_rtrancl)
  moreover have "pm_acc ?last = acc_run rc (map (own_msg outs) ls)
      (newIncrementalMergeAccumulator (length ls))"
    by (simp add: in_order_def)
  ultimately show ?thesis by (intro exI conjI) (assumption, simp)
qed

lemma ask_all_answers:
  "ask_all qs ctx r w = (Inr answers, w') \<Longrightarrow>
   list_all2 (\<lambda>q a. \<exists>w r' w'. q ctx r w = (Ret (fst a) (snd a), r', w')) qs answers"
proof (induction qs arbitrary: w answers w')
  case (Cons q qs)
  then obtain res err r1 w1 rest where call: "q ctx r w = (Ret res err, r1, w1)"
    and rest: "ask_all qs ctx r w1 = (Inr rest, w')" and answers: "answers = (res, err) # rest"
    by (auto split: prod.splits pres.splits sum.splits)
  from Cons.IH [OF rest] call show ?case by (auto simp: answers)
qed simp

lemma merge_in_order_schedules: "schedules merge_in_order"
  unfolding schedules_def
proof (intro allI impI)
  fix run :: merge_run and ps :: "'a proxy list" and ctx r w res err r' w'
  assume m: "merge_in_order run ps ctx r w = (Ret res err, r', w')"
  define ls where "ls = launched (mp_filters run) r (length ps)"
  let ?ctx = "with_timeout ctx (mp_timeout run) w"
  from m obtain answers w1 where ask: "ask_all (map ((!) ps) ls) ?ctx r w = (Inr answers, w1)"
    and result: "acc_Result (acc_run (mp_combiner run) (map (own_msg ((!) answers)) [0..<length answers])
      (newIncrementalMergeAccumulator (length ls))) = (res, err)"
    by (auto simp: merge_in_order_def Let_def ls_def split: prod.splits sum.splits)
  define outs where "outs = (\<lambda>i. the (map_of (zip ls answers) i))"
  note all = ask_all_answers [OF ask]
  have len: "length answers = length ls" using list_all2_lengthD [OF all] by simp
  have "distinct ls" by (simp add: ls_def launched_def)
  then have out: "outs (ls ! k) = answers ! k" if "k < length ls" for k
    using that len by (simp add: outs_def map_of_zip_nth)
  have "\<exists>w r' w'. (ps ! i) ?ctx r w = (Ret (fst (outs i)) (snd (outs i)), r', w')" if "i \<in> set ls" for i
  proof -
    from that obtain k where k: "k < length ls" "i = ls ! k" by (auto simp: in_set_conv_nth)
    with list_all2_nthD [OF all, of k] out [of k] show ?thesis by simp
  qed
  moreover have "map (own_msg ((!) answers)) [0..<length answers] = map (own_msg outs) ls"
    using out len by (intro nth_equalityI) (simp_all add: own_msg_def)
  moreover have "length ls \<le> length ps"
    using length_filter_le [of _ "[0..<length ps]"] by (simp add: ls_def launched_def)
  ultimately have "run_of run ps ?ctx r outs (res, err)"
    using in_order_run [of ls "length ps" "mp_combiner run" outs] result
    by (simp add: run_of_def ls_def [symmetric])
  then show "\<exists>outs. run_of run ps ?ctx r outs (res, err)" by blast
qed

section \<open>Schedulers of concurrent calls\<close>

text \<open>The same for the calls of \<^theory_text>\<open>Proxy_Concurrent\<close>: \<open>n\<close> calls of one proxy.\<close>

definition calls_of ::
  "nat \<Rightarrow> 'a proxy \<Rightarrow> ctx \<Rightarrow> request \<Rightarrow> outcomes \<Rightarrow> response option \<times> go_err option \<Rightarrow> bool" where
  "calls_of n p ctx r outs result \<longleftrightarrow>
     (\<forall>i < n. \<exists>w r' w'. p ctx r w = (Ret (fst (outs i)) (snd (outs i)), r', w')) \<and>
     (\<exists>s. (cm_step outs n)\<^sup>*\<^sup>* (cm_init n) s \<and> cm_ret s = Some result)"

definition schedules_calls :: "(int \<Rightarrow> int \<Rightarrow> 'a proxy \<Rightarrow> 'a proxy) \<Rightarrow> bool" where
  "schedules_calls m \<longleftrightarrow>
     (\<forall>n timeout p ctx r w res err r' w'.
        m n timeout p ctx r w = (Ret res err, r', w') \<longrightarrow>
        (\<exists>outs. calls_of (nat n) p (with_timeout ctx timeout w) r outs (res, err)))"

text \<open>The one in which the calls answer in their order, and are heard in it.\<close>

fun first_complete ::
  "(response option \<times> go_err option) list \<Rightarrow> response option \<Rightarrow> go_err option \<Rightarrow>
     response option \<times> go_err option" where
  "first_complete [] res err = (res, err)"
| "first_complete ((_, Some e) # answers) res err = first_complete answers res (Some e)"
| "first_complete ((None, None) # answers) res err = first_complete answers res (Some ENullResult)"
| "first_complete ((Some r, None) # answers) res err =
     (if rs_IsComplete r then (Some r, None) else first_complete answers (Some r) err)"

definition calls_in_order :: "int \<Rightarrow> int \<Rightarrow> 'a proxy \<Rightarrow> 'a proxy" where
  "calls_in_order n timeout p ctx r w =
     (case ask_all (replicate (nat n) p) (with_timeout ctx timeout w) r w of
        (Inl s, w') \<Rightarrow> (Panic s, r, w')
      | (Inr answers, w') \<Rightarrow> (case first_complete answers None None of (res, err) \<Rightarrow> (Ret res err, r, w')))"

text \<open>The state of that run after \<open>j\<close> calls without a complete answer.\<close>

definition calls_state :: "nat \<Rightarrow> nat \<Rightarrow> response option \<Rightarrow> go_err option \<Rightarrow> cmerge" where
  "calls_state n j res err =
     (cm_init n)\<lparr>cm_running := [j..<n], cm_i := j, cm_response := res, cm_err := err\<rparr>"

lemma two_steps: "step s t \<Longrightarrow> step t u \<Longrightarrow> step\<^sup>*\<^sup>* s u"
  by (meson rtranclp.rtrancl_into_rtrancl r_into_rtranclp)

lemma calls_state_fail:
  assumes "j < n" and "own_msg outs j = MErr e"
  shows "(cm_step outs n)\<^sup>*\<^sup>* (calls_state n j res err) (calls_state n (Suc j) res (Some e))"
proof -
  let ?s = "calls_state n j res err"
  let ?t = "?s\<lparr>cm_running := remove1 j (cm_running ?s), cm_failed := cm_failed ?s @ [e]\<rparr>"
  have run: "j \<in> set (cm_running ?s)" "length (cm_failed ?s) < n"
    using assms(1) by (simp_all add: calls_state_def cm_init_def)
  have "cm_step outs n ?s ?t"
  proof (cases "snd (outs j)")
    case None
    with assms(2) have "outs j = (None, None)" "e = ENullResult"
      by (auto simp: own_msg_def split: prod.splits option.splits)
    then show ?thesis using cm_step.call_nil [OF run(1) _ run(2)] by blast
  next
    case (Some e')
    with assms(2) have "outs j = (fst (outs j), Some e)"
      by (auto simp: own_msg_def split: prod.splits option.splits)
    then show ?thesis by (rule cm_step.call_err [OF run(1) _ run(2)])
  qed
  moreover have "cm_step outs n ?t (calls_state n (Suc j) res (Some e))"
    using cm_step.take_err [of ?t n e "[]" outs] assms(1)
    by (simp add: calls_state_def cm_init_def upt_conv_Cons)
  ultimately show ?thesis by (rule two_steps)
qed

lemma calls_state_answer:
  assumes "j < n" and "outs j = (Some a, None)"
  shows "cm_step outs n (calls_state n j res err) ((calls_state n j res err)\<lparr>
    cm_running := [Suc j..<n], cm_results := [a]\<rparr>)"
  using cm_step.call_ok [of j "calls_state n j res err" outs a n] assms
  by (simp add: calls_state_def cm_init_def upt_conv_Cons)

lemma calls_run:
  assumes "j \<le> n"
  shows "\<exists>s. (cm_step outs n)\<^sup>*\<^sup>* (calls_state n j res err) s \<and>
    cm_ret s = Some (first_complete (map outs [j..<n]) res err)"
  using assms
proof (induction "n - j" arbitrary: j res err)
  case 0
  then have "\<not> cm_i (calls_state n j res err) < n" by (simp add: calls_state_def)
  then have "cm_step outs n (calls_state n j res err)
      ((calls_state n j res err)\<lparr>cm_ret := Some (res, err)\<rparr>)"
    using cm_step.loop_end [of "calls_state n j res err" n outs]
    by (simp add: calls_state_def cm_init_def)
  with 0 show ?case by (intro exI conjI) (rule r_into_rtranclp, assumption, simp add: calls_state_def cm_init_def)
next
  case (Suc k)
  then have j: "j < n" and upt: "[j..<n] = j # [Suc j..<n]" by (simp_all add: upt_conv_Cons)
  have next_run: "\<exists>s. (cm_step outs n)\<^sup>*\<^sup>* c s \<and>
      cm_ret s = Some (first_complete (map outs [Suc j..<n]) x y)"
    if "(cm_step outs n)\<^sup>*\<^sup>* c (calls_state n (Suc j) x y)" for c x y
  proof -
    have "k = n - Suc j" and "Suc j \<le> n" using Suc(2) j by simp_all
    from Suc(1) [OF this, of x y] that show ?thesis by (blast intro: rtranclp_trans)
  qed
  show ?case
  proof (cases "own_msg outs j")
    case (MErr e)
    then have "first_complete (map outs [j..<n]) res err = first_complete (map outs [Suc j..<n]) res (Some e)"
      by (cases "fst (outs j)"; cases "snd (outs j)"; cases "outs j")
        (auto simp: upt own_msg_def)
    with next_run [OF calls_state_fail [OF j MErr]] show ?thesis by simp
  next
    case (MResp a)
    then have out: "outs j = (Some a, None)" by (simp add: own_msg_resp)
    let ?t = "(calls_state n j res err)\<lparr>cm_running := [Suc j..<n], cm_results := [a]\<rparr>"
    note sent = calls_state_answer [OF j, of outs a res err, OF out]
    show ?thesis
    proof (cases "rs_IsComplete a")
      case True
      have "cm_step outs n ?t (?t\<lparr>cm_results := [], cm_i := Suc j, cm_response := Some a,
          cm_ret := Some (Some a, None)\<rparr>)"
        using cm_step.take_complete [of ?t n a "[]" outs] j True
        by (simp add: calls_state_def cm_init_def)
      from two_steps [of "cm_step outs n", OF sent this] show ?thesis
        by (intro exI conjI) (assumption, simp add: upt out True)
    next
      case False
      have "cm_step outs n ?t (calls_state n (Suc j) (Some a) err)"
        using cm_step.take_partial [of ?t n a "[]" outs] j False
        by (simp add: calls_state_def cm_init_def)
      from next_run [OF two_steps [of "cm_step outs n", OF sent this]]
      show ?thesis by (simp add: upt out False)
    qed
  qed
qed

lemma calls_in_order_schedules: "schedules_calls calls_in_order"
  unfolding schedules_calls_def
proof (intro allI impI)
  fix n timeout :: int and p :: "'a proxy" and ctx r w res err r' w'
  assume m: "calls_in_order n timeout p ctx r w = (Ret res err, r', w')"
  let ?ctx = "with_timeout ctx timeout w"
  from m obtain answers w1 where ask: "ask_all (replicate (nat n) p) ?ctx r w = (Inr answers, w1)"
    and result: "first_complete answers None None = (res, err)"
    by (auto simp: calls_in_order_def split: prod.splits sum.splits)
  note all = ask_all_answers [OF ask]
  have len: "length answers = nat n" using list_all2_lengthD [OF all] by simp
  have "\<exists>w r' w'. p ?ctx r w = (Ret (fst (answers ! i)) (snd (answers ! i)), r', w')" if "i < nat n" for i
    using list_all2_nthD [OF all, of i] that by simp
  moreover have "map ((!) answers) [0..<nat n] = answers" using len by (metis map_nth)
  moreover have "calls_state (nat n) 0 None None = cm_init (nat n)"
    by (simp add: calls_state_def cm_init_def)
  ultimately have "calls_of (nat n) p ?ctx r ((!) answers) (res, err)"
    using calls_run [of 0 "nat n" "(!) answers" None None] result by (simp add: calls_of_def)
  then show "\<exists>outs. calls_of (nat n) p ?ctx r outs (res, err)" by blast
qed

section \<open>From the endpoint to its backends\<close>

lemma newStacks_nth:
  "newStacks env bs = Built ps \<Longrightarrow> i < length bs \<Longrightarrow> newStack env (bs ! i) = Built (ps ! i)"
proof (induction bs arbitrary: ps i)
  case (Cons b bs)
  then obtain p qs where "newStack env b = Built p" "newStacks env bs = Built qs" "ps = p # qs"
    by (auto simp: on_top_Built)
  with Cons show ?case by (cases i) auto
qed simp

text \<open>The endpoint that merges its backends in parallel with the default combiner, and nothing else.\<close>

definition merging_endpoint :: "('a, 't) factory_env \<Rightarrow> endpoint_config \<Rightarrow> bool" where
  "merging_endpoint env c \<longleftrightarrow>
     length (ep_Backend c) \<ge> 2 \<and> section_of (ep_ExtraConfig c) plugin_Namespace = None \<and>
     getStaticMiddlewareCfg (ep_ExtraConfig c) = None \<and>
     newFlatmapFormatter (ep_ExtraConfig c) [] [] = None \<and>
     getResponseCombiner (fe_combiners env) (ep_ExtraConfig c) = Some combineData \<and>
     fst (getMergerFactory (fe_mergers env) (ep_ExtraConfig c)) = Some ParallelMerge \<and>
     fe_filterers env c = Inr []"

text \<open>The backend with a plain stack, of one call or several at a time.\<close>

definition plain :: "('a, 't) factory_env \<Rightarrow> backend \<Rightarrow> bool" where
  "plain env b \<longleftrightarrow>
     section_of (be_ExtraConfig b) plugin_Namespace = None \<and>
     (\<exists>e. GetOptions (fe_gql env) (be_ExtraConfig b) = Inl e) \<and>
     distinct (be_HeadersToPass b) \<and> distinct (be_QueryStringsToPass b)"

lemma merging_built:
  assumes "defaultFactory_New env c = Inr (Built p)" and "merging_endpoint env c"
  obtains ps run where "newStacks env (ep_Backend c) = Built ps" and "p = fe_merge env run ps"
    and "mp_kind run = RunParallel" and "mp_combiner run = combineData" and "mp_filters run = []"
    and "mp_timeout run = percent 85 (ep_Timeout c)"
proof -
  from assms obtain ps plan where ps: "newStacks env (ep_Backend c) = Built ps"
    and plan: "NewMergeDataMiddleware (fe_combiners env) (fe_mergers env) (fe_filterers env) c ps = Built plan"
    and p: "p = run_merge env ps plan"
    by (auto simp: defaultFactory_New_def merging_endpoint_def newMulti_def on_top_Built Let_def
        NewPluginMiddleware_def NewStaticMiddleware_def EmptyMiddleware_def NewFlatmapMiddleware_def
        split: if_splits)
  from plan assms(2) obtain run where run: "plan = MergePlan run" "mp_kind run = RunParallel"
      "mp_combiner run = combineData" "mp_filters run = []" "mp_timeout run = percent 85 (ep_Timeout c)"
    by (auto simp: NewMergeDataMiddleware_def merging_endpoint_def merger_kind_def Let_def
        split: if_splits)
  have "p = fe_merge env run ps" using p run(1,2) by (auto simp: fun_eq_iff)
  with ps run(2-5) show thesis by (intro that)
qed

text \<open>
  The answer of a backend to what the client's request becomes for it, on one of its hosts. With
  several calls at a time, these have a deadline of their own.
\<close>

definition call_ctx :: "backend \<Rightarrow> ctx \<Rightarrow> ctx \<Rightarrow> bool" where
  "call_ctx b ctx ctx' \<longleftrightarrow>
     (if be_ConcurrentCalls b > 1
      then (\<exists>t. ctx' = with_timeout ctx (percent 75 (be_Timeout b)) \<lparr>now = t\<rparr>) else ctx' = ctx)"

lemma with_timeout_now: "with_timeout ctx t w = with_timeout ctx t \<lparr>now = now w\<rparr>"
  by (simp add: with_timeout_def split: option.split)

definition answered ::
  "('a, 't) factory_env \<Rightarrow> ctx \<Rightarrow> request \<Rightarrow> backend \<Rightarrow> response \<Rightarrow> bool" where
  "answered env ctx r b a \<longleftrightarrow>
     (\<exists>ctx' w hs h q w'. call_ctx b ctx ctx' \<and> lb_hosts (fe_subscriber env b) w = Inr hs \<and>
        h \<in> set hs \<and> sends env b h r q \<and> fst (fe_backend env b ctx' q w') = Ret (Some a) None)"

lemma balanced_answered:
  assumes "NewFilterHeadersMiddleware b [fe_backend env b] = Built hf"
    and "NewLoadBalancedMiddlewareWithSubscriber (fe_balancing env) (fe_cell env b)
      (fe_start env) (fe_subscriber env b) [hf] = Built lb"
    and "distinct (be_HeadersToPass b)" and "distinct (be_QueryStringsToPass b)"
    and "distinct (keys (rq_Headers r))" and "distinct (keys (query_of r))"
    and "rand_ok (bl_rand (fe_balancing env) w)" and "hosts_ok (fe_subscriber env b) w"
    and "r2 = build_request b
      ((if be_QueryStringsToPass b = [] then id else handed_query (be_QueryStringsToPass b)) r)"
    and "fst (lb ctx' r2 w) = Ret (Some a) None" and "call_ctx b ctx ctx'"
  shows "answered env ctx r b a"
proof -
  note sends = balanced_sends [OF assms(1-9), of ctx', unfolded assms(10)]
  then obtain hs where hs: "lb_hosts (fe_subscriber env b) w = Inr hs"
    by (auto split: sum.splits)
  from sends [unfolded hs sum.case] obtain h where h: "h \<in> set hs" and
    "case bl_net_url (fe_balancing env) (h @ rq_Path (GeneratePath (be_URLPattern b) r)) of
        Inl e \<Rightarrow> Ret (Some a) None = Ret None (Some e)
      | Inr _ \<Rightarrow> \<exists>q w'. sends env b h r q \<and> Ret (Some a) None = fst (fe_backend env b ctx' q w') \<and>
          snd (snd (lb ctx' r2 w)) = snd (snd (fe_backend env b ctx' q w'))"
    by blast
  then obtain q w' where "sends env b h r q" "fst (fe_backend env b ctx' q w') = Ret (Some a) None"
    by (cases "bl_net_url (fe_balancing env) (h @ rq_Path (GeneratePath (be_URLPattern b) r))") auto
  with h hs assms(11) show ?thesis unfolding answered_def by blast
qed

lemma stack_answered:
  assumes "newStack env b = Built mw" and "plain env b" and "schedules_calls (fe_concurrent env)"
    and "distinct (keys (rq_Headers r))" and "distinct (keys (query_of r))"
    and "\<And>w. rand_ok (bl_rand (fe_balancing env) w)" and "\<And>w. hosts_ok (fe_subscriber env b) w"
    and "fst (mw ctx r w) = Ret (Some a) None"
  shows "answered env ctx r b a"
proof -
  let ?n = "be_ConcurrentCalls b" and ?t = "percent 75 (be_Timeout b)"
  from assms(2) obtain e where b: "section_of (be_ExtraConfig b) plugin_Namespace = None"
      "GetOptions (fe_gql env) (be_ExtraConfig b) = Inl e"
      "distinct (be_HeadersToPass b)" "distinct (be_QueryStringsToPass b)"
    by (auto simp: plain_def)
  obtain hf lb where hf: "NewFilterHeadersMiddleware b [fe_backend env b] = Built hf"
    and lb: "NewLoadBalancedMiddlewareWithSubscriber (fe_balancing env) (fe_cell env b)
      (fe_start env) (fe_subscriber env b) [hf] = Built lb"
    and qf: "NewFilterQueryStringsMiddleware b
      [\<lambda>ctx r w. (if ?n > 1 then fe_concurrent env ?n ?t lb else lb) ctx (build_request b r) w] = Built mw"
    by (rule plain_stack_parts [OF assms(1) b(1,2)])
  define r2 where "r2 = build_request b
    ((if be_QueryStringsToPass b = [] then id else handed_query (be_QueryStringsToPass b)) r)"
  have top: "fst ((if ?n > 1 then fe_concurrent env ?n ?t lb else lb) ctx r2 w) = Ret (Some a) None"
    using query_hands_on [OF qf] assms(8) by (simp add: hands_on_def r2_def)
  note answer = balanced_answered [OF hf lb b(3,4) assms(4,5,6,7) r2_def]
  show ?thesis
  proof (cases "?n > 1")
    case False
    with top have "fst (lb ctx r2 w) = Ret (Some a) None" by simp
    with False show ?thesis by (intro answer) (simp_all add: call_ctx_def)
  next
    case True
    let ?ctx = "with_timeout ctx ?t w"
    from top True obtain r' w' where "fe_concurrent env ?n ?t lb ctx r2 w = (Ret (Some a) None, r', w')"
      by (cases "fe_concurrent env ?n ?t lb ctx r2 w" rule: prod_cases3) simp
    with assms(3) obtain outs where "calls_of (nat ?n) lb ?ctx r2 outs (Some a, None)"
      unfolding schedules_calls_def by blast
    then obtain i w1 r1 w2 where "lb ?ctx r2 w1 = (Ret (fst (outs i)) (snd (outs i)), r1, w2)"
      and "outs i = (Some a, None)"
      unfolding calls_of_def using returned_from_call by blast
    then have "fst (lb ?ctx r2 w1) = Ret (Some a) None" by simp
    moreover have "call_ctx b ctx ?ctx"
      using True with_timeout_now [of ctx ?t w] by (auto simp: call_ctx_def)
    ultimately show ?thesis by (rule answer)
  qed
qed

text \<open>
  C6. What a merged reply may say. For an endpoint on several plain backends, each called once or
  several times at once, merged in parallel with the default combiner, whatever the schedulers do and
  whenever a context ends: each field of the response was answered by one of the endpoint's backends
  to what the client's request becomes for it, on one of its hosts, and a response that is complete
  has no error and comes with a complete answer of every backend.
\<close>

theorem merged_endpoint_sound:
  assumes "defaultFactory_New env c = Inr (Built p)" and "merging_endpoint env c"
    and "schedules (fe_merge env)" and "schedules_calls (fe_concurrent env)"
    and "list_all (plain env) (ep_Backend c)"
    and "distinct (keys (rq_Headers r))" and "distinct (keys (query_of r))"
    and "\<And>w. rand_ok (bl_rand (fe_balancing env) w)"
    and "\<And>b w. b \<in> set (ep_Backend c) \<Longrightarrow> hosts_ok (fe_subscriber env b) w"
    and "\<And>b ctx q w a. fst (fe_backend env b ctx q w) = Ret (Some a) None \<Longrightarrow> wf_resp a"
    and "p ctx r w = (Ret (Some d) err, r', w')"
    and "deadline = with_timeout ctx (percent 85 (ep_Timeout c)) w"
  shows "(\<forall>k v. map_of (data_of d) k = Some v \<longrightarrow>
      (\<exists>b \<in> set (ep_Backend c). \<exists>a. answered env deadline r b a \<and> map_of (data_of a) k = Some v)) \<and>
    (rs_IsComplete d \<longrightarrow> err = None \<and>
      (\<forall>b \<in> set (ep_Backend c). \<exists>a. answered env deadline r b a \<and> rs_IsComplete a))"
proof -
  obtain ps run where ps: "newStacks env (ep_Backend c) = Built ps" and p: "p = fe_merge env run ps"
    and run: "mp_kind run = RunParallel" "mp_combiner run = combineData" "mp_filters run = []"
      "mp_timeout run = percent 85 (ep_Timeout c)"
    by (rule merging_built [OF assms(1,2)])
  note len = newStacks_length [OF ps]
  have ls: "launched [] r (length ps) = [0..<length ps]" by (simp add: launched_def filtered_out_def)
  from assms(3,11) run obtain outs where "run_of run ps deadline r outs (Some d, err)"
    unfolding schedules_def p assms(12) by metis
  then obtain s where calls: "\<forall>i \<in> set [0..<length ps].
        \<exists>w r' w'. (ps ! i) deadline r w = (Ret (fst (outs i)) (snd (outs i)), r', w')"
    and steps: "(pm_step combineData outs (length ps) (length [0..<length ps]))\<^sup>*\<^sup>*
        (pm_init [0..<length ps]) s"
    and fin: "pm_result s = Some (Some d, err)"
    unfolding run_of_def run(2,3) ls Let_def by blast
  have ans: "answered env deadline r (ep_Backend c ! i) a"
    if "i \<in> set [0..<length ps]" "outs i = (Some a, None)" for i a
  proof -
    from that(1) have i: "i < length (ep_Backend c)" by (simp add: len)
    from calls that obtain w1 r1 w2 where "(ps ! i) deadline r w1 = (Ret (Some a) None, r1, w2)"
      by (metis fst_conv snd_conv)
    then have "fst ((ps ! i) deadline r w1) = Ret (Some a) None" by simp
    with stack_answered [OF newStacks_nth [OF ps i] _ assms(4,6,7,8) assms(9)] assms(5) i show ?thesis
      by (simp add: list_all_length)
  qed
  have "\<forall>i \<in> set [0..<length ps]. \<forall>a. own_msg outs i = MResp a \<longrightarrow> wf_resp a"
  proof (intro ballI allI impI)
    fix i a
    assume i: "i \<in> set [0..<length ps]" and m: "own_msg outs i = MResp a"
    from m have "outs i = (Some a, None)" by (auto simp: own_msg_def split: prod.splits option.splits)
    from ans [OF i this] show "wf_resp a" using assms(10) unfolding answered_def by blast
  qed
  note sound = parallel_merge_sound [OF steps fin this]
  have mem: "ep_Backend c ! i \<in> set (ep_Backend c)" if "i \<in> set [0..<length ps]" for i
    using that by (simp add: len)
  have all: "\<exists>i \<in> set [0..<length ps]. b = ep_Backend c ! i" if "b \<in> set (ep_Backend c)" for b
    using that by (auto simp: len in_set_conv_nth)
  from sound ans mem all show ?thesis by metis
qed

text \<open>Two backends that answer a field of their own, one of them asked twice at once.\<close>

definition sample_endpoint :: endpoint_config where
  "sample_endpoint = zero_endpoint\<lparr>ep_Timeout := 2000000000,
     ep_Backend := [zero_backend\<lparr>be_Method := ''GET''\<rparr>,
       zero_backend\<lparr>be_Method := ''post'', be_ConcurrentCalls := 2, be_Timeout := 2000000000\<rparr>]\<rparr>"

definition merged_env :: "(unit, unit) factory_env" where
  "merged_env = sample_factory_env
     \<lparr>fe_backend := \<lambda>b ctx q w.
        (Ret (Some (new_response (Some [(be_Method b, VInt 1)]) True)) None, q, w),
      fe_mergers := mergers, fe_merge := merge_in_order, fe_concurrent := calls_in_order\<rparr>"

definition sample_merged :: "response \<Rightarrow> bool" where
  "sample_merged d \<longleftrightarrow> map_of (data_of d) ''post'' = Some (VInt 1) \<and> rs_IsComplete d"

lemma merged_answer:
  "case defaultFactory_New merged_env sample_endpoint of
     Inr (Built p) \<Rightarrow>
       (case p None sample_filter_request \<lparr>now = 0\<rparr> of
          (Ret (Some d) None, _, _) \<Rightarrow> sample_merged d
        | _ \<Rightarrow> False)
   | _ \<Rightarrow> False"
  by code_simp

lemma merged_parts:
  obtains p d r' w' where "defaultFactory_New merged_env sample_endpoint = Inr (Built p)"
    and "p None sample_filter_request \<lparr>now = 0\<rparr> = (Ret (Some d) None, r', w')" and "sample_merged d"
  using merged_answer
  by (auto split: sum.splits built.splits prod.splits pres.splits option.splits)

theorem merged_endpoint_sound_witness:
  "\<exists>b \<in> set (ep_Backend sample_endpoint). \<exists>a.
     answered merged_env (with_timeout None (percent 85 2000000000) \<lparr>now = 0\<rparr>) sample_filter_request b a \<and>
     map_of (data_of a) ''post'' = Some (VInt 1)"
proof -
  obtain p d r' w' where p: "defaultFactory_New merged_env sample_endpoint = Inr (Built p)"
    and call: "p None sample_filter_request \<lparr>now = 0\<rparr> = (Ret (Some d) None, r', w')"
    and d: "sample_merged d"
    by (rule merged_parts)
  have ep: "merging_endpoint merged_env sample_endpoint"
    by (simp add: merging_endpoint_def sample_endpoint_def zero_endpoint_def merged_env_def
        sample_factory_env_def section_of_def getStaticMiddlewareCfg_def newFlatmapFormatter_def
        getResponseCombiner_def getResponseCombinerName_def getMergerFactory_def mergers_def
        GetResponseCombiner_def newCombinerRegister_def)
  have sched: "schedules (fe_merge merged_env)" by (simp add: merged_env_def merge_in_order_schedules)
  have sched_calls: "schedules_calls (fe_concurrent merged_env)"
    by (simp add: merged_env_def calls_in_order_schedules)
  have plain: "list_all (plain merged_env) (ep_Backend sample_endpoint)"
    by (simp add: plain_def sample_endpoint_def zero_backend_def section_of_def GetOptions_def)
  have keys: "distinct (keys (rq_Headers sample_filter_request))"
      "distinct (keys (query_of sample_filter_request))"
    by (simp_all add: sample_filter_request_def query_of_def)
  have rand: "rand_ok (bl_rand (fe_balancing merged_env) w)" for w
    by (simp add: merged_env_def sample_factory_env_def rand_ok_def)
  have hosts: "hosts_ok (fe_subscriber merged_env b) w" for b w
    by (simp add: merged_env_def sample_factory_env_def hosts_ok_def)
  have wf: "wf_resp a" if "fst (fe_backend merged_env b ctx q w) = Ret (Some a) None" for b ctx q w a
    using that by (auto simp: merged_env_def wf_resp_def new_response_def data_of_def)
  from merged_endpoint_sound [OF p ep sched sched_calls plain keys rand hosts wf call refl] d
  show ?thesis by (simp add: sample_merged_def) (simp add: sample_endpoint_def)
qed

end
