(* ===== verification/Spec2Isabelle.thy ===== *)
theory Spec2Isabelle
  imports Encoding Config_URI Config_Init Proxy_Formatter Proxy_Merging Proxy_Parallel
    Proxy_Sequential Proxy_Request Proxy_Filters Proxy_Concurrent Proxy_Static Proxy_Plugin
    Proxy_Http Proxy_Graphql Proxy_Balancing Proxy_Shadow Proxy_Factory SD SD_Dnssrv Backoff
    Config_Parser Router_Request Router_Mux Router_Gin Router_Adapters Http_Server
    Plugin_Loader Async_Agents Logging Gateway Server_Run Proxy_Stream Proxy_Endpoint
begin

text \<open>
  A verification development for Lura, a framework for API gateways written in Go.

  \<^bold>\<open>The program.\<close> A gateway reads a configuration of endpoints, each with one or more backends, and
  checks and completes it (\<open>config/\<close>). For each endpoint the proxy factory builds a stack of
  middlewares over the proxies of its backends (\<open>proxy/\<close>); a router turns an HTTP request into a
  proxy request, calls the stack and renders what it returns. On its way to a backend a request loses
  the headers and query strings the backend does not want, gets the path and method of the backend
  and a host from a balancer over a subscriber (\<open>sd/\<close>), and is sent over HTTP
  (\<open>transport/http/client/\<close>). The answer is decoded (\<open>encoding/\<close>), filtered and renamed, merged with
  those of the other backends, and decorated.

  \<^bold>\<open>The common ground.\<close> \<^theory_text>\<open>Lura_Prelude\<close> models Go's maps as association lists (any order
  is an order of \<open>range\<close>) and the functions of \<open>strings\<close>, \<open>strconv\<close> and \<open>textproto\<close> the code
  calls; \<^theory_text>\<open>Go_Regexp\<close> runs the code's regular expressions by leftmost-first matching;
  \<^theory_text>\<open>Go_Query\<close> writes and reads query strings as \<open>net/url\<close> does.
  \<^theory_text>\<open>Go_Values\<close> has the values of decoded JSON, the errors, requests and responses
  (\<open>proxy/proxy.go\<close>, \<open>proxy/request.go\<close>), contexts as the moment and the error they end with, and
  the type of a proxy: a function of context, request and world that gives a response and an error
  (both may be nil) or a panic, the request as it is left, and the world after it. Building a proxy
  gives a proxy, a fatal log message (the end of the process) or a panic.

  \<^bold>\<open>Configuration.\<close> \<^theory_text>\<open>Config_Types\<close>: the structs of \<open>config/config.go\<close> and the
  normalisation of extra configurations. \<^theory_text>\<open>Config_URI\<close>: \<open>config/uri.go\<close>; cleaning a
  host is idempotent and gives a host of the documented form. \<^theory_text>\<open>Config_Init\<close>: \<open>Init\<close> with
  every default, check and error of \<open>config.go\<close>; an accepted configuration is well formed, its URL
  patterns are accepted exactly when their parameters are defined, and (with
  \<^theory_text>\<open>Proxy_Request\<close>) a pattern as written becomes the path with the values in the place of
  the names. \<^theory_text>\<open>Config_Parser\<close>: \<open>config/parser.go\<close>; what \<open>Parse\<close> can return, and where it
  says an error is.

  \<^bold>\<open>Data of a response.\<close> \<^theory_text>\<open>Register\<close> and \<^theory_text>\<open>Encoding\<close>: the registers and the
  decoders chosen from them. \<^theory_text>\<open>Proxy_Formatter\<close>: allow and deny lists, target, mapping,
  group and the flatmap operations of \<open>proxy/formatter.go\<close>; what the lists keep is stated by paths.
  \<^theory_text>\<open>Proxy_Merging\<close>: combiners and the accumulator of \<open>proxy/merging.go\<close>, exact for any
  sequence of answers and errors. \<^theory_text>\<open>Proxy_Static\<close>: \<open>proxy/static.go\<close>.

  \<^bold>\<open>Calls.\<close> \<^theory_text>\<open>Proxy_Parallel\<close> and \<^theory_text>\<open>Proxy_Concurrent\<close>: goroutines, buffered
  channels and contexts as step relations with an invariant, a measure that every step decreases
  (the middlewares return, and no goroutine stays blocked) and the results they can return.
  \<^theory_text>\<open>Proxy_Sequential\<close>: the sequential merge with its propagated values, and the middleware
  that chooses a merger. \<^theory_text>\<open>Proxy_Shadow\<close>: shadow traffic, which does not touch the answer.

  \<^bold>\<open>From request to backend.\<close> \<^theory_text>\<open>Proxy_Request\<close>: paths, and copies of requests over a
  memory of shared maps and bodies. \<^theory_text>\<open>Proxy_Filters\<close>: headers and query strings.
  \<^theory_text>\<open>Proxy_Plugin\<close>: modifier plugins. \<^theory_text>\<open>SD\<close>, \<^theory_text>\<open>SD_Dnssrv\<close>:
  subscribers, balancers with a wrapping 64-bit counter, and DNS SRV with its weights.
  \<^theory_text>\<open>Proxy_Balancing\<close>: the URL a balanced call goes to. \<^theory_text>\<open>Proxy_Http\<close> and
  \<^theory_text>\<open>Proxy_Graphql\<close>: the backends. \<^theory_text>\<open>Proxy_Factory\<close>: the whole stack; building
  never ends the process, and the stack of a plain backend implements a specification of what the
  backend is sent. \<^theory_text>\<open>Proxy_Endpoint\<close>: an endpoint on several backends under any scheduler
  of its merge and of concurrent calls, and schedulers that can be executed.
  \<^theory_text>\<open>Backoff\<close>: \<open>backoff/backoff.go\<close>, with the overflow of its shifts.

  \<^bold>\<open>Routers.\<close> \<^theory_text>\<open>Router_Request\<close>: the proxy request made of an HTTP request.
  \<^theory_text>\<open>Router_Mux\<close>: the handler, the renders, the engine and the registration of \<open>router/mux\<close>
  over a model of the response writer; every reply carries the right completeness header.
  \<^theory_text>\<open>Router_Gin\<close>: the same of \<open>router/gin\<close>, whose effects are the calls it makes to gin, with
  the engine's options; the check of parameters keeps path parameters out of the query, and the two
  handlers agree. \<^theory_text>\<open>Router_Adapters\<close>: chi, gorilla, httptreemux and negroni; every engine
  has the routes of the endpoints, and gin and chi key the parameters as the configuration does.

  \<^bold>\<open>Around the pipes.\<close> \<^theory_text>\<open>Http_Server\<close>: TLS settings, the default transport, and the start
  and end of the server (\<open>transport/http/server/server.go\<close>). \<^theory_text>\<open>Server_Run\<close>: the goroutine
  of the listener as a step relation, the whole run of the routers with their log, and the writer gin
  gets (\<open>router/gin/safecast.go\<close>). \<^theory_text>\<open>Proxy_Stream\<close>: the body that closes itself with the context
  (\<open>NewReadCloserWrapper\<close>). \<^theory_text>\<open>Plugin_Loader\<close>: the three
  plugin loaders and the two places that use loaded plugins. \<^theory_text>\<open>Async_Agents\<close>:
  \<open>async/asyncagent.go\<close>. \<^theory_text>\<open>Logging\<close>: \<open>logging/log.go\<close> and \<open>proxy/logging.go\<close>.
  \<^theory_text>\<open>Gateway\<close> composes them: a configuration file is parsed, its endpoints registered with
  the stacks of the factory, and a request served by the stack of its endpoint; for an endpoint on
  one backend it says what that backend is sent of the client's request.

  \<^bold>\<open>Interfaces.\<close> The contracts between components are locales, interpreted on the model of the code:
  \<open>kv_register\<close> (what a lookup returns after a registration), \<open>entity_formatter\<close>,
  \<open>response_combiner\<close> (what a merge relies on), \<open>request_filter\<close>, \<open>balancing\<close> (a host of the
  current ones, or the subscriber's error) and \<open>route_table\<close> (what every engine of the routers
  promises of a registered route, whichever of two equal routes it prefers).

  \<^bold>\<open>Parameters.\<close> What the code calls and this repository does not hold, or that depends on the
  outside, is an argument: the JSON package, \<open>http.ServeMux\<close>, gin, chi, gorilla and httptreemux,
  gunzip, \<open>http.NewRequest\<close> and the HTTP client (with the outcome of each call), \<open>net.LookupSRV\<close>, \<open>net.ParseIP\<close>, the errors of \<open>url.Parse\<close>,
  \<open>time.ParseDuration\<close>, random numbers, the printing of floats and nested values, the flatmap tree
  package, Unicode title case, and the modifiers that plugins register. Strings are bytes, and letter
  case is that of ASCII where the code's own alphabet is ASCII. Loops need no fuel: every function
  here is total, the unbounded waits are the step relations above.

  \<^bold>\<open>Not modelled.\<close> The routing libraries, file systems, shared objects, certificates and the network
  behind the parameters above; \<open>mapstructure\<close> decoding; messages to the logger, apart from the
  logger itself, the logging middleware and the run of a router. Apart from \<^theory_text>\<open>Proxy_Stream\<close>, closing bodies
  and the pool of buffers only free resources and are left out. Panics inside the goroutines of the
  merges end the process and are not followed there.
\<close>

end
